(* ===== verification/Prelude.thy ===== *)
theory Prelude
  imports Main "HOL-Library.Word"
begin

text \<open>
  Shared vocabulary of the development: machine-integer and buffer types, C strings,
  fixed-size buffers with indexed writes, the theorem collections the component
  theories extend, and a small interface for deterministic machines whose invariant is
  kept by every operation.

  Conventions of all theories: \<open>uintN_t\<close> is \<open>N word\<close>, so that arithmetic
  wraps as it does in the source; \<open>size_t\<close> is \<open>nat\<close> (every size in the
  program is bounded by a few hundred bytes); a pointer that the code compares with
  \<open>nullptr\<close> is an \<open>option\<close>; an out-parameter and a returned \<open>bool\<close> become
  a pair or a sum type.
\<close>

unbundle bit_operations_syntax

type_synonym u8 = "8 word"
type_synonym u16 = "16 word"
type_synonym u32 = "32 word"
type_synonym u64 = "64 word"

type_synonym bytes = "u8 list"
type_synonym cstring = "u8 list"
type_synonym btext = "u8 list"
type_synonym span = "u8 list option"

named_theorems wire_simps \<open>evaluation of byte-level encoders and decoders\<close>
named_theorems state_defs \<open>definitions of state-changing operations\<close>
named_theorems inv_intros \<open>invariant-preservation rules\<close>

subsection \<open>C strings and buffers\<close>

text \<open>
  A C string is the list of the bytes before its terminator; reading at or after the end
  of the list yields the terminating NUL.
\<close>

definition c_char :: "cstring \<Rightarrow> nat \<Rightarrow> u8" where
  "c_char s i = (if i < length s then s ! i else 0)"

definition c_str_of :: "u8 list \<Rightarrow> cstring" where
  "c_str_of buf = takeWhile (\<lambda>c. c \<noteq> 0) buf"

definition cstr :: "string \<Rightarrow> cstring" where
  "cstr s = map of_char s"

text \<open>\<open>memcpy (buf + off, bs, length bs)\<close> into a fixed-size buffer.\<close>

definition write_at :: "'a list \<Rightarrow> nat \<Rightarrow> 'a list \<Rightarrow> 'a list" where
  "write_at buf off bs = take off buf @ bs @ drop (off + length bs) buf"

definition segment :: "nat \<Rightarrow> nat \<Rightarrow> 'a list \<Rightarrow> 'a list" where
  "segment off n xs = take n (drop off xs)"

text \<open>The bytes of a message that fit a bounded text: length limit, no NUL inside.\<close>

definition text_ok :: "nat \<Rightarrow> btext \<Rightarrow> bool" where
  "text_ok cap t \<longleftrightarrow> length t \<le> cap \<and> 0 \<notin> set t"

subsection \<open>Lists and buffers\<close>

lemma length_write_at [simp]:
  "off + length bs \<le> length buf \<Longrightarrow> length (write_at buf off bs) = length buf"
  by (simp add: write_at_def)

lemma write_at_zero: "write_at buf 0 bs = bs @ drop (length bs) buf"
  by (simp add: write_at_def)

lemma segment_write_at:
  "off + length bs \<le> length buf \<Longrightarrow> segment off (length bs) (write_at buf off bs) = bs"
  by (simp add: write_at_def segment_def)

lemma nth_write_at:
  assumes "off + length bs \<le> length buf" and "i < length buf"
  shows "write_at buf off bs ! i =
    (if off \<le> i \<and> i < off + length bs then bs ! (i - off) else buf ! i)"
  using assms by (auto simp: write_at_def nth_append min_def)

lemma segment_nth [simp]: "i < n \<Longrightarrow> off + i < length xs \<Longrightarrow> segment off n xs ! i = xs ! (off + i)"
  by (simp add: segment_def)

lemma length_segment [simp]: "length (segment off n xs) = min n (length xs - off)"
  by (simp add: segment_def)

lemma segment_eq_iff:
  assumes "off + n \<le> length xs" and "length ys = n"
  shows "segment off n xs = ys \<longleftrightarrow> (\<forall>i<n. xs ! (off + i) = ys ! i)"
  using assms by (auto simp: list_eq_iff_nth_eq min_def)

lemma write_at_noop:
  assumes "off + length bs \<le> length buf" and "segment off (length bs) buf = bs"
  shows "write_at buf off bs = buf"
proof -
  have "buf = take off buf @ take (length bs) (drop off buf) @ drop (length bs) (drop off buf)"
    by (simp only: append_take_drop_id)
  with assms(2) show ?thesis by (simp add: write_at_def segment_def add.commute)
qed

lemma takeWhile_all [simp]: "0 \<notin> set (t::btext) \<Longrightarrow> takeWhile (\<lambda>c. c \<noteq> 0) t = t"
  by (rule takeWhile_eq_all_conv [THEN iffD2]) auto

lemma c_str_of_terminated:
  "(0::u8) \<notin> set t \<Longrightarrow> c_str_of (t @ 0 # rest) = t"
  by (simp add: c_str_of_def takeWhile_tail)

lemma zero_notin_takeWhile [simp]: "0 \<notin> set (takeWhile (\<lambda>c. c \<noteq> (0::u8)) t)"
  by (induction t) auto

lemma zero_notin_c_str_of [simp]: "0 \<notin> set (c_str_of t)"
  by (simp add: c_str_of_def)

lemma length_c_str_of: "length (c_str_of t) \<le> length t"
  by (simp add: c_str_of_def length_takeWhile_le)

lemma length_cstr [simp]: "length (cstr s) = length s"
  by (simp add: cstr_def)

lemma text_okI: "length t \<le> cap \<Longrightarrow> 0 \<notin> set t \<Longrightarrow> text_ok cap t"
  by (simp add: text_ok_def)

lemma text_ok_Nil [simp]: "text_ok cap []"
  by (simp add: text_ok_def)

lemma upt_4 [wire_simps]: "[0..<4::nat] = [0, 1, 2, 3]"
  by (simp add: upt_rec)

lemma upt_8 [wire_simps]: "[0..<8::nat] = [0, 1, 2, 3, 4, 5, 6, 7]"
  by (simp add: upt_rec)

subsection \<open>Words\<close>

lemma unat_less_256 [simp]: "unat (b::u8) < 256"
  using unsigned_less [of b, where 'a = nat] by simp

lemma unat_u8_bound: "unat (b::u8) \<le> 255"
  using unat_less_256 [of b] by linarith

lemma unat_u16_bound [simp]: "unat (b::u16) < 65536"
  using unsigned_less [of b, where 'a = nat] by simp

lemma unat_of_nat_u8 [simp]: "n < 256 \<Longrightarrow> unat (of_nat n :: u8) = n"
  by (simp add: unat_of_nat)

lemma unat_of_nat_u16 [simp]: "n < 65536 \<Longrightarrow> unat (of_nat n :: u16) = n"
  by (simp add: unat_of_nat)

lemma unat_plus_one: "w \<noteq> - 1 \<Longrightarrow> unat (w + 1) = Suc (unat w)" for w :: "'a::len word"
  by (metis unatSuc add.commute eq_neg_iff_add_eq_0)

lemma sint_u32_neg_iff: "sint (w::u32) < 0 \<longleftrightarrow> 2 ^ 31 \<le> unat w"
proof -
  have "sint w < 0 \<longleftrightarrow> bit (unat w) 31"
    by (simp add: sint_uint bit_uint_iff bit_unsigned_iff)
  also have "\<dots> \<longleftrightarrow> odd (unat w div 2 ^ 31)" by (simp add: bit_iff_odd)
  also have "\<dots> \<longleftrightarrow> 2 ^ 31 \<le> unat w"
  proof -
    have "unat w div 2 ^ 31 < 2" using unsigned_less [of w, where 'a = nat] by simp
    then have "odd (unat w div 2 ^ 31) \<longleftrightarrow> 0 < unat w div 2 ^ 31" by (auto simp: less_2_cases_iff)
    then show ?thesis by (simp add: div_greater_zero_iff)
  qed
  finally show ?thesis .
qed

lemma word_less_Suc_le: "a < b \<Longrightarrow> a + 1 \<le> b \<and> 0 < a + 1" for a :: "'a::len word"
proof -
  assume "a < b"
  moreover from this have "a \<noteq> - 1" by (metis not_le word_n1_ge)
  ultimately show ?thesis by (simp add: word_less_nat_alt word_le_nat_alt unat_plus_one)
qed

text \<open>The program's deadline test \<open>static_cast<int32_t>(now - deadline) < 0\<close> on the wrapping
  clock: for a timeout of at most \<open>2 ^ 31\<close> and less than \<open>2 ^ 31\<close> milliseconds elapsed it
  compares the elapsed time with the timeout, wherever the clock wraps.\<close>

lemma deadline_pending_iff:
  assumes "unat e < 2 ^ 31" and "unat timeout \<le> 2 ^ 31"
  shows "sint ((t + e) - (t + timeout) :: u32) < 0 \<longleftrightarrow> e < timeout"
proof -
  have "(t + e) - (t + timeout) = e - timeout" by simp
  moreover have "2 ^ 31 \<le> unat (e - timeout) \<longleftrightarrow> e < timeout"
  proof (cases "e < timeout")
    case True
    then have "unat (e - timeout) = 2 ^ 32 + unat e - unat timeout"
      using unsigned_less [of timeout, where 'a = nat]
      by (simp add: unat_sub_if_size word_size not_le word_less_nat_alt)
    with assms True show ?thesis by (simp add: word_less_nat_alt)
  next
    case False
    then have "unat (e - timeout) = unat e - unat timeout"
      by (simp add: unat_sub word_less_nat_alt word_le_nat_alt not_less)
    with assms False show ?thesis by simp
  qed
  ultimately show ?thesis by (simp add: sint_u32_neg_iff)
qed

subsection \<open>Machines with an invariant\<close>

text \<open>
  The shape shared by the state machines of the program: an initial state, a step
  function over the events that can occur, and a predicate every step keeps. The lemma
  of the locale lifts it to every run.
\<close>

primrec run_events :: "('e \<Rightarrow> 's \<Rightarrow> 's) \<Rightarrow> 'e list \<Rightarrow> 's \<Rightarrow> 's" where
  "run_events step [] s = s"
| "run_events step (e # es) s = run_events step es (step e s)"

lemma run_events_append:
  "run_events step (xs @ ys) s = run_events step ys (run_events step xs s)"
  by (induction xs arbitrary: s) auto

locale invariant_machine =
  fixes start :: 's
    and step :: "'e \<Rightarrow> 's \<Rightarrow> 's"
    and inv :: "'s \<Rightarrow> bool"
  assumes inv_start: "inv start"
    and inv_step: "inv s \<Longrightarrow> inv (step e s)"
begin

lemma inv_run_from: "inv s \<Longrightarrow> inv (run_events step es s)"
  by (induction es arbitrary: s) (auto intro: inv_step)

lemma inv_run: "inv (run_events step es start)"
  by (rule inv_run_from [OF inv_start])

end

end
