(* ===== verification/Interrupt_Pair.thy ===== *)
theory Interrupt_Pair
  imports Prelude
begin

text \<open>
  \<open>interruptible_transaction_pair.h\<close>: the two application identities of a long-running
  operation and of the command that interrupts it.
\<close>

record InterruptibleTransactionPair =
  ip_operation_id :: u64
  ip_interrupt_id :: u64
  ip_interrupted :: bool

definition pair_init :: InterruptibleTransactionPair where
  "pair_init = \<lparr>ip_operation_id = 0, ip_interrupt_id = 0, ip_interrupted = False\<rparr>"

definition begin_operation ::
    "u64 \<Rightarrow> InterruptibleTransactionPair \<Rightarrow> bool \<times> InterruptibleTransactionPair" where
  "begin_operation t p =
     (if t = 0 \<or> ip_operation_id p \<noteq> 0 \<or> ip_interrupt_id p \<noteq> 0 then (False, p)
      else (True, p\<lparr>ip_operation_id := t, ip_interrupted := False\<rparr>))"

definition begin_interrupt ::
    "u64 \<Rightarrow> InterruptibleTransactionPair \<Rightarrow> bool \<times> InterruptibleTransactionPair" where
  "begin_interrupt t p =
     (if t = 0 \<or> ip_operation_id p = 0 \<or> ip_interrupt_id p \<noteq> 0 \<or> t = ip_operation_id p
      then (False, p)
      else (True, p\<lparr>ip_interrupt_id := t\<rparr>))"

definition finish_interrupt ::
    "u64 \<Rightarrow> bool \<Rightarrow> InterruptibleTransactionPair \<Rightarrow> bool \<times> InterruptibleTransactionPair" where
  "finish_interrupt t stopped p =
     (if t = 0 \<or> t \<noteq> ip_interrupt_id p then (False, p)
      else let p1 = p\<lparr>ip_interrupt_id := 0\<rparr> in
           (True, if stopped \<and> ip_operation_id p1 \<noteq> 0 then p1\<lparr>ip_interrupted := True\<rparr> else p1))"

definition finish_operation ::
    "u64 \<Rightarrow> InterruptibleTransactionPair \<Rightarrow> bool \<times> InterruptibleTransactionPair" where
  "finish_operation t p =
     (if t = 0 \<or> t \<noteq> ip_operation_id p then (False, p)
      else (True, p\<lparr>ip_operation_id := 0, ip_interrupted := False\<rparr>))"

definition operation_active :: "InterruptibleTransactionPair \<Rightarrow> bool" where
  "operation_active p \<longleftrightarrow> ip_operation_id p \<noteq> 0"

definition interrupt_active :: "InterruptibleTransactionPair \<Rightarrow> bool" where
  "interrupt_active p \<longleftrightarrow> ip_interrupt_id p \<noteq> 0"

datatype pair_event =
    BeginOperation u64 | BeginInterrupt u64 | FinishInterrupt u64 bool | FinishOperation u64

fun pair_step :: "pair_event \<Rightarrow> InterruptibleTransactionPair \<Rightarrow> InterruptibleTransactionPair" where
  "pair_step (BeginOperation t) p = snd (begin_operation t p)"
| "pair_step (BeginInterrupt t) p = snd (begin_interrupt t p)"
| "pair_step (FinishInterrupt t s) p = snd (finish_interrupt t s p)"
| "pair_step (FinishOperation t) p = snd (finish_operation t p)"

text \<open>What the pair stands for: the operation in progress, the interrupt in progress, and
  whether that operation has been stopped; a flag without an operation has no meaning.\<close>

definition pair_inv :: "InterruptibleTransactionPair \<Rightarrow> bool" where
  "pair_inv p \<longleftrightarrow>
     (ip_operation_id p \<noteq> 0 \<longrightarrow> ip_operation_id p \<noteq> ip_interrupt_id p) \<and>
     (ip_interrupted p \<longrightarrow> ip_operation_id p \<noteq> 0)"

lemmas pair_defs [state_defs] = begin_operation_def begin_interrupt_def finish_interrupt_def
  finish_operation_def operation_active_def interrupt_active_def Let_def

interpretation pair_machine: invariant_machine pair_init pair_step pair_inv
proof
  show "pair_inv pair_init" by (simp add: pair_inv_def pair_init_def)
  show "pair_inv (pair_step e s)" if "pair_inv s" for e s
    using that by (cases e) (auto simp: pair_inv_def pair_defs)
qed

text \<open>The interrupted flag can only be set by a successful stop of the operation that is
  still in progress.\<close>

lemma interrupted_step:
  "ip_interrupted (pair_step e p) \<Longrightarrow> \<not> ip_interrupted p \<Longrightarrow>
     e = FinishInterrupt (ip_interrupt_id p) True \<and> operation_active p \<and> interrupt_active p"
  by (cases e) (auto simp: pair_defs split: if_splits)

text \<open>After any sequence of calls the operation and its interrupt have different
  identities, an operation is marked interrupted only while it is in progress, and the call
  that marked it was a successful stop reported for the interrupt then in progress.\<close>

theorem interrupt_pair_correlated:
  "let p = run_events pair_step es pair_init in
   (operation_active p \<longrightarrow> ip_operation_id p \<noteq> ip_interrupt_id p) \<and>
   (ip_interrupted p \<longrightarrow> operation_active p) \<and>
   (\<forall>e. ip_interrupted (pair_step e p) \<longrightarrow> \<not> ip_interrupted p \<longrightarrow>
      e = FinishInterrupt (ip_interrupt_id p) True \<and> operation_active p \<and> interrupt_active p)"
  using pair_machine.inv_run [of es] interrupted_step
  by (auto simp: Let_def pair_inv_def operation_active_def)

lemma interrupt_pair_correlated_witness:
  "let p = run_events pair_step [BeginOperation 5, BeginInterrupt 6] pair_init in
   ip_interrupted (pair_step (FinishInterrupt 6 True) p) \<and> operation_active p \<and> interrupt_active p"
  using interrupt_pair_correlated [of "[BeginOperation 5, BeginInterrupt 6]"]
  by (simp add: pair_defs pair_init_def)

end
