(* ===== verification/Byte_Order.thy ===== *)
theory Byte_Order
  imports Prelude
begin

text \<open>
  The \<open>put_uN_\<close> / \<open>get_uN_\<close> helpers, which the frame, acknowledgement, command and
  result codecs each declare for themselves with the same bodies: big-endian, most
  significant byte first. The heartbeat packet uses the little-endian variants. A
  \<open>put\<close> returns the bytes it stores at its output pointer; a \<open>get\<close> reads from the
  start of the list it is given, as the source reads from \<open>in\<close>.
\<close>

definition put_u16 :: "u16 \<Rightarrow> bytes" where
  "put_u16 value = [ucast (drop_bit 8 value), ucast value]"

definition put_u32 :: "u32 \<Rightarrow> bytes" where
  "put_u32 value = map (\<lambda>i. ucast (drop_bit (24 - i * 8) value)) [0..<4]"

definition put_u64 :: "u64 \<Rightarrow> bytes" where
  "put_u64 value = map (\<lambda>i. ucast (drop_bit (56 - i * 8) value)) [0..<8]"

definition get_u16 :: "bytes \<Rightarrow> u16" where
  "get_u16 inp = push_bit 8 (ucast (inp ! 0)) OR ucast (inp ! 1)"

definition get_u32 :: "bytes \<Rightarrow> u32" where
  "get_u32 inp = fold (\<lambda>i value. push_bit 8 value OR ucast (inp ! i)) [0..<4] 0"

definition get_u64 :: "bytes \<Rightarrow> u64" where
  "get_u64 inp = fold (\<lambda>i value. push_bit 8 value OR ucast (inp ! i)) [0..<8] 0"

definition put_le_u32 :: "u32 \<Rightarrow> bytes" where
  "put_le_u32 value = map (\<lambda>i. ucast (drop_bit (8 * i) value)) [0..<4]"

definition put_le_u64 :: "u64 \<Rightarrow> bytes" where
  "put_le_u64 value = map (\<lambda>i. ucast (drop_bit (8 * i) value)) [0..<8]"

definition get_le_u32 :: "bytes \<Rightarrow> u32" where
  "get_le_u32 inp = fold (\<lambda>i value. value OR push_bit (8 * i) (ucast (inp ! i))) [0..<4] 0"

definition get_le_u64 :: "bytes \<Rightarrow> u64" where
  "get_le_u64 inp = fold (\<lambda>i value. value OR push_bit (8 * i) (ucast (inp ! i))) [0..<8] 0"

lemma length_put_u16 [simp]: "length (put_u16 v) = 2"
  by (simp add: put_u16_def)

lemma length_put_u32 [simp]: "length (put_u32 v) = 4"
  by (simp add: put_u32_def)

lemma length_put_u64 [simp]: "length (put_u64 v) = 8"
  by (simp add: put_u64_def)

lemma length_put_le_u32 [simp]: "length (put_le_u32 v) = 4"
  by (simp add: put_le_u32_def)

lemma length_put_le_u64 [simp]: "length (put_le_u64 v) = 8"
  by (simp add: put_le_u64_def)

text \<open>
  One step of a big-endian read undoes one step of the write: shifting the bits above
  position \<open>k + 8\<close> and adding the byte at \<open>k\<close> gives the bits above \<open>k\<close>.
\<close>

lemma big_endian_step:
  fixes v :: "'a::len word"
  shows "push_bit 8 (drop_bit (k + 8) v) OR ucast (ucast (drop_bit k v) :: u8) = drop_bit k v"
  by (rule bit_word_eqI) (auto simp: bit_simps add.commute add.left_commute)

lemma little_endian_step:
  fixes v :: "'a::len word"
  shows "take_bit k v OR push_bit k (ucast (ucast (drop_bit k v) :: u8)) = take_bit (k + 8) v"
  by (rule bit_word_eqI) (auto simp: bit_simps)

lemma get_put_u16 [simp]: "get_u16 (put_u16 v @ rest) = v"
  by (rule bit_word_eqI) (auto simp: get_u16_def put_u16_def bit_simps)

lemma get_put_u32 [simp]: "get_u32 (put_u32 v @ rest) = v"
proof -
  have "drop_bit 32 v = 0" by (rule bit_word_eqI) (simp add: bit_simps)
  then show ?thesis
    using big_endian_step [of 24 v] big_endian_step [of 16 v]
      big_endian_step [of 8 v] big_endian_step [of 0 v]
    by (simp add: get_u32_def put_u32_def upt_4)
qed

lemma get_put_u64 [simp]: "get_u64 (put_u64 v @ rest) = v"
proof -
  have "drop_bit 64 v = 0" by (rule bit_word_eqI) (simp add: bit_simps)
  then show ?thesis
    using big_endian_step [of 56 v] big_endian_step [of 48 v] big_endian_step [of 40 v]
      big_endian_step [of 32 v] big_endian_step [of 24 v] big_endian_step [of 16 v]
      big_endian_step [of 8 v] big_endian_step [of 0 v]
    by (simp add: get_u64_def put_u64_def upt_8)
qed

lemma take_bit_full_u32: "take_bit 32 (v::u32) = v"
  by (rule bit_word_eqI) (simp add: bit_simps)

lemma take_bit_full_u64: "take_bit 64 (v::u64) = v"
  by (rule bit_word_eqI) (simp add: bit_simps)

lemma get_put_le_u32 [simp]: "get_le_u32 (put_le_u32 v @ rest) = v"
  using little_endian_step [of 0 v] little_endian_step [of 8 v]
    little_endian_step [of 16 v] little_endian_step [of 24 v]
  by (simp add: get_le_u32_def put_le_u32_def upt_4 take_bit_full_u32)

lemma get_put_le_u64 [simp]: "get_le_u64 (put_le_u64 v @ rest) = v"
  using little_endian_step [of 0 v] little_endian_step [of 8 v] little_endian_step [of 16 v]
    little_endian_step [of 24 v] little_endian_step [of 32 v] little_endian_step [of 40 v]
    little_endian_step [of 48 v] little_endian_step [of 56 v]
  by (simp add: get_le_u64_def put_le_u64_def upt_8 take_bit_full_u64)

lemmas get_put_end [simp] =
  get_put_u16 [where rest = "[]", simplified] get_put_u32 [where rest = "[]", simplified]
  get_put_u64 [where rest = "[]", simplified] get_put_le_u32 [where rest = "[]", simplified]
  get_put_le_u64 [where rest = "[]", simplified]

end
