(* ===== verification/Bounded_Value.thy ===== *)
theory Bounded_Value
  imports Prelude
begin

text \<open>
  \<open>bounded_value.h\<close>: the fixed-capacity text and byte containers every message, frame
  and payload of the program is built from. Each class is modelled twice. The first model
  is the class itself, with its private array and size; the second is the value its
  clients see, a byte list. The interface \<open>bounded_container\<close> says what the clients rely
  on, both classes are interpreted in it, and the refinement lemmas let every other theory
  of the development carry the byte list.
\<close>

subsection \<open>The classes\<close>

record BoundedText =
  bt_data :: bytes
  bt_size :: nat

record BoundedBytes =
  bb_data :: bytes
  bb_size :: nat

definition BoundedText_init :: "nat \<Rightarrow> BoundedText" where
  "BoundedText_init cap = \<lparr>bt_data = replicate (cap + 1) 0, bt_size = 0\<rparr>"

definition BoundedText_clear :: "BoundedText \<Rightarrow> BoundedText" where
  "BoundedText_clear t = t\<lparr>bt_data := (bt_data t)[0 := 0], bt_size := 0\<rparr>"

text \<open>The scan of \<open>assign\<close>: it stops at the terminator or one byte past the capacity.\<close>

function text_scan :: "nat \<Rightarrow> cstring \<Rightarrow> nat \<Rightarrow> nat" where
  "text_scan cap v len =
     (if len \<le> cap \<and> c_char v len \<noteq> 0 then text_scan cap v (Suc len) else len)"
  by pat_completeness auto
termination
  by (relation "measure (\<lambda>(cap, v, len). cap + 1 - len)") auto

declare text_scan.simps [simp del]

definition BoundedText_assign ::
    "nat \<Rightarrow> cstring option \<Rightarrow> BoundedText \<Rightarrow> bool \<times> BoundedText" where
  "BoundedText_assign cap v t =
     (let t1 = BoundedText_clear t in
      case v of
        None \<Rightarrow> (False, t1)
      | Some s \<Rightarrow>
          (let len = text_scan cap s 0 in
           if len > cap then (False, t1)
           else (True, t1\<lparr>bt_data := (write_at (bt_data t1) 0 (take len s))[len := 0],
                          bt_size := len\<rparr>)))"

definition BoundedText_c_str :: "BoundedText \<Rightarrow> cstring" where
  "BoundedText_c_str t = c_str_of (bt_data t)"

definition BoundedText_size :: "BoundedText \<Rightarrow> nat" where
  "BoundedText_size t = bt_size t"

definition BoundedText_empty :: "BoundedText \<Rightarrow> bool" where
  "BoundedText_empty t \<longleftrightarrow> bt_size t = 0"

definition BoundedBytes_init :: "nat \<Rightarrow> BoundedBytes" where
  "BoundedBytes_init cap = \<lparr>bb_data = replicate cap 0, bb_size = 0\<rparr>"

definition BoundedBytes_clear :: "BoundedBytes \<Rightarrow> BoundedBytes" where
  "BoundedBytes_clear b = b\<lparr>bb_size := 0\<rparr>"

definition BoundedBytes_assign ::
    "nat \<Rightarrow> span \<Rightarrow> nat \<Rightarrow> BoundedBytes \<Rightarrow> bool \<times> BoundedBytes" where
  "BoundedBytes_assign cap v len b =
     (let b1 = BoundedBytes_clear b in
      if (v = None \<and> len \<noteq> 0) \<or> len > cap then (False, b1)
      else (True, b1\<lparr>bb_data := (case v of None \<Rightarrow> bb_data b1
                                  | Some s \<Rightarrow> write_at (bb_data b1) 0 (take len s)),
                     bb_size := len\<rparr>))"

definition BoundedBytes_data :: "BoundedBytes \<Rightarrow> bytes" where
  "BoundedBytes_data b = bb_data b"

definition BoundedBytes_size :: "BoundedBytes \<Rightarrow> nat" where
  "BoundedBytes_size b = bb_size b"

subsection \<open>The values the clients see\<close>

definition text_abs :: "BoundedText \<Rightarrow> btext" where
  "text_abs t = take (bt_size t) (bt_data t)"

definition bytes_abs :: "BoundedBytes \<Rightarrow> bytes" where
  "bytes_abs b = take (bb_size b) (bb_data b)"

definition text_wf :: "nat \<Rightarrow> BoundedText \<Rightarrow> bool" where
  "text_wf cap t \<longleftrightarrow>
     length (bt_data t) = cap + 1 \<and> bt_size t \<le> cap \<and> bt_data t ! bt_size t = 0 \<and>
     0 \<notin> set (text_abs t)"

definition bytes_wf :: "nat \<Rightarrow> BoundedBytes \<Rightarrow> bool" where
  "bytes_wf cap b \<longleftrightarrow> length (bb_data b) = cap \<and> bb_size b \<le> cap"

definition text_accepts :: "nat \<Rightarrow> cstring option \<Rightarrow> btext option" where
  "text_accepts cap v =
     (case v of None \<Rightarrow> None
      | Some s \<Rightarrow> (if length (c_str_of s) > cap then None else Some (c_str_of s)))"

definition bytes_accepts :: "nat \<Rightarrow> span \<times> nat \<Rightarrow> bytes option" where
  "bytes_accepts cap vl =
     (case vl of (v, len) \<Rightarrow>
        (if (v = None \<and> len \<noteq> 0) \<or> len > cap then None
         else Some (case v of None \<Rightarrow> [] | Some s \<Rightarrow> take len s)))"

text \<open>
  \<open>assign\<close> on values: the returned flag, and the new content, empty when the value was
  refused. These two are what the other theories call.
\<close>

definition text_assign :: "nat \<Rightarrow> cstring option \<Rightarrow> bool \<times> btext" where
  "text_assign cap v =
     (case text_accepts cap v of None \<Rightarrow> (False, []) | Some x \<Rightarrow> (True, x))"

definition bytes_assign :: "nat \<Rightarrow> span \<Rightarrow> nat \<Rightarrow> bool \<times> bytes" where
  "bytes_assign cap v len =
     (case bytes_accepts cap (v, len) of None \<Rightarrow> (False, []) | Some x \<Rightarrow> (True, x))"

subsection \<open>The interface\<close>

text \<open>
  What a client of a bounded container relies on: \<open>assign\<close> stores the accepted value and
  reports success, or empties the container and reports failure; \<open>clear\<close> empties it; the
  size is the length of the content and never exceeds the capacity.
\<close>

locale bounded_container =
  fixes cap :: nat
    and valid_arg :: "'v \<Rightarrow> bool"
    and accepts :: "'v \<Rightarrow> bytes option"
    and assign :: "'v \<Rightarrow> 't \<Rightarrow> bool \<times> 't"
    and clear :: "'t \<Rightarrow> 't"
    and size_of :: "'t \<Rightarrow> nat"
    and content :: "'t \<Rightarrow> bytes"
    and wf :: "'t \<Rightarrow> bool"
  assumes assign_ok:
      "\<lbrakk>wf t; valid_arg v; accepts v = Some x\<rbrakk> \<Longrightarrow>
         fst (assign v t) \<and> content (snd (assign v t)) = x \<and> wf (snd (assign v t))"
    and assign_fail:
      "\<lbrakk>wf t; valid_arg v; accepts v = None\<rbrakk> \<Longrightarrow>
         \<not> fst (assign v t) \<and> content (snd (assign v t)) = [] \<and> wf (snd (assign v t))"
    and clear_ok: "wf t \<Longrightarrow> wf (clear t) \<and> content (clear t) = []"
    and size_ok: "wf t \<Longrightarrow> size_of t = length (content t) \<and> size_of t \<le> cap"
begin

lemma assign_wf: "wf t \<Longrightarrow> valid_arg v \<Longrightarrow> wf (snd (assign v t))"
  by (cases "accepts v") (auto dest: assign_ok assign_fail)

lemma assign_content:
  "wf t \<Longrightarrow> valid_arg v \<Longrightarrow>
     (fst (assign v t), content (snd (assign v t))) =
     (case accepts v of None \<Rightarrow> (False, []) | Some x \<Rightarrow> (True, x))"
  by (cases "accepts v") (auto dest: assign_ok assign_fail)

lemma assign_forgets:
  assumes "wf t" and "wf t'" and "valid_arg v"
  shows "content (snd (assign v t)) = content (snd (assign v t'))"
  using assign_content [OF assms(1,3)] assign_content [OF assms(2,3)]
  by (cases "accepts v") auto

end

subsection \<open>The classes implement the interface\<close>

lemma text_scan_eq:
  "len \<le> Suc cap \<Longrightarrow> 0 \<notin> set (take len v) \<Longrightarrow> len \<le> length v \<Longrightarrow>
     text_scan cap v len = min (Suc cap) (length (c_str_of v))"
proof (induction cap v len rule: text_scan.induct)
  case (1 cap v len)
  have split: "c_str_of v = take len v @ takeWhile (\<lambda>c. c \<noteq> 0) (drop len v)"
    using "1.prems"(2) takeWhile_append2 [of "take len v" "\<lambda>c. c \<noteq> 0" "drop len v"]
    by (auto simp: c_str_of_def)
  show ?case
  proof (cases "len \<le> cap \<and> c_char v len \<noteq> 0")
    case True
    then have lt: "len < length v" and nz: "v ! len \<noteq> 0"
      by (auto simp: c_char_def split: if_splits)
    have "0 \<notin> set (take (Suc len) v)"
      using "1.prems"(2) lt nz by (auto simp: take_Suc_conv_app_nth)
    with True lt "1.IH" have "text_scan cap v (Suc len) = min (Suc cap) (length (c_str_of v))"
      by simp
    with True show ?thesis by (simp add: text_scan.simps [of cap v len])
  next
    case False
    then have res: "text_scan cap v len = len" by (simp add: text_scan.simps)
    show ?thesis
    proof (cases "len = length v \<or> v ! len = 0")
      case True
      then have "c_str_of v = take len v"
        using split "1.prems"(3) by (cases "drop len v") (auto simp: nth_via_drop)
      with res "1.prems" show ?thesis by simp
    next
      case nz: False
      then have "len < length v" using "1.prems"(3) by simp
      with nz False have "len = Suc cap" using "1.prems"(1) by (simp add: c_char_def)
      moreover have "len \<le> length (c_str_of v)"
        using split "1.prems"(3) by simp
      ultimately show ?thesis using res by simp
    qed
  qed
qed

corollary text_scan_start: "text_scan cap v 0 = min (Suc cap) (length (c_str_of v))"
  by (rule text_scan_eq) auto

lemma take_c_str_of: "take (length (c_str_of s)) s = c_str_of s"
  by (metis c_str_of_def takeWhile_eq_take)

lemma BoundedText_assign_eq:
  "text_wf cap t \<Longrightarrow>
     BoundedText_assign cap v t =
     (case text_accepts cap v of
        None \<Rightarrow> (False, BoundedText_clear t)
      | Some x \<Rightarrow> (True, \<lparr>bt_data = (write_at ((bt_data t)[0 := 0]) 0 x)[length x := 0],
                         bt_size = length x\<rparr>))"
  by (cases t)
    (auto simp: BoundedText_assign_def text_accepts_def text_scan_start take_c_str_of
      BoundedText_clear_def Let_def min_def split: option.splits)

lemma text_assigned_wf:
  assumes "text_wf cap t" and "text_ok cap x"
  defines "t' \<equiv> \<lparr>bt_data = (write_at ((bt_data t)[0 := 0]) 0 x)[length x := 0], bt_size = length x\<rparr>"
  shows "text_wf cap t' \<and> text_abs t' = x"
  using assms by (auto simp: text_wf_def text_ok_def text_abs_def write_at_zero)

lemma text_cleared_wf: "text_wf cap t \<Longrightarrow> text_wf cap (BoundedText_clear t) \<and> text_abs (BoundedText_clear t) = []"
  by (auto simp: text_wf_def text_abs_def BoundedText_clear_def)

lemma text_accepts_ok: "text_accepts cap v = Some x \<Longrightarrow> text_ok cap x"
  by (auto simp: text_accepts_def text_ok_def split: option.splits if_splits)

interpretation bounded_text: bounded_container cap "\<lambda>_. True" "text_accepts cap"
    "BoundedText_assign cap" BoundedText_clear BoundedText_size text_abs "text_wf cap"
  for cap
proof (unfold_locales, goal_cases)
  case (1 t v x)
  then show ?case
    using text_assigned_wf [OF 1(1) text_accepts_ok [OF 1(3)]] by (simp add: BoundedText_assign_eq)
next
  case (2 t v)
  then show ?case using text_cleared_wf [OF 2(1)] by (simp add: BoundedText_assign_eq)
next
  case (3 t)
  then show ?case by (rule text_cleared_wf)
next
  case (4 t)
  then show ?case by (simp add: text_wf_def text_abs_def BoundedText_size_def)
qed

interpretation bounded_bytes: bounded_container cap
    "\<lambda>(v, len). (\<forall>s. v = Some s \<longrightarrow> len \<le> length s)" "bytes_accepts cap"
    "\<lambda>(v, len). BoundedBytes_assign cap v len" BoundedBytes_clear BoundedBytes_size bytes_abs
    "bytes_wf cap"
  for cap
  by unfold_locales
    (auto simp: bytes_wf_def bytes_abs_def bytes_accepts_def BoundedBytes_assign_def
      BoundedBytes_clear_def BoundedBytes_size_def Let_def write_at_zero
      split: option.splits if_splits)

subsection \<open>Refinement and shared facts\<close>

lemma c_str_eq_text_abs: "text_wf cap t \<Longrightarrow> BoundedText_c_str t = text_abs t"
  unfolding BoundedText_c_str_def text_wf_def text_abs_def
  by (metis c_str_of_terminated id_take_nth_drop le_imp_less_Suc Suc_eq_plus1)

lemma text_assign_Some [simp]: "text_ok cap x \<Longrightarrow> text_assign cap (Some x) = (True, x)"
  by (simp add: text_assign_def text_accepts_def text_ok_def c_str_of_def)

lemma text_assign_buffer:
  "text_ok cap x \<Longrightarrow> text_assign cap (Some (x @ 0 # rest)) = (True, x)"
  by (simp add: text_assign_def text_accepts_def text_ok_def c_str_of_terminated)

lemma text_assign_ok: "text_assign cap v = (b, x) \<Longrightarrow> text_ok cap x"
  by (auto simp: text_assign_def text_accepts_ok split: option.splits)

lemma bytes_assign_Some [simp]:
  "length x \<le> cap \<Longrightarrow> bytes_assign cap (Some x) (length x) = (True, x)"
  by (simp add: bytes_assign_def bytes_accepts_def)

lemma bytes_assign_exact: "len = length x \<Longrightarrow> len \<le> cap \<Longrightarrow> bytes_assign cap (Some x) len = (True, x)"
  by simp

lemma bytes_assign_take:
  "len \<le> cap \<Longrightarrow> bytes_assign cap (Some x) len = (True, take len x)"
  by (simp add: bytes_assign_def bytes_accepts_def)

lemma bytes_assign_bound: "bytes_assign cap v len = (b, x) \<Longrightarrow> length x \<le> cap"
  by (auto simp: bytes_assign_def bytes_accepts_def split: option.splits if_splits)

lemma bytes_assign_fst:
  "fst (bytes_assign cap (Some x) len) \<longleftrightarrow> len \<le> cap"
  by (simp add: bytes_assign_def bytes_accepts_def)

subsection \<open>Properties\<close>

text \<open>The array-and-size class \<open>BoundedText\<close> refines the plain byte list: from any
  well-formed container, \<open>assign\<close> returns the flag and leaves the content that
  \<open>text_assign\<close> prescribes (the string up to its terminator, or nothing when it is
  null or too long), stays inside its array and NUL-terminated, and \<open>c_str()\<close> and
  \<open>size()\<close> read exactly that content.\<close>

theorem BoundedText_assign_refines:
  assumes "text_wf cap t"
  shows "(fst (BoundedText_assign cap v t), text_abs (snd (BoundedText_assign cap v t))) = text_assign cap v
    \<and> text_wf cap (snd (BoundedText_assign cap v t))
    \<and> BoundedText_c_str (snd (BoundedText_assign cap v t)) = snd (text_assign cap v)
    \<and> BoundedText_size (snd (BoundedText_assign cap v t)) = length (snd (text_assign cap v))"
proof -
  have wf: "text_wf cap (snd (BoundedText_assign cap v t))"
    by (rule bounded_text.assign_wf [OF assms]) simp
  moreover have eq: "(fst (BoundedText_assign cap v t), text_abs (snd (BoundedText_assign cap v t)))
      = text_assign cap v"
    unfolding text_assign_def by (rule bounded_text.assign_content [OF assms]) simp
  ultimately show ?thesis
    using c_str_eq_text_abs [OF wf] bounded_text.size_ok [OF wf] by (auto simp flip: eq)
qed

lemma BoundedText_init_wf [simp]: "text_wf cap (BoundedText_init cap)"
  by (simp add: text_wf_def BoundedText_init_def text_abs_def)

lemma BoundedText_assign_refines_witness:
  "BoundedText_c_str (snd (BoundedText_assign 7 (Some [115, 116, 111, 112]) (BoundedText_init 7)))
     = [115, 116, 111, 112]"
  using BoundedText_assign_refines [OF BoundedText_init_wf, of 7 "Some [115, 116, 111, 112]"]
  by (simp add: text_ok_def)

end
