(* ===== verification/Protocol_Identity.thy ===== *)
theory Protocol_Identity
  imports Bounded_Value
begin

text \<open>
  \<open>protocol_identity.h\<close>: the identifiers of deliveries and peers.
\<close>

type_synonym TransactionId = u64
type_synonym PeerIndex = u8

definition INVALID_PEER_INDEX :: PeerIndex where
  "INVALID_PEER_INDEX = 255"

record DeliveryIdentity =
  dk_source_boot_id :: u64
  dk_transaction_id :: TransactionId
  dk_sequence :: u32

definition DeliveryIdentity_init :: DeliveryIdentity where
  "DeliveryIdentity_init =
     \<lparr>dk_source_boot_id = 0, dk_transaction_id = 0, dk_sequence = 0\<rparr>"

definition DeliveryIdentity_valid :: "DeliveryIdentity \<Rightarrow> bool" where
  "DeliveryIdentity_valid k \<longleftrightarrow>
     dk_source_boot_id k \<noteq> 0 \<and> dk_transaction_id k \<noteq> 0 \<and> dk_sequence k \<noteq> 0"

definition DeliveryIdentity_eq :: "DeliveryIdentity \<Rightarrow> DeliveryIdentity \<Rightarrow> bool" where
  "DeliveryIdentity_eq a b \<longleftrightarrow>
     dk_source_boot_id a = dk_source_boot_id b \<and>
     dk_transaction_id a = dk_transaction_id b \<and> dk_sequence a = dk_sequence b"

definition MAX_ID_SIZE :: nat where "MAX_ID_SIZE = 63"
definition MAC_SIZE :: nat where "MAC_SIZE = 6"
definition KEY_SIZE :: nat where "KEY_SIZE = 16"

record PeerIdentity =
  peer_id :: btext
  peer_address :: bytes
  peer_lmk :: bytes

definition PeerIdentity_init :: PeerIdentity where
  "PeerIdentity_init =
     \<lparr>peer_id = [], peer_address = replicate MAC_SIZE 0, peer_lmk = replicate KEY_SIZE 0\<rparr>"

definition PeerIdentity_wf :: "PeerIdentity \<Rightarrow> bool" where
  "PeerIdentity_wf p \<longleftrightarrow>
     text_ok MAX_ID_SIZE (peer_id p) \<and> length (peer_address p) = MAC_SIZE \<and>
     length (peer_lmk p) = KEY_SIZE"

text \<open>The source's field-wise comparison is equality of the records.\<close>

lemma DeliveryIdentity_eq_iff [simp]: "DeliveryIdentity_eq a b \<longleftrightarrow> a = b"
  by (auto simp: DeliveryIdentity_eq_def)

end
