(* ===== verification/Frame.thy ===== *)
theory Frame
  imports Byte_Order Protocol_Identity
begin

text \<open>
  \<open>frame.h\<close>: the 36-byte frame header, CRC-32, fragmentation of a message of at most 640
  bytes into at most three radio frames of at most 250 bytes, and the reassembler that
  collects the fragments of one message. The codec's only state, \<open>last_error_\<close>, is the
  left summand of its results.
\<close>

datatype EspNowFrameKind = COMMAND | RESULT | ACK

datatype EspNowFrameError =
    NONE | INVALID_ARGUMENT | MESSAGE_TOO_LARGE | INVALID_MAGIC | UNSUPPORTED_VERSION
  | INVALID_KIND | INVALID_FRAGMENT | CORRELATION_MISMATCH | CHECKSUM_MISMATCH

fun EspNowFrameKind_code :: "EspNowFrameKind \<Rightarrow> u8" where
  "EspNowFrameKind_code COMMAND = 1"
| "EspNowFrameKind_code RESULT = 2"
| "EspNowFrameKind_code ACK = 3"

text \<open>\<open>static_cast\<close> of a byte to the enum, used only on bytes that pass \<open>valid_kind_\<close>.\<close>

definition EspNowFrameKind_of :: "u8 \<Rightarrow> EspNowFrameKind" where
  "EspNowFrameKind_of b = (if b = 1 then COMMAND else if b = 2 then RESULT else ACK)"

definition valid_kind :: "u8 \<Rightarrow> bool" where
  "valid_kind kind \<longleftrightarrow> kind = 1 \<or> kind = 2 \<or> kind = 3"

record EspNowFrameEnvelope =
  env_kind :: EspNowFrameKind
  env_flags :: u8
  env_source_boot_id :: u64
  env_transaction_id :: TransactionId
  env_sequence :: u32

record EspNowReassembledMessage =
  rm_envelope :: EspNowFrameEnvelope
  rm_data :: bytes

definition EspNowFrameEnvelope_init :: EspNowFrameEnvelope where
  "EspNowFrameEnvelope_init =
     \<lparr>env_kind = COMMAND, env_flags = 0, env_source_boot_id = 0, env_transaction_id = 0,
      env_sequence = 0\<rparr>"

abbreviation (input) RADIO_FRAME_MAX_SIZE :: nat where "RADIO_FRAME_MAX_SIZE \<equiv> 250"
abbreviation (input) MAX_MESSAGE_SIZE :: nat where "MAX_MESSAGE_SIZE \<equiv> 640"
abbreviation (input) FRAME_MAGIC :: u16 where "FRAME_MAGIC \<equiv> 0x5458"
abbreviation (input) FRAME_VERSION :: u8 where "FRAME_VERSION \<equiv> 1"
abbreviation (input) FRAME_HEADER_SIZE :: nat where "FRAME_HEADER_SIZE \<equiv> 36"
abbreviation (input) MAX_FRAGMENT_DATA :: nat where "MAX_FRAGMENT_DATA \<equiv> 214"
abbreviation (input) MAX_FRAGMENTS :: u8 where "MAX_FRAGMENTS \<equiv> 3"
abbreviation (input) FLAG_ACK_REQUIRED :: u8 where "FLAG_ACK_REQUIRED \<equiv> 1"

subsection \<open>The codec\<close>

definition fragment_count :: "nat \<Rightarrow> u8" where
  "fragment_count message_size =
     (if message_size = 0 \<or> message_size > MAX_MESSAGE_SIZE then 0
      else of_nat ((message_size + MAX_FRAGMENT_DATA - 1) div MAX_FRAGMENT_DATA))"

text \<open>One round of the inner loop of \<open>crc32_\<close>; the mask is all ones or zero.\<close>

definition crc_bit :: "u32 \<Rightarrow> u32" where
  "crc_bit crc = drop_bit 1 crc XOR (0xEDB88320 AND (- (crc AND 1)))"

definition crc_byte :: "u8 \<Rightarrow> u32 \<Rightarrow> u32" where
  "crc_byte b crc = (crc_bit ^^ 8) (crc XOR ucast b)"

definition crc32 :: "bytes \<Rightarrow> u32" where
  "crc32 data = NOT (fold crc_byte data 0xFFFFFFFF)"

text \<open>Bytes of the message carried by a fragment: where they start and how many.\<close>

definition fragment_offset :: "u8 \<Rightarrow> nat" where
  "fragment_offset fragment_index = unat fragment_index * MAX_FRAGMENT_DATA"

definition fragment_bytes :: "nat \<Rightarrow> u8 \<Rightarrow> nat" where
  "fragment_bytes message_size fragment_index =
     (if message_size - fragment_offset fragment_index > MAX_FRAGMENT_DATA then MAX_FRAGMENT_DATA
      else message_size - fragment_offset fragment_index)"

definition encode_header ::
    "EspNowFrameEnvelope \<Rightarrow> bytes \<Rightarrow> nat \<Rightarrow> u8 \<Rightarrow> bytes" where
  "encode_header envelope message message_size fragment_index =
     put_u16 FRAME_MAGIC @
     [FRAME_VERSION, EspNowFrameKind_code (env_kind envelope), env_flags envelope,
      fragment_index, fragment_count message_size, 0] @
     put_u64 (env_source_boot_id envelope) @
     put_u64 (env_transaction_id envelope) @
     put_u32 (env_sequence envelope) @
     put_u16 (of_nat message_size) @
     put_u16 (of_nat (fragment_bytes message_size fragment_index)) @
     put_u32 (crc32 (take message_size message))"

definition encode_fragment ::
    "EspNowFrameEnvelope \<Rightarrow> span \<Rightarrow> nat \<Rightarrow> u8 \<Rightarrow> EspNowFrameError + bytes" where
  "encode_fragment envelope message message_size fragment_index =
     (let count = fragment_count message_size;
          argument_error = (if message_size > MAX_MESSAGE_SIZE then MESSAGE_TOO_LARGE
                            else INVALID_ARGUMENT)
      in case message of
        None \<Rightarrow> Inl argument_error
      | Some m \<Rightarrow>
          if env_source_boot_id envelope = 0 \<or> env_transaction_id envelope = 0 \<or>
             env_sequence envelope = 0 \<or> count = 0 then Inl argument_error
          else if \<not> valid_kind (EspNowFrameKind_code (env_kind envelope)) \<or>
                  fragment_index \<ge> count then Inl INVALID_FRAGMENT
          else
            (let offset = fragment_offset fragment_index;
                 fragment_size = fragment_bytes message_size fragment_index;
                 bytes = encode_header envelope m message_size fragment_index @
                         segment offset fragment_size m;
                 (assigned, data) =
                   bytes_assign RADIO_FRAME_MAX_SIZE (Some bytes) (FRAME_HEADER_SIZE + fragment_size)
             in if assigned then Inr data else Inl INVALID_FRAGMENT))"

subsection \<open>The reassembler\<close>

text \<open>The locals \<open>accept\<close> reads out of a frame header.\<close>

record FrameHeader =
  fh_envelope :: EspNowFrameEnvelope
  fh_index :: u8
  fh_count :: u8
  fh_message_size :: u16
  fh_fragment_size :: u16
  fh_checksum :: u32

record EspNowFrameReassembler =
  ra_envelope :: EspNowFrameEnvelope
  ra_message :: bytes
  ra_message_size :: u16
  ra_checksum :: u32
  ra_fragment_count :: u8
  ra_received_mask :: u8
  ra_last_error :: EspNowFrameError

definition reassembler_init :: EspNowFrameReassembler where
  "reassembler_init =
     \<lparr>ra_envelope = EspNowFrameEnvelope_init, ra_message = replicate MAX_MESSAGE_SIZE 0,
      ra_message_size = 0, ra_checksum = 0, ra_fragment_count = 0, ra_received_mask = 0,
      ra_last_error = NONE\<rparr>"

text \<open>The identifiers a frame must carry, tested by the encoder and by \<open>accept\<close>.\<close>

definition envelope_ok :: "EspNowFrameEnvelope \<Rightarrow> bool" where
  "envelope_ok env \<longleftrightarrow>
     env_source_boot_id env \<noteq> 0 \<and> env_transaction_id env \<noteq> 0 \<and> env_sequence env \<noteq> 0"

definition frame_header :: "bytes \<Rightarrow> FrameHeader" where
  "frame_header f =
     \<lparr>fh_envelope =
        \<lparr>env_kind = EspNowFrameKind_of (f ! 3), env_flags = f ! 4,
         env_source_boot_id = get_u64 (drop 8 f), env_transaction_id = get_u64 (drop 16 f),
         env_sequence = get_u32 (drop 24 f)\<rparr>,
      fh_index = f ! 5, fh_count = f ! 6, fh_message_size = get_u16 (drop 28 f),
      fh_fragment_size = get_u16 (drop 30 f), fh_checksum = get_u32 (drop 32 f)\<rparr>"

definition sizes_invalid :: "nat \<Rightarrow> FrameHeader \<Rightarrow> bool" where
  "sizes_invalid frame_size h \<longleftrightarrow>
     fh_message_size h = 0 \<or> unat (fh_message_size h) > MAX_MESSAGE_SIZE \<or> fh_count h = 0 \<or>
     fh_count h > MAX_FRAGMENTS \<or> fh_count h \<noteq> fragment_count (unat (fh_message_size h)) \<or>
     fh_index h \<ge> fh_count h \<or> unat (fh_fragment_size h) > MAX_FRAGMENT_DATA \<or>
     frame_size \<noteq> FRAME_HEADER_SIZE + unat (fh_fragment_size h)"

text \<open>First part of \<open>accept\<close>: the checks on the frame alone, in the source's order.\<close>

definition parse_frame :: "span \<Rightarrow> EspNowFrameError + FrameHeader" where
  "parse_frame frame =
     (case frame of None \<Rightarrow> Inl INVALID_FRAGMENT
      | Some f \<Rightarrow>
        if length f < FRAME_HEADER_SIZE \<or> length f > RADIO_FRAME_MAX_SIZE
        then Inl INVALID_FRAGMENT
        else if get_u16 f \<noteq> FRAME_MAGIC then Inl INVALID_MAGIC
        else if f ! 2 \<noteq> FRAME_VERSION then Inl UNSUPPORTED_VERSION
        else if \<not> valid_kind (f ! 3) then Inl INVALID_KIND
        else
          (let h = frame_header f in
           if sizes_invalid (length f) h then Inl INVALID_FRAGMENT
           else if unat (fh_fragment_size h) \<noteq> fragment_bytes (unat (fh_message_size h)) (fh_index h)
           then Inl INVALID_FRAGMENT
           else if \<not> envelope_ok (fh_envelope h) then Inl INVALID_FRAGMENT
           else Inr h))"

definition frame_matches :: "FrameHeader \<Rightarrow> EspNowFrameReassembler \<Rightarrow> bool" where
  "frame_matches h r \<longleftrightarrow>
     env_kind (fh_envelope h) = env_kind (ra_envelope r) \<and>
     env_flags (fh_envelope h) = env_flags (ra_envelope r) \<and>
     env_source_boot_id (fh_envelope h) = env_source_boot_id (ra_envelope r) \<and>
     env_transaction_id (fh_envelope h) = env_transaction_id (ra_envelope r) \<and>
     env_sequence (fh_envelope h) = env_sequence (ra_envelope r) \<and>
     fh_message_size h = ra_message_size r \<and> fh_count h = ra_fragment_count r \<and>
     fh_checksum h = ra_checksum r"

definition reassembler_fail :: "EspNowFrameError \<Rightarrow> EspNowFrameReassembler \<Rightarrow> bool \<times> EspNowFrameReassembler" where
  "reassembler_fail error r = (False, r\<lparr>ra_last_error := error\<rparr>)"

text \<open>Second part of \<open>accept\<close>: start or continue the assembly and copy the fragment.\<close>

definition reassembler_store :: "FrameHeader \<Rightarrow> bytes \<Rightarrow> EspNowFrameReassembler \<Rightarrow> EspNowFrameReassembler" where
  "reassembler_store h f r =
     r\<lparr>ra_message := write_at (ra_message r) (fragment_offset (fh_index h))
                       (segment FRAME_HEADER_SIZE (unat (fh_fragment_size h)) f),
       ra_received_mask := ra_received_mask r OR push_bit (unat (fh_index h)) 1,
       ra_last_error := NONE\<rparr>"

definition reassembler_accept :: "span \<Rightarrow> EspNowFrameReassembler \<Rightarrow> bool \<times> EspNowFrameReassembler" where
  "reassembler_accept frame r =
     (case parse_frame frame of
        Inl error \<Rightarrow> reassembler_fail error r
      | Inr h \<Rightarrow>
          if ra_received_mask r = 0 then
            (True, reassembler_store h (the frame)
               (r\<lparr>ra_envelope := fh_envelope h, ra_message_size := fh_message_size h,
                  ra_fragment_count := fh_count h, ra_checksum := fh_checksum h\<rparr>))
          else if \<not> frame_matches h r then reassembler_fail CORRELATION_MISMATCH r
          else (True, reassembler_store h (the frame) r))"

definition reassembler_complete :: "EspNowFrameReassembler \<Rightarrow> bool" where
  "reassembler_complete r =
     (if ra_fragment_count r = 0 then False
      else ra_received_mask r = ucast (push_bit (unat (ra_fragment_count r)) (1::u32) - 1))"

definition reassembler_reset :: "EspNowFrameReassembler \<Rightarrow> EspNowFrameReassembler" where
  "reassembler_reset r =
     r\<lparr>ra_envelope := EspNowFrameEnvelope_init, ra_message_size := 0, ra_checksum := 0,
       ra_fragment_count := 0, ra_received_mask := 0\<rparr>"

definition validate_complete :: "EspNowFrameReassembler \<Rightarrow> bool \<times> EspNowFrameReassembler" where
  "validate_complete r =
     (if \<not> reassembler_complete r then (False, r)
      else if crc32 (take (unat (ra_message_size r)) (ra_message r)) = ra_checksum r then (True, r)
      else (False, (reassembler_reset r)\<lparr>ra_last_error := CHECKSUM_MISMATCH\<rparr>))"

definition reassembler_take ::
    "EspNowFrameReassembler \<Rightarrow> EspNowReassembledMessage option \<times> EspNowFrameReassembler" where
  "reassembler_take r =
     (case validate_complete r of
        (False, r1) \<Rightarrow> (None, r1)
      | (True, r1) \<Rightarrow>
          (let (assigned, data) =
                 bytes_assign MAX_MESSAGE_SIZE (Some (ra_message r1)) (unat (ra_message_size r1));
               r2 = (reassembler_reset r1)\<lparr>ra_last_error := (if assigned then NONE else INVALID_FRAGMENT)\<rparr>
           in (if assigned then Some \<lparr>rm_envelope = ra_envelope r1, rm_data = data\<rparr> else None, r2)))"

definition complete_envelope :: "EspNowFrameReassembler \<Rightarrow> EspNowFrameEnvelope option" where
  "complete_envelope r = (if reassembler_complete r then Some (ra_envelope r) else None)"

definition complete_data :: "EspNowFrameReassembler \<Rightarrow> span" where
  "complete_data r = (if reassembler_complete r then Some (ra_message r) else None)"

definition complete_size :: "EspNowFrameReassembler \<Rightarrow> nat" where
  "complete_size r = (if reassembler_complete r then unat (ra_message_size r) else 0)"

definition release_complete :: "EspNowFrameReassembler \<Rightarrow> EspNowFrameReassembler" where
  "release_complete r = (if reassembler_complete r then reassembler_reset r else r)"

subsection \<open>Vocabulary of the proofs\<close>

definition frame_of :: "EspNowFrameEnvelope \<Rightarrow> bytes \<Rightarrow> u8 \<Rightarrow> bytes" where
  "frame_of env m i =
     encode_header env m (length m) i @
     segment (fragment_offset i) (fragment_bytes (length m) i) m"

text \<open>The assembly holds the fragments with index in \<open>S\<close> of the message \<open>m\<close>.\<close>

definition holds_fragments ::
    "EspNowFrameEnvelope \<Rightarrow> bytes \<Rightarrow> u8 set \<Rightarrow> EspNowFrameReassembler \<Rightarrow> bool" where
  "holds_fragments env m S r \<longleftrightarrow>
     length (ra_message r) = MAX_MESSAGE_SIZE \<and>
     (\<forall>k. bit (ra_received_mask r) k \<longleftrightarrow> (\<exists>i\<in>S. unat i = k)) \<and>
     (\<forall>i\<in>S. i < fragment_count (length m) \<and>
        segment (fragment_offset i) (fragment_bytes (length m) i) (ra_message r) =
        segment (fragment_offset i) (fragment_bytes (length m) i) m) \<and>
     (S \<noteq> {} \<longrightarrow>
        ra_envelope r = env \<and> ra_message_size r = of_nat (length m) \<and>
        ra_fragment_count r = fragment_count (length m) \<and> ra_checksum r = crc32 m)"

definition accept_all :: "bytes list \<Rightarrow> EspNowFrameReassembler \<Rightarrow> EspNowFrameReassembler" where
  "accept_all fs r = fold (\<lambda>f r. snd (reassembler_accept (Some f) r)) fs r"

text \<open>What every reachable reassembler satisfies: the buffer keeps its size, an empty mask
  means no header is recorded, and a recorded header describes a legal message whose
  received fragments are all below its fragment count.\<close>

definition reassembler_inv :: "EspNowFrameReassembler \<Rightarrow> bool" where
  "reassembler_inv r \<longleftrightarrow>
     length (ra_message r) = MAX_MESSAGE_SIZE \<and>
     (if ra_received_mask r = 0 then ra_fragment_count r = 0
      else 0 < unat (ra_message_size r) \<and> unat (ra_message_size r) \<le> MAX_MESSAGE_SIZE \<and>
           ra_fragment_count r = fragment_count (unat (ra_message_size r)) \<and>
           envelope_ok (ra_envelope r) \<and>
           (\<forall>k. bit (ra_received_mask r) k \<longrightarrow> k < unat (ra_fragment_count r)))"

text \<open>The operations a client can perform, as events of a machine.\<close>

datatype reassembler_event =
    EvAccept span | EvTake | EvValidate | EvRelease | EvReset

fun reassembler_step :: "reassembler_event \<Rightarrow> EspNowFrameReassembler \<Rightarrow> EspNowFrameReassembler" where
  "reassembler_step (EvAccept f) r = snd (reassembler_accept f r)"
| "reassembler_step EvTake r = snd (reassembler_take r)"
| "reassembler_step EvValidate r = snd (validate_complete r)"
| "reassembler_step EvRelease r = release_complete r"
| "reassembler_step EvReset r = reassembler_reset r"

subsection \<open>CRC-32\<close>

lemma bit_lsb_mask: "bit (- (c AND 1) :: u32) n \<longleftrightarrow> n < 32 \<and> bit c 0"
proof (cases "bit c 0")
  case True
  then have "c AND 1 = 1" by (simp add: and_one_eq bit_0 odd_iff_mod_2_eq_one)
  then show ?thesis using True by (simp add: bit_simps)
next
  case False
  then have "c AND 1 = 0" by (simp add: and_one_eq bit_0 even_iff_mod_2_eq_zero)
  then show ?thesis using False by simp
qed

lemma bit_crc_bit:
  "bit (crc_bit c) n \<longleftrightarrow> bit c (Suc n) \<noteq> (bit (0xEDB88320::u32) n \<and> bit c 0)"
  by (auto simp: crc_bit_def bit_xor_iff bit_and_iff bit_lsb_mask bit_drop_bit_eq dest: bit_imp_le_length)

lemma u32_no_high_bit [simp]: "\<not> bit (a::u32) 32"
  using bit_imp_le_length [of a 32] by auto

lemma crc_bit_inj: "crc_bit a = crc_bit b \<Longrightarrow> a = b"
proof (rule bit_word_eqI)
  assume eq: "crc_bit a = crc_bit b"
  have b0: "bit a 0 = bit b 0"
    using arg_cong [OF eq, of "\<lambda>c. bit c 31"] by (simp add: bit_crc_bit bit_simps)
  fix n assume "n < LENGTH(32)"
  show "bit a n = bit b n"
  proof (cases n)
    case (Suc m)
    then show ?thesis using arg_cong [OF eq, of "\<lambda>c. bit c m"] b0 by (auto simp: bit_crc_bit)
  qed (simp add: b0)
qed

lemma crc_bit_pow_inj: "(crc_bit ^^ k) a = (crc_bit ^^ k) b \<Longrightarrow> a = b"
  by (induction k arbitrary: a b) (auto dest: crc_bit_inj)

lemma xor_cancel_right: "(a::u32) XOR x = b XOR x \<Longrightarrow> a = b"
  by (auto simp: bit_eq_iff bit_xor_iff)

lemma crc_byte_inj_state: "crc_byte x a = crc_byte x b \<Longrightarrow> a = b"
  unfolding crc_byte_def by (drule crc_bit_pow_inj) (rule xor_cancel_right)

lemma is_up_u8_u32: "is_up (ucast :: u8 \<Rightarrow> u32)"
  by (simp add: is_up)

lemma crc_byte_inj_byte:
  assumes "crc_byte x c = crc_byte y c"
  shows "x = y"
proof -
  from assms have "c XOR ucast x = c XOR ucast y"
    unfolding crc_byte_def by (rule crc_bit_pow_inj)
  then have "(ucast x :: u32) XOR c = ucast y XOR c" by (simp add: xor.commute)
  then have "(ucast x :: u32) = ucast y" by (rule xor_cancel_right)
  then show "x = y" by (metis ucast_up_ucast_id is_up_u8_u32)
qed

lemma fold_crc_inj: "fold crc_byte data a = fold crc_byte data b \<Longrightarrow> a = b"
  by (induction data arbitrary: a b) (auto dest: crc_byte_inj_state)

lemma crc32_single_byte:
  assumes "crc32 (xs @ x # ys) = crc32 (xs @ y # ys)"
  shows "x = y"
proof -
  from assms have "fold crc_byte ys (crc_byte x (fold crc_byte xs 0xFFFFFFFF))
      = fold crc_byte ys (crc_byte y (fold crc_byte xs 0xFFFFFFFF))"
    by (simp add: crc32_def)
  then show ?thesis by (intro crc_byte_inj_byte) (rule fold_crc_inj)
qed

lemma crc_byte_unfold:
  "crc_byte b c = crc_bit (crc_bit (crc_bit (crc_bit
     (crc_bit (crc_bit (crc_bit (crc_bit (c XOR ucast b))))))))"
  by (simp add: crc_byte_def eval_nat_numeral)

lemmas crc_eval = crc32_def crc_byte_unfold crc_bit_def

lemma crc32_check_value:
  "crc32 [0x31, 0x32, 0x33, 0x34, 0x35, 0x36, 0x37, 0x38, 0x39] = 0xCBF43926"
  by (simp add: crc_eval)

lemma unat_fragment_count:
  "unat (fragment_count n) =
     (if n = 0 \<or> n > MAX_MESSAGE_SIZE then 0 else (n + MAX_FRAGMENT_DATA - 1) div MAX_FRAGMENT_DATA)"
  by (auto simp: fragment_count_def unat_of_nat)

lemma fragment_count_bounds:
  assumes "0 < n" and "n \<le> MAX_MESSAGE_SIZE"
  shows "1 \<le> unat (fragment_count n)" and "unat (fragment_count n) \<le> 3"
  using assms by (auto simp: unat_fragment_count)

lemma fragment_count_nonzero_iff: "fragment_count n \<noteq> 0 \<longleftrightarrow> 0 < n \<and> n \<le> MAX_MESSAGE_SIZE"
  using fragment_count_bounds [of n] unat_fragment_count [of n]
  by (auto simp: word_unat_eq_iff [of "fragment_count n"])

lemma fragment_offset_lt:
  assumes "i < fragment_count n"
  shows "fragment_offset i < n" and "n \<le> MAX_MESSAGE_SIZE" and "unat i < 3"
  using assms by (auto simp: fragment_offset_def word_less_nat_alt unat_fragment_count split: if_splits)

lemma fragment_bytes_eq:
  "i < fragment_count n \<Longrightarrow> fragment_bytes n i = min MAX_FRAGMENT_DATA (n - fragment_offset i)"
  by (simp add: fragment_bytes_def)

lemma fragment_bytes_bounds:
  assumes "i < fragment_count n"
  shows "0 < fragment_bytes n i" and "fragment_bytes n i \<le> MAX_FRAGMENT_DATA"
    and "fragment_offset i + fragment_bytes n i \<le> n"
  using fragment_offset_lt [OF assms] by (auto simp: fragment_bytes_def)

lemma length_encode_header [simp]: "length (encode_header env m n i) = FRAME_HEADER_SIZE"
  by (simp add: encode_header_def)

lemma EspNowFrameKind_of_code [simp]: "EspNowFrameKind_of (EspNowFrameKind_code k) = k"
  by (cases k) (auto simp: EspNowFrameKind_of_def)

lemma valid_kind_code [simp]: "valid_kind (EspNowFrameKind_code k)"
  by (cases k) (auto simp: valid_kind_def)

lemma encode_fragment_ok:
  assumes "envelope_ok env" and "i < fragment_count (length m)"
  shows "encode_fragment env (Some m) (length m) i =
    Inr (encode_header env m (length m) i @
         segment (fragment_offset i) (fragment_bytes (length m) i) m)"
proof -
  note b = fragment_bytes_bounds [OF assms(2)]
  have "fragment_count (length m) \<noteq> 0" using assms(2) by auto
  then show ?thesis
    using assms b
    by (simp add: encode_fragment_def envelope_ok_def Let_def not_le bytes_assign_exact)
qed

lemma parse_encoded:
  assumes "envelope_ok env" and "i < fragment_count (length m)"
  shows "parse_frame (Some (encode_header env m (length m) i @
           segment (fragment_offset i) (fragment_bytes (length m) i) m)) =
    Inr \<lparr>fh_envelope = env, fh_index = i, fh_count = fragment_count (length m),
         fh_message_size = of_nat (length m),
         fh_fragment_size = of_nat (fragment_bytes (length m) i), fh_checksum = crc32 m\<rparr>"
    (is "parse_frame (Some (?hd @ ?pl)) = _")
proof -
  note b = fragment_bytes_bounds [OF assms(2)] fragment_offset_lt [OF assms(2)]
  have count: "fragment_count (length m) \<noteq> 0" "fragment_count (length m) \<le> 3"
    using assms(2) b(5) unat_fragment_count [of "length m"]
    by (auto simp: word_le_nat_alt)
  have len: "length ?pl = fragment_bytes (length m) i" using b by simp
  have ms: "of_nat (length m) \<noteq> (0::u16)" using b by (auto simp: word_unat_eq_iff)
  show ?thesis
    using assms b count len ms
    by (simp add: parse_frame_def encode_header_def frame_header_def sizes_invalid_def nth_append
        Let_def envelope_ok_def not_le)
qed

subsection \<open>Collecting fragments\<close>

lemma holds_fragments_empty:
  "length (ra_message r) = MAX_MESSAGE_SIZE \<Longrightarrow> ra_received_mask r = 0 \<Longrightarrow> holds_fragments env m {} r"
  by (simp add: holds_fragments_def)

lemma mask_zero_iff:
  "holds_fragments env m S r \<Longrightarrow> ra_received_mask r = 0 \<longleftrightarrow> S = {}"
proof -
  assume held: "holds_fragments env m S r"
  have "(ra_received_mask r = 0) = (\<forall>k. \<not> bit (ra_received_mask r) k)"
    by (auto intro: bit_word_eqI)
  then show ?thesis using held by (auto simp: holds_fragments_def)
qed

lemma bit_one_shifted: "bit (2 ^ n :: u8) k \<longleftrightarrow> k = n \<and> k < 8"
  by (auto simp: bit_exp_iff)

lemma fragments_disjoint:
  assumes "i \<noteq> j"
  shows "fragment_offset i + MAX_FRAGMENT_DATA \<le> fragment_offset j \<or>
         fragment_offset j + MAX_FRAGMENT_DATA \<le> fragment_offset i"
proof -
  have "unat i \<noteq> unat j" using assms by (simp add: word_unat_eq_iff)
  then have "unat i + 1 \<le> unat j \<or> unat j + 1 \<le> unat i" by arith
  then show ?thesis by (auto simp: fragment_offset_def)
qed

lemma segment_write_other:
  assumes "off + length bs \<le> length buf" and "o' + n \<le> length buf"
    and "o' + n \<le> off \<or> off + length bs \<le> o'"
  shows "segment o' n (write_at buf off bs) = segment o' n buf"
  using assms by (intro nth_equalityI) (auto simp: nth_write_at)

lemma accept_fragment:
  assumes ok: "envelope_ok env" and i: "i < fragment_count (length m)"
    and held: "holds_fragments env m S r"
  shows "fst (reassembler_accept (Some (frame_of env m i)) r)"
    and "holds_fragments env m (insert i S) (snd (reassembler_accept (Some (frame_of env m i)) r))"
proof -
  note b = fragment_bytes_bounds [OF i] fragment_offset_lt [OF i]
  define n where "n = length m"
  define pl where "pl = segment (fragment_offset i) (fragment_bytes n i) m"
  have lenpl: "length pl = fragment_bytes n i" using b by (simp add: pl_def n_def)
  have seg: "segment 36 (fragment_bytes n i) (frame_of env m i) = pl"
    using lenpl by (simp add: frame_of_def segment_def pl_def n_def)
  have fs: "unat (of_nat (fragment_bytes n i) :: u16) = fragment_bytes n i"
    using b by (simp add: n_def)
  define base where "base = (if ra_received_mask r = 0 then
      r\<lparr>ra_envelope := env, ra_message_size := of_nat n, ra_fragment_count := fragment_count n,
        ra_checksum := crc32 m\<rparr> else r)"
  define r' where "r' = base\<lparr>ra_message := write_at (ra_message r) (fragment_offset i) pl,
      ra_received_mask := ra_received_mask r OR push_bit (unat i) 1, ra_last_error := NONE\<rparr>"
  have match: "ra_received_mask r \<noteq> 0 \<Longrightarrow>
      ra_envelope r = env \<and> ra_message_size r = of_nat n \<and> ra_fragment_count r = fragment_count n
      \<and> ra_checksum r = crc32 m"
    using held mask_zero_iff [OF held] by (simp add: holds_fragments_def n_def)
  have res: "reassembler_accept (Some (frame_of env m i)) r = (True, r')"
    using parse_encoded [OF ok i] match seg fs
    by (auto simp: reassembler_accept_def reassembler_store_def frame_of_def frame_matches_def
        r'_def base_def n_def)
  then show "fst (reassembler_accept (Some (frame_of env m i)) r)" by simp
  have len: "length (ra_message r) = 640" using held by (simp add: holds_fragments_def)
  have fits: "fragment_offset i + length pl \<le> length (ra_message r)" using b len lenpl by (simp add: n_def)
  have msg: "ra_message r' = write_at (ra_message r) (fragment_offset i) pl" by (simp add: r'_def)
  have hdr: "ra_envelope r' = env" "ra_message_size r' = of_nat n"
    "ra_fragment_count r' = fragment_count n" "ra_checksum r' = crc32 m"
    using match by (auto simp: r'_def base_def)
  have mask: "bit (ra_received_mask r') k \<longleftrightarrow> (\<exists>j\<in>insert i S. unat j = k)" for k
    using held b(6) by (simp add: r'_def holds_fragments_def bit_or_iff bit_one_shifted) auto
  have "segment (fragment_offset j) (fragment_bytes n j) (ra_message r') =
      segment (fragment_offset j) (fragment_bytes n j) m" if "j \<in> insert i S" for j
  proof (cases "j = i")
    case True
    then show ?thesis
      using segment_write_at [OF fits] lenpl by (simp add: msg pl_def)
  next
    case False
    then have jS: "j \<in> S" using that by simp
    then have jc: "j < fragment_count n" and old: "segment (fragment_offset j) (fragment_bytes n j) (ra_message r) =
        segment (fragment_offset j) (fragment_bytes n j) m"
      using held by (auto simp: holds_fragments_def n_def)
    note bj = fragment_bytes_bounds [OF jc] fragment_offset_lt [OF jc]
    have "segment (fragment_offset j) (fragment_bytes n j) (ra_message r') =
        segment (fragment_offset j) (fragment_bytes n j) (ra_message r)"
      unfolding msg using fits bj b fragments_disjoint [OF False] len lenpl
      by (intro segment_write_other) (auto simp: n_def)
    with old show ?thesis by simp
  qed
  moreover have "\<forall>j\<in>insert i S. j < fragment_count n"
    using held i by (auto simp: holds_fragments_def n_def)
  ultimately have "holds_fragments env m (insert i S) r'"
    using hdr mask fits len by (simp add: holds_fragments_def msg n_def)
  with res show "holds_fragments env m (insert i S) (snd (reassembler_accept (Some (frame_of env m i)) r))"
    by simp
qed

lemma expected_mask_bit:
  "n < 8 \<Longrightarrow> bit (ucast (push_bit n (1::u32) - 1) :: u8) k \<longleftrightarrow> k < n"
proof -
  assume "n < 8"
  have "push_bit n (1::u32) - 1 = mask n" by (simp add: mask_eq_exp_minus_1)
  then show ?thesis using \<open>n < 8\<close> by (auto simp: bit_simps)
qed

lemma complete_iff_all_fragments:
  assumes held: "holds_fragments env m S r" and "S \<noteq> {}"
  shows "reassembler_complete r \<longleftrightarrow> S = {i. i < fragment_count (length m)}"
proof -
  define c where "c = fragment_count (length m)"
  from held \<open>S \<noteq> {}\<close> have rc: "ra_fragment_count r = c" and sub: "S \<subseteq> {i. i < c}"
    and bits: "\<And>k. bit (ra_received_mask r) k \<longleftrightarrow> (\<exists>i\<in>S. unat i = k)"
    by (auto simp: holds_fragments_def c_def)
  have c0: "c \<noteq> 0" using sub \<open>S \<noteq> {}\<close> by auto
  then have cle: "unat c < 8"
    using fragment_count_bounds(2) [of "length m"] fragment_count_nonzero_iff [of "length m"]
    by (simp add: c_def)
  have "reassembler_complete r \<longleftrightarrow> (\<forall>k. (\<exists>i\<in>S. unat i = k) \<longleftrightarrow> k < unat c)"
    using c0 bits expected_mask_bit [OF cle]
    by (auto simp: reassembler_complete_def rc intro!: bit_word_eqI)
  also have "\<dots> \<longleftrightarrow> S = {i. i < c}"
  proof
    assume all: "\<forall>k. (\<exists>i\<in>S. unat i = k) \<longleftrightarrow> k < unat c"
    have "i \<in> S" if "i < c" for i
    proof -
      have "\<exists>j\<in>S. unat j = unat i" using all that by (simp add: word_less_nat_alt)
      then show ?thesis by (metis word_unat_eq_iff)
    qed
    with sub show "S = {i. i < c}" by auto
  next
    assume S: "S = {i. i < c}"
    show "\<forall>k. (\<exists>i\<in>S. unat i = k) \<longleftrightarrow> k < unat c"
    proof (intro allI iffI)
      fix k assume "k < unat c"
      then have "unat (of_nat k :: u8) = k" using cle by simp
      with \<open>k < unat c\<close> S show "\<exists>i\<in>S. unat i = k" by (auto simp: word_less_nat_alt intro!: bexI [of _ "of_nat k"])
    qed (auto simp: S word_less_nat_alt)
  qed
  finally show ?thesis by (simp add: c_def)
qed

lemma all_fragments_message:
  assumes held: "holds_fragments env m {i. i < fragment_count (length m)} r"
    and n: "0 < length m" "length m \<le> MAX_MESSAGE_SIZE"
  shows "take (length m) (ra_message r) = m"
proof (rule nth_equalityI)
  have len: "length (ra_message r) = 640" using held by (simp add: holds_fragments_def)
  then show "length (take (length m) (ra_message r)) = length m" using n by simp
  fix p assume "p < length (take (length m) (ra_message r))"
  then have p: "p < length m" by simp
  define i :: u8 where "i = of_nat (p div 214)"
  have ui: "unat i = p div 214" using p n by (simp add: i_def)
  have i: "i < fragment_count (length m)"
    using p n by (auto simp: word_less_nat_alt ui unat_fragment_count)
  have off: "fragment_offset i \<le> p" "p < fragment_offset i + fragment_bytes (length m) i"
    using p ui by (auto simp: fragment_offset_def fragment_bytes_def)
  note b = fragment_bytes_bounds [OF i]
  have "segment (fragment_offset i) (fragment_bytes (length m) i) (ra_message r) ! (p - fragment_offset i) =
      segment (fragment_offset i) (fragment_bytes (length m) i) m ! (p - fragment_offset i)"
    using held i by (simp add: holds_fragments_def)
  then show "take (length m) (ra_message r) ! p = m ! p"
    using off b p n len by simp
qed

lemma accept_all_fragments:
  assumes "envelope_ok env" and "holds_fragments env m S r"
    and "\<forall>i\<in>set is. i < fragment_count (length m)"
  shows "holds_fragments env m (S \<union> set is) (accept_all (map (frame_of env m) is) r)"
  using assms(2,3)
proof (induction "is" arbitrary: S r)
  case Nil
  then show ?case by (simp add: accept_all_def)
next
  case (Cons i "is")
  have "holds_fragments env m (insert i S) (snd (reassembler_accept (Some (frame_of env m i)) r))"
    using accept_fragment(2) [OF assms(1) _ Cons.prems(1)] Cons.prems(2) by simp
  from Cons.IH [OF this] Cons.prems(2) show ?case by (simp add: accept_all_def)
qed

lemma take_all_fragments:
  assumes held: "holds_fragments env m {i. i < fragment_count (length m)} r"
    and n: "0 < length m" "length m \<le> MAX_MESSAGE_SIZE"
  shows "validate_complete r = (True, r)"
    and "reassembler_take r = (Some \<lparr>rm_envelope = env, rm_data = m\<rparr>, (reassembler_reset r)\<lparr>ra_last_error := NONE\<rparr>)"
proof -
  have ne: "{i. i < fragment_count (length m)} \<noteq> {}"
    using fragment_count_nonzero_iff [of "length m"] n by (auto simp: word_gt_0 intro!: exI [of _ 0])
  then have hdr: "ra_envelope r = env" "ra_message_size r = of_nat (length m)" "ra_checksum r = crc32 m"
    using held by (auto simp: holds_fragments_def)
  have sz: "unat (ra_message_size r) = length m" using hdr n by simp
  have comp: "reassembler_complete r" using complete_iff_all_fragments [OF held ne] by simp
  show v: "validate_complete r = (True, r)"
    using comp hdr sz all_fragments_message [OF assms] by (simp add: validate_complete_def)
  show "reassembler_take r = (Some \<lparr>rm_envelope = env, rm_data = m\<rparr>, (reassembler_reset r)\<lparr>ra_last_error := NONE\<rparr>)"
    using n by (simp add: reassembler_take_def v sz hdr all_fragments_message [OF assms] bytes_assign_take)
qed

subsection \<open>Arbitrary input\<close>

lemma parse_frame_ok:
  assumes "parse_frame (Some f) = Inr h"
  shows "0 < unat (fh_message_size h)" and "unat (fh_message_size h) \<le> MAX_MESSAGE_SIZE"
    and "fh_count h = fragment_count (unat (fh_message_size h))" and "fh_index h < fh_count h"
    and "unat (fh_fragment_size h) = fragment_bytes (unat (fh_message_size h)) (fh_index h)"
    and "length f = FRAME_HEADER_SIZE + unat (fh_fragment_size h)"
    and "envelope_ok (fh_envelope h)"
proof -
  from assms have "h = frame_header f" and ok: "\<not> sizes_invalid (length f) h"
    "unat (fh_fragment_size h) = fragment_bytes (unat (fh_message_size h)) (fh_index h)"
    "envelope_ok (fh_envelope h)"
    by (auto simp: parse_frame_def Let_def split: if_splits)
  from ok show "0 < unat (fh_message_size h)" and "unat (fh_message_size h) \<le> MAX_MESSAGE_SIZE"
    and "fh_count h = fragment_count (unat (fh_message_size h))" and "fh_index h < fh_count h"
    and "unat (fh_fragment_size h) = fragment_bytes (unat (fh_message_size h)) (fh_index h)"
    and "length f = FRAME_HEADER_SIZE + unat (fh_fragment_size h)"
    and "envelope_ok (fh_envelope h)"
    by (simp_all add: sizes_invalid_def not_le not_less unat_gt_0)
qed

lemma parse_frame_None [simp]: "parse_frame None = Inl INVALID_FRAGMENT"
  by (simp add: parse_frame_def)

lemma reassembler_init_inv: "reassembler_inv reassembler_init"
  by (simp add: reassembler_inv_def reassembler_init_def)

lemma reassembler_reset_inv: "reassembler_inv r \<Longrightarrow> reassembler_inv (reassembler_reset r)"
  by (simp add: reassembler_inv_def reassembler_reset_def)

lemma reassembler_inv_last_error [simp]:
  "reassembler_inv (r\<lparr>ra_last_error := e\<rparr>) = reassembler_inv r"
  by (simp add: reassembler_inv_def)

lemma mask_or_nonzero: "(m::u8) OR 2 ^ n \<noteq> 0" if "n < 8"
proof
  assume "m OR 2 ^ n = 0"
  then have "\<not> bit (m OR 2 ^ n) n" by simp
  with that show False by (simp add: bit_or_iff bit_one_shifted)
qed

lemma reassembler_store_inv:
  assumes h: "parse_frame (Some f) = Inr h" and len: "length (ra_message r) = MAX_MESSAGE_SIZE"
    and size: "ra_message_size r = fh_message_size h" and count: "ra_fragment_count r = fh_count h"
    and env: "envelope_ok (ra_envelope r)"
    and bits: "\<And>k. bit (ra_received_mask r) k \<Longrightarrow> k < unat (ra_fragment_count r)"
  shows "reassembler_inv (reassembler_store h f r)"
proof -
  note p = parse_frame_ok [OF h]
  have i: "fh_index h < fragment_count (unat (fh_message_size h))" using p by simp
  note b = fragment_bytes_bounds [OF i] fragment_offset_lt [OF i]
  have "fragment_offset (fh_index h) + unat (fh_fragment_size h) \<le> 640" using b p by simp
  then have "length (ra_message (reassembler_store h f r)) = 640"
    using len p by (simp add: reassembler_store_def)
  moreover have "ra_received_mask (reassembler_store h f r) \<noteq> 0"
    using b mask_or_nonzero [of "unat (fh_index h)"] by (simp add: reassembler_store_def)
  moreover have "unat (fh_index h) < unat (fh_count h)" using p by (simp add: word_less_nat_alt)
  ultimately show ?thesis
    using p size count env bits
    by (auto simp: reassembler_inv_def reassembler_store_def bit_or_iff bit_one_shifted)
qed

lemma reassembler_accept_inv:
  assumes "reassembler_inv r"
  shows "reassembler_inv (snd (reassembler_accept frame r))"
proof (cases "parse_frame frame")
  case (Inl e)
  with assms show ?thesis by (simp add: reassembler_accept_def reassembler_fail_def)
next
  case (Inr h)
  then obtain f where f: "frame = Some f" by (cases frame) auto
  note h = Inr [unfolded f]
  from assms have len: "length (ra_message r) = 640" by (simp add: reassembler_inv_def)
  consider (start) "ra_received_mask r = 0" | (mismatch) "ra_received_mask r \<noteq> 0" "\<not> frame_matches h r"
    | (cont) "ra_received_mask r \<noteq> 0" "frame_matches h r" by auto
  then show ?thesis
  proof cases
    case start
    then show ?thesis
      using len parse_frame_ok(7) [OF h]
      by (auto simp: reassembler_accept_def h f intro!: reassembler_store_inv [OF h])
  next
    case mismatch
    with assms show ?thesis by (simp add: reassembler_accept_def reassembler_fail_def h f)
  next
    case cont
    then have "ra_message_size r = fh_message_size h" "ra_fragment_count r = fh_count h"
      by (auto simp: frame_matches_def)
    moreover have "envelope_ok (ra_envelope r)"
      "bit (ra_received_mask r) k \<Longrightarrow> k < unat (ra_fragment_count r)" for k
      using cont assms by (auto simp: reassembler_inv_def)
    ultimately have "reassembler_inv (reassembler_store h f r)"
      by (intro reassembler_store_inv [OF h len])
    with cont show ?thesis by (simp add: reassembler_accept_def h f)
  qed
qed

lemma validate_complete_inv: "reassembler_inv r \<Longrightarrow> reassembler_inv (snd (validate_complete r))"
  by (simp add: validate_complete_def reassembler_reset_inv)

lemma release_complete_inv: "reassembler_inv r \<Longrightarrow> reassembler_inv (release_complete r)"
  by (simp add: release_complete_def reassembler_reset_inv)

lemma reassembler_take_inv: "reassembler_inv r \<Longrightarrow> reassembler_inv (snd (reassembler_take r))"
  using validate_complete_inv [of r]
  by (auto simp: reassembler_take_def Let_def reassembler_reset_inv split: prod.splits bool.splits)

lemma complete_mask_nonzero: "reassembler_inv r \<Longrightarrow> reassembler_complete r \<Longrightarrow> ra_received_mask r \<noteq> 0"
  by (metis reassembler_inv_def reassembler_complete_def)

lemma complete_size_bounds:
  "reassembler_inv r \<Longrightarrow> reassembler_complete r \<Longrightarrow>
     0 < unat (ra_message_size r) \<and> unat (ra_message_size r) \<le> MAX_MESSAGE_SIZE \<and> envelope_ok (ra_envelope r)"
  by (metis reassembler_inv_def complete_mask_nonzero)

lemma accept_refused:
  assumes "reassembler_accept frame r = (False, r')"
  shows "\<exists>error. error \<noteq> NONE \<and> r' = r\<lparr>ra_last_error := error\<rparr>"
proof (cases "parse_frame frame")
  case (Inl e)
  then have "e \<noteq> NONE" by (auto simp: parse_frame_def Let_def split: option.splits if_splits)
  with Inl assms show ?thesis by (auto simp: reassembler_accept_def reassembler_fail_def)
next
  case (Inr h)
  with assms show ?thesis
    by (auto simp: reassembler_accept_def reassembler_fail_def split: if_splits)
qed

lemma accept_stored:
  assumes "reassembler_accept frame r = (True, r')"
  shows "ra_received_mask r' \<noteq> 0"
proof -
  obtain h where h: "parse_frame frame = Inr h"
    using assms by (cases "parse_frame frame") (auto simp: reassembler_accept_def reassembler_fail_def)
  then obtain f where f: "frame = Some f" by (cases frame) auto
  note p = parse_frame_ok [OF h [unfolded f]]
  then have i: "unat (fh_index h) < 8"
    using fragment_offset_lt(3) [of "fh_index h" "unat (fh_message_size h)"] by simp
  show ?thesis
    using mask_or_nonzero [OF i] i assms h by (auto simp: reassembler_accept_def reassembler_store_def reassembler_fail_def split: if_splits)
qed

interpretation reassembler_machine: invariant_machine reassembler_init reassembler_step reassembler_inv
proof
  show "reassembler_inv reassembler_init" by (rule reassembler_init_inv)
  show "reassembler_inv (reassembler_step e r)" if "reassembler_inv r" for e r
    using that by (cases e)
      (auto intro: reassembler_accept_inv reassembler_take_inv validate_complete_inv
        release_complete_inv reassembler_reset_inv)
qed

lemma one_fragment:
  assumes "0 < n" and "n \<le> MAX_FRAGMENT_DATA"
  shows "{i. i < fragment_count n} = {0}"
proof -
  have "(213 + n) div 214 = 1" using assms by (intro div_nat_eqI) auto
  then have "fragment_count n = 1" using assms by (simp add: fragment_count_def add.commute)
  moreover have "i < 1 \<longleftrightarrow> i = 0" for i :: u8 by (auto simp: word_less_nat_alt word_unat_eq_iff)
  ultimately show ?thesis by auto
qed

subsection \<open>Properties\<close>

text \<open>C9: fragmentation and reassembly are inverse, whatever the radio does to the order:
  every fragment of a message of 1 to 640 bytes is encoded, and feeding the frames to an
  empty reassembler in any order, with any repetitions, makes \<open>take\<close> return exactly the
  envelope and the bytes that were sent.\<close>

theorem fragments_reassemble:
  assumes "envelope_ok env" and "0 < length m" and "length m \<le> MAX_MESSAGE_SIZE"
    and all: "set is = {i. i < fragment_count (length m)}"
    and fresh: "length (ra_message r) = MAX_MESSAGE_SIZE" "ra_received_mask r = 0"
  shows "\<exists>fs. list_all2 (\<lambda>i f. encode_fragment env (Some m) (length m) i = Inr f) is fs \<and>
    fst (reassembler_take (accept_all fs r)) = Some \<lparr>rm_envelope = env, rm_data = m\<rparr>"
proof (intro exI conjI)
  show "list_all2 (\<lambda>i f. encode_fragment env (Some m) (length m) i = Inr f) is (map (frame_of env m) is)"
    using all assms(1) encode_fragment_ok
    by (auto simp: list_all2_conv_all_nth frame_of_def set_eq_iff in_set_conv_nth)
  have "holds_fragments env m (set is) (accept_all (map (frame_of env m) is) r)"
    using accept_all_fragments [OF assms(1) holds_fragments_empty [OF fresh], of "is" m] all by simp
  then show "fst (reassembler_take (accept_all (map (frame_of env m) is) r)) =
      Some \<lparr>rm_envelope = env, rm_data = m\<rparr>"
    using take_all_fragments(2) assms(2,3) by (simp add: all)
qed

lemma two_fragments: "{i. i < fragment_count 300} = {0, 1}"
proof -
  have "fragment_count 300 = 2" by (simp add: fragment_count_def)
  moreover have "i < 2 \<longleftrightarrow> i = 0 \<or> i = 1" for i :: u8
    by (auto simp: word_less_nat_alt word_unat_eq_iff)
  ultimately show ?thesis by auto
qed

lemma fragments_reassemble_witness:
  "\<exists>fs. list_all2 (\<lambda>i f. encode_fragment
        \<lparr>env_kind = RESULT, env_flags = 1, env_source_boot_id = 7, env_transaction_id = 9, env_sequence = 4\<rparr>
        (Some (replicate 300 165)) 300 i = Inr f) [1, 0, 1] fs \<and>
     fst (reassembler_take (accept_all fs reassembler_init)) =
       Some \<lparr>rm_envelope = \<lparr>env_kind = RESULT, env_flags = 1, env_source_boot_id = 7,
               env_transaction_id = 9, env_sequence = 4\<rparr>, rm_data = replicate 300 165\<rparr>"
  using fragments_reassemble
    [of "\<lparr>env_kind = RESULT, env_flags = 1, env_source_boot_id = 7, env_transaction_id = 9, env_sequence = 4\<rparr>"
        "replicate 300 165" "[1, 0, 1]" reassembler_init]
  by (simp add: envelope_ok_def reassembler_init_def two_fragments insert_commute)

text \<open>C36: whatever frames arrive and whatever its client calls, in any order, the reassembler
  stays inside its 640-byte buffer, never records a header that is not legal, and marks
  only fragments below the recorded fragment count.\<close>

theorem reassembler_always_safe:
  "reassembler_inv (run_events reassembler_step events reassembler_init)"
  by (rule reassembler_machine.inv_run)

text \<open>A frame that \<open>accept\<close> refuses changes nothing of the assembly in progress: only
  \<open>last_error_\<close> is written, with the reason.\<close>

theorem refused_frame_keeps_assembly:
  assumes "\<not> fst (reassembler_accept frame r)"
  shows "\<exists>error. error \<noteq> NONE \<and> snd (reassembler_accept frame r) = r\<lparr>ra_last_error := error\<rparr>"
  using accept_refused [of frame r] assms by (cases "reassembler_accept frame r") auto

lemma refused_frame_keeps_assembly_witness:
  "\<exists>error. error \<noteq> NONE \<and>
     snd (reassembler_accept (Some [1, 2, 3]) reassembler_init) = reassembler_init\<lparr>ra_last_error := error\<rparr>"
proof (rule refused_frame_keeps_assembly)
  show "\<not> fst (reassembler_accept (Some [1, 2, 3]) reassembler_init)"
    by (simp add: reassembler_accept_def parse_frame_def reassembler_fail_def)
qed

text \<open>C31: the checksum detects every corruption confined to one byte, at any position of a
  message of any length: a complete assembly whose bytes differ from the message the
  checksum was computed for in a single byte is discarded with \<open>CHECKSUM_MISMATCH\<close>.\<close>

theorem single_byte_corruption_rejected:
  assumes "reassembler_complete r" and "ra_checksum r = crc32 (xs @ x # ys)"
    and "take (unat (ra_message_size r)) (ra_message r) = xs @ y # ys" and "x \<noteq> y"
  shows "fst (reassembler_take r) = None \<and>
    ra_last_error (snd (reassembler_take r)) = CHECKSUM_MISMATCH \<and>
    ra_received_mask (snd (reassembler_take r)) = 0"
proof -
  have "crc32 (xs @ y # ys) \<noteq> crc32 (xs @ x # ys)"
    using crc32_single_byte assms(4) by metis
  then have "validate_complete r = (False, (reassembler_reset r)\<lparr>ra_last_error := CHECKSUM_MISMATCH\<rparr>)"
    using assms(1-3) by (simp add: validate_complete_def)
  then show ?thesis
    by (simp add: reassembler_take_def reassembler_reset_def)
qed

lemma single_byte_corruption_rejected_witness:
  "fst (reassembler_take
     (reassembler_init\<lparr>ra_message := 1 # 66 # replicate 638 0, ra_message_size := 2,
        ra_checksum := crc32 [1, 2], ra_fragment_count := 1, ra_received_mask := 1\<rparr>)) = None"
  by (rule single_byte_corruption_rejected
        [where xs = "[1]" and x = 2 and ys = "[]" and y = 66, THEN conjunct1])
    (simp_all add: reassembler_complete_def)

end
