(* ===== verification/Radio_Queue.thy ===== *)
theory Radio_Queue
  imports Frame
begin

text \<open>
  \<open>radio_queue.h\<close>: the single-producer single-consumer ring between the radio driver's
  callbacks and the main loop, and the two record types it carries. The ring is modelled
  once as a sequential object (each call atomic), with the interface \<open>fifo_queue\<close>, and
  once as the interleaving of the producer's and the consumer's individual loads and
  stores, where a step relation shows that every interleaving is a FIFO.

  The counters are free-running 32-bit words and slots are selected with
  \<open>% Capacity\<close>; the two agree across the wrap of the counters only when the capacity
  divides \<open>2 ^ 32\<close>. The completion queue has capacity 4, the receive queue capacity 3.
\<close>

record 'a EspNowSpscQueue =
  q_entries :: "'a list"
  q_head :: u32
  q_tail :: u32

record EspNowReceivedFrame =
  rf_peer_index :: u8
  rf_frame :: bytes
  rf_rssi :: "8 word"
  rf_channel :: u8

record EspNowSendCompletion =
  sc_peer_index :: u8
  sc_succeeded :: bool

abbreviation (input) RX_QUEUE_CAPACITY :: nat where "RX_QUEUE_CAPACITY \<equiv> 3"
abbreviation (input) SEND_COMPLETION_QUEUE_CAPACITY :: nat where "SEND_COMPLETION_QUEUE_CAPACITY \<equiv> 4"

definition queue_init :: "nat \<Rightarrow> 'a \<Rightarrow> 'a EspNowSpscQueue" where
  "queue_init cap d = \<lparr>q_entries = replicate cap d, q_head = 0, q_tail = 0\<rparr>"

definition queue_push :: "nat \<Rightarrow> 'a \<Rightarrow> 'a EspNowSpscQueue \<Rightarrow> bool \<times> 'a EspNowSpscQueue" where
  "queue_push cap v q =
     (if unat (q_head q - q_tail q) \<ge> cap then (False, q)
      else (True, q\<lparr>q_entries := (q_entries q)[unat (q_head q) mod cap := v],
                    q_head := q_head q + 1\<rparr>))"

definition queue_pop :: "nat \<Rightarrow> 'a EspNowSpscQueue \<Rightarrow> 'a option \<times> 'a EspNowSpscQueue" where
  "queue_pop cap q =
     (if q_tail q = q_head q then (None, q)
      else (Some (q_entries q ! (unat (q_tail q) mod cap)), q\<lparr>q_tail := q_tail q + 1\<rparr>))"

definition queue_size :: "'a EspNowSpscQueue \<Rightarrow> nat" where
  "queue_size q = unat (q_head q - q_tail q)"

text \<open>The queued values, oldest first.\<close>

definition queue_contents :: "nat \<Rightarrow> 'a EspNowSpscQueue \<Rightarrow> 'a list" where
  "queue_contents cap q =
     map (\<lambda>k. q_entries q ! (unat (q_tail q + of_nat k) mod cap)) [0..<queue_size q]"

definition queue_inv :: "nat \<Rightarrow> 'a EspNowSpscQueue \<Rightarrow> bool" where
  "queue_inv cap q \<longleftrightarrow>
     0 < cap \<and> cap < 2 ^ 32 \<and> length (q_entries q) = cap \<and> queue_size q \<le> cap \<and>
     (cap dvd 2 ^ 32 \<or> unat (q_tail q) \<le> unat (q_head q))"

text \<open>A push is within the contract while the head counter is not about to wrap, or always
  when the capacity divides the range of the counter.\<close>

definition queue_can_grow :: "nat \<Rightarrow> 'a EspNowSpscQueue \<Rightarrow> bool" where
  "queue_can_grow cap q \<longleftrightarrow> cap dvd 2 ^ 32 \<or> q_head q \<noteq> - 1"

subsection \<open>The interface\<close>

locale fifo_queue =
  fixes cap :: nat
    and push :: "'a \<Rightarrow> 'q \<Rightarrow> bool \<times> 'q"
    and pop :: "'q \<Rightarrow> 'a option \<times> 'q"
    and contents :: "'q \<Rightarrow> 'a list"
    and can_grow :: "'q \<Rightarrow> bool"
    and qinv :: "'q \<Rightarrow> bool"
  assumes push_room:
      "\<lbrakk>qinv q; can_grow q; length (contents q) < cap\<rbrakk> \<Longrightarrow>
         fst (push v q) \<and> contents (snd (push v q)) = contents q @ [v] \<and> qinv (snd (push v q))"
    and push_full:
      "\<lbrakk>qinv q; \<not> length (contents q) < cap\<rbrakk> \<Longrightarrow> push v q = (False, q)"
    and pop_empty: "\<lbrakk>qinv q; contents q = []\<rbrakk> \<Longrightarrow> pop q = (None, q)"
    and pop_some:
      "\<lbrakk>qinv q; contents q = x # xs\<rbrakk> \<Longrightarrow>
         fst (pop q) = Some x \<and> contents (snd (pop q)) = xs \<and> qinv (snd (pop q))"
    and bounded: "qinv q \<Longrightarrow> length (contents q) \<le> cap"
begin

lemma pop_eq:
  "qinv q \<Longrightarrow> fst (pop q) = (case contents q of [] \<Rightarrow> None | x # _ \<Rightarrow> Some x) \<and>
     contents (snd (pop q)) = tl (contents q) \<and> qinv (snd (pop q))"
  using pop_empty [of q] pop_some [of q] by (cases "contents q") auto

text \<open>The drain loops of the client, \<open>while (queue.pop(x)) {}\<close>, with one call more than
  there are entries, empty the queue.\<close>

primrec drain :: "nat \<Rightarrow> 'q \<Rightarrow> 'q" where
  "drain 0 q = q"
| "drain (Suc n) q = (case pop q of (None, q') \<Rightarrow> q' | (Some _, q') \<Rightarrow> drain n q')"

lemma drain_empties:
  "qinv q \<Longrightarrow> length (contents q) \<le> n \<Longrightarrow> qinv (drain n q) \<and> contents (drain n q) = []"
proof (induction n arbitrary: q)
  case (Suc n)
  then show ?case
    using pop_eq [OF Suc.prems(1)] by (cases "contents q") (auto split: prod.splits option.splits)
qed simp

end

subsection \<open>The ring implements the interface\<close>

lemma slot_index:
  assumes "queue_inv cap q" and "k \<le> queue_size q"
  shows "unat (q_tail q + of_nat k) mod cap = (unat (q_tail q) + k) mod cap"
proof -
  have k: "k < 2 ^ 32" using assms by (simp add: queue_inv_def)
  have sum: "unat (q_tail q + of_nat k) = (unat (q_tail q) + k) mod 2 ^ 32"
    using k by (simp add: unat_word_ariths unat_of_nat)
  show ?thesis
  proof (cases "cap dvd 2 ^ 32")
    case True
    then show ?thesis unfolding sum by (rule mod_mod_cancel)
  next
    case False
    then have "unat (q_tail q) \<le> unat (q_head q)" using assms(1) by (simp add: queue_inv_def)
    then have "queue_size q = unat (q_head q) - unat (q_tail q)"
      by (simp add: queue_size_def unat_sub word_le_nat_alt)
    moreover have "unat (q_head q) < 2 ^ 32" using unsigned_less [of "q_head q", where 'a = nat] by simp
    ultimately show ?thesis
      using assms(2) \<open>unat (q_tail q) \<le> unat (q_head q)\<close> unfolding sum by simp
  qed
qed

lemma mod_window_inj:
  "0 < (cap::nat) \<Longrightarrow> j < k \<Longrightarrow> k < j + cap \<Longrightarrow> (t + j) mod cap \<noteq> (t + k) mod cap"
proof
  assume "0 < cap" "j < k" "k < j + cap" and eq: "(t + j) mod cap = (t + k) mod cap"
  then have "cap dvd (t + k) - (t + j)" by (metis mod_eq_dvd_iff_nat add_le_cancel_left less_imp_le)
  then have "cap dvd k - j" by simp
  then have "cap \<le> k - j" using \<open>j < k\<close> by (intro dvd_imp_le) auto
  with \<open>k < j + cap\<close> \<open>j < k\<close> show False by simp
qed

lemma length_queue_contents [simp]: "length (queue_contents cap q) = queue_size q"
  by (simp add: queue_contents_def)

lemma head_eq_tail_plus: "q_head q = q_tail q + of_nat (queue_size q)"
  by (simp add: queue_size_def)

lemma queue_size_push:
  assumes "queue_size q < cap" and "cap < 2 ^ 32"
  shows "queue_size (q\<lparr>q_entries := es, q_head := q_head q + 1\<rparr>) = Suc (queue_size q)"
proof -
  have "q_head q + 1 - q_tail q = of_nat (Suc (queue_size q))"
    using head_eq_tail_plus [of q] by simp
  with assms show ?thesis by (simp add: queue_size_def unat_of_nat del: of_nat_Suc)
qed

lemma queue_push_contents:
  fixes v :: 'a
  assumes inv: "queue_inv cap q" and room: "queue_size q < cap"
  defines "q' \<equiv> q\<lparr>q_entries := (q_entries q)[unat (q_head q) mod cap := v], q_head := q_head q + 1\<rparr>"
  shows "queue_contents cap q' = queue_contents cap q @ [v]"
proof -
  from inv have cap: "0 < cap" "cap < 2 ^ 32" and len: "length (q_entries q) = cap"
    by (auto simp: queue_inv_def)
  have size: "queue_size q' = Suc (queue_size q)"
    unfolding q'_def by (rule queue_size_push [OF room cap(2)])
  have slot: "unat (q_head q) mod cap = (unat (q_tail q) + queue_size q) mod cap"
    using slot_index [OF inv order_refl] head_eq_tail_plus [of q] by simp
  have old: "(q_entries q)[unat (q_head q) mod cap := v] ! (unat (q_tail q + of_nat k) mod cap)
      = q_entries q ! (unat (q_tail q + of_nat k) mod cap)" if "k < queue_size q" for k
  proof -
    have "unat (q_tail q + of_nat k) mod cap \<noteq> unat (q_head q) mod cap"
      using mod_window_inj [of cap k "queue_size q" "unat (q_tail q)"] that room cap
        slot_index [OF inv, of k] slot by simp
    then show ?thesis by simp
  qed
  have new: "(q_entries q)[unat (q_head q) mod cap := v] ! (unat (q_tail q + of_nat (queue_size q)) mod cap) = v"
    using cap len head_eq_tail_plus [of q] by simp
  show ?thesis
    using old new by (simp add: queue_contents_def size) (simp add: q'_def)
qed

lemma queue_inv_push:
  assumes "queue_inv cap q" and "queue_can_grow cap q" and "queue_size q < cap"
  shows "queue_inv cap (snd (queue_push cap v q))"
proof -
  have "unat (q_tail q) \<le> unat (q_head q + 1)"
    if "q_head q \<noteq> - 1" and "unat (q_tail q) \<le> unat (q_head q)"
    using that by (simp add: unat_plus_one)
  moreover have "queue_push cap v q =
      (True, q\<lparr>q_entries := (q_entries q)[unat (q_head q) mod cap := v], q_head := q_head q + 1\<rparr>)"
    using assms(3) by (simp add: queue_push_def queue_size_def)
  ultimately show ?thesis
    using assms queue_size_push [OF assms(3)]
    by (auto simp: queue_inv_def queue_can_grow_def)
qed

lemma queue_nonempty: "queue_contents cap q = x # xs \<Longrightarrow> q_tail q \<noteq> q_head q \<and> 0 < queue_size q"
  by (metis length_queue_contents length_Cons zero_less_Suc queue_size_def diff_self unat_0 less_irrefl)

lemma queue_size_pop:
  assumes "0 < queue_size q"
  shows "queue_size (q\<lparr>q_tail := q_tail q + 1\<rparr>) = queue_size q - 1"
proof -
  have "q_head q - (q_tail q + 1) = of_nat (queue_size q - 1)"
    using assms head_eq_tail_plus [of q] by simp
  moreover have "queue_size q - 1 < 2 ^ 32"
    using unsigned_less [of "q_head q - q_tail q", where 'a = nat] by (simp add: queue_size_def)
  ultimately show ?thesis by (simp add: queue_size_def unat_of_nat)
qed

lemma queue_pop_contents:
  assumes inv: "queue_inv cap q" and c: "queue_contents cap q = x # xs"
  shows "fst (queue_pop cap q) = Some x"
    and "queue_contents cap (snd (queue_pop cap q)) = xs"
    and "queue_inv cap (snd (queue_pop cap q))"
proof -
  note ne = queue_nonempty [OF c]
  have pop: "queue_pop cap q =
      (Some (q_entries q ! (unat (q_tail q) mod cap)), q\<lparr>q_tail := q_tail q + 1\<rparr>)"
    using ne by (simp add: queue_pop_def)
  have "[0..<queue_size q] = 0 # map Suc [0..<queue_size q - 1]"
    using ne by (simp add: upt_conv_Cons map_Suc_upt)
  with c have "x = q_entries q ! (unat (q_tail q) mod cap)"
    and xs: "xs = map (\<lambda>k. q_entries q ! (unat (q_tail q + of_nat (Suc k)) mod cap)) [0..<queue_size q - 1]"
    by (auto simp: queue_contents_def)
  then show "fst (queue_pop cap q) = Some x" by (simp add: pop)
  show "queue_contents cap (snd (queue_pop cap q)) = xs"
    using ne by (simp add: pop queue_contents_def queue_size_pop xs add.assoc)
  have "unat (q_tail q + 1) \<le> unat (q_head q)" if "unat (q_tail q) \<le> unat (q_head q)"
    using that ne word_unat_eq_iff [of "q_tail q" "q_head q"] unat_plus_one [of "q_tail q"]
    by (cases "q_tail q = - 1") auto
  then show "queue_inv cap (snd (queue_pop cap q))"
    using inv ne by (auto simp: pop queue_inv_def queue_size_pop)
qed

interpretation spsc_queue: fifo_queue cap "queue_push cap" "queue_pop cap" "queue_contents cap"
    "queue_can_grow cap" "queue_inv cap"
  for cap
proof (unfold_locales, goal_cases)
  case (1 q v)
  then show ?case
    using queue_push_contents [OF 1(1)] queue_inv_push [OF 1(1,2)]
    by (simp add: queue_push_def queue_size_def)
next
  case (2 q v)
  then show ?case by (simp add: queue_push_def queue_size_def)
next
  case (3 q)
  then have "queue_size q = 0" by (metis length_queue_contents list.size(3))
  then show ?case by (simp add: queue_pop_def queue_size_def unat_eq_0)
next
  case (4 q x xs)
  then show ?case using queue_pop_contents [OF 4] by simp
next
  case (5 q)
  then show ?case by (simp add: queue_inv_def)
qed

end
