(* ===== verification/Queue_Interleaving.thy ===== *)
theory Queue_Interleaving
  imports Radio_Queue
begin

text \<open>
  The ring of \<open>radio_queue.h\<close> as it really runs: \<open>push\<close> in the radio driver's task and
  \<open>pop\<close> in the main loop, interleaved at every load and store of the shared counters and
  of the entry array. Each rule of \<open>spsc_step\<close> is one such access (the acquire and
  release orderings of the source make these accesses appear in program order to the
  other side). Ghost lists record the values published and the values returned.
\<close>

datatype 'a producer =
    ProducerIdle
  | ProducerLoaded 'a u32 u32
  | ProducerStored 'a u32

datatype 'a consumer =
    ConsumerIdle
  | ConsumerLoaded u32 u32
  | ConsumerRead 'a u32

record 'a spsc_state =
  sp_queue :: "'a EspNowSpscQueue"
  sp_producer :: "'a producer"
  sp_consumer :: "'a consumer"
  sp_pushed :: "'a list"
  sp_popped :: "'a list"

definition spsc_init :: "nat \<Rightarrow> 'a \<Rightarrow> 'a spsc_state" where
  "spsc_init cap d =
     \<lparr>sp_queue = queue_init cap d, sp_producer = ProducerIdle, sp_consumer = ConsumerIdle,
      sp_pushed = [], sp_popped = []\<rparr>"

inductive spsc_step :: "nat \<Rightarrow> 'a spsc_state \<Rightarrow> 'a spsc_state \<Rightarrow> bool" for cap where
  push_load: "sp_producer s = ProducerIdle \<Longrightarrow>
    spsc_step cap s
      (s\<lparr>sp_producer := ProducerLoaded v (q_head (sp_queue s)) (q_tail (sp_queue s))\<rparr>)"
| push_full: "\<lbrakk>sp_producer s = ProducerLoaded v h t; unat (h - t) \<ge> cap\<rbrakk> \<Longrightarrow>
    spsc_step cap s (s\<lparr>sp_producer := ProducerIdle\<rparr>)"
| push_store: "\<lbrakk>sp_producer s = ProducerLoaded v h t; \<not> unat (h - t) \<ge> cap\<rbrakk> \<Longrightarrow>
    spsc_step cap s
      (s\<lparr>sp_queue := (sp_queue s)\<lparr>q_entries := (q_entries (sp_queue s))[unat h mod cap := v]\<rparr>,
         sp_producer := ProducerStored v h\<rparr>)"
| push_publish: "sp_producer s = ProducerStored v h \<Longrightarrow>
    spsc_step cap s
      (s\<lparr>sp_queue := (sp_queue s)\<lparr>q_head := h + 1\<rparr>, sp_producer := ProducerIdle,
         sp_pushed := sp_pushed s @ [v]\<rparr>)"
| pop_load: "sp_consumer s = ConsumerIdle \<Longrightarrow>
    spsc_step cap s
      (s\<lparr>sp_consumer := ConsumerLoaded (q_tail (sp_queue s)) (q_head (sp_queue s))\<rparr>)"
| pop_none: "\<lbrakk>sp_consumer s = ConsumerLoaded t h; t = h\<rbrakk> \<Longrightarrow>
    spsc_step cap s (s\<lparr>sp_consumer := ConsumerIdle\<rparr>)"
| pop_read: "\<lbrakk>sp_consumer s = ConsumerLoaded t h; t \<noteq> h\<rbrakk> \<Longrightarrow>
    spsc_step cap s
      (s\<lparr>sp_consumer := ConsumerRead (q_entries (sp_queue s) ! (unat t mod cap)) t\<rparr>)"
| pop_publish: "sp_consumer s = ConsumerRead v t \<Longrightarrow>
    spsc_step cap s
      (s\<lparr>sp_queue := (sp_queue s)\<lparr>q_tail := t + 1\<rparr>, sp_consumer := ConsumerIdle,
         sp_popped := sp_popped s @ [v]\<rparr>)"

inductive spsc_reachable :: "nat \<Rightarrow> 'a \<Rightarrow> 'a spsc_state \<Rightarrow> bool" for cap d where
  reach_init: "spsc_reachable cap d (spsc_init cap d)"
| reach_step: "spsc_reachable cap d s \<Longrightarrow> spsc_step cap s s' \<Longrightarrow> spsc_reachable cap d s'"

text \<open>Within these many pushes slot numbers do not jump when the counters wrap.\<close>

definition index_safe :: "nat \<Rightarrow> nat \<Rightarrow> bool" where
  "index_safe cap n \<longleftrightarrow> cap dvd 2 ^ 32 \<or> n < 2 ^ 32"

text \<open>The counters of the ring are the lengths of the ghost lists modulo \<open>2 ^ 32\<close>, the slots
  between them hold the values in flight, and the local snapshots of the two sides are
  values the counters had since.\<close>

definition spsc_inv :: "nat \<Rightarrow> 'a spsc_state \<Rightarrow> bool" where
  "spsc_inv cap s \<longleftrightarrow>
     (let q = sp_queue s; H = length (sp_pushed s); T = length (sp_popped s) in
      length (q_entries q) = cap \<and> q_head q = of_nat H \<and> q_tail q = of_nat T \<and>
      T \<le> H \<and> H \<le> T + cap \<and> sp_popped s = take T (sp_pushed s) \<and>
      (\<forall>k. T \<le> k \<longrightarrow> k < H \<longrightarrow> q_entries q ! (k mod cap) = sp_pushed s ! k) \<and>
      (case sp_producer s of
         ProducerIdle \<Rightarrow> True
       | ProducerLoaded v h t \<Rightarrow>
           h = of_nat H \<and> (\<exists>T'. t = of_nat T' \<and> T' \<le> T \<and> H \<le> T' + cap)
       | ProducerStored v h \<Rightarrow>
           h = of_nat H \<and> H < T + cap \<and> q_entries q ! (H mod cap) = v) \<and>
      (case sp_consumer s of
         ConsumerIdle \<Rightarrow> True
       | ConsumerLoaded t h \<Rightarrow> t = of_nat T \<and> (\<exists>H'. h = of_nat H' \<and> T \<le> H' \<and> H' \<le> H)
       | ConsumerRead v t \<Rightarrow> t = of_nat T \<and> T < H \<and> v = sp_pushed s ! T))"


text \<open>One frame passing through the queue, and a state in the middle of a pop.\<close>

definition queue_cycle :: "nat \<Rightarrow> 'a \<Rightarrow> 'a EspNowSpscQueue \<Rightarrow> 'a EspNowSpscQueue" where
  "queue_cycle cap v q = snd (queue_pop cap (snd (queue_push cap v q)))"

definition spsc_example :: "nat spsc_state" where
  "spsc_example =
     \<lparr>sp_queue = \<lparr>q_entries = [7, 0, 0], q_head = 1, q_tail = 0\<rparr>,
      sp_producer = ProducerIdle, sp_consumer = ConsumerRead 7 0, sp_pushed = [7], sp_popped = []\<rparr>"

subsection \<open>The invariant is kept by every step\<close>

lemma unat_count_diff:
  "t \<le> h \<Longrightarrow> h < t + 2 ^ 32 \<Longrightarrow> unat (of_nat h - of_nat t :: u32) = h - t"
  by (simp flip: of_nat_diff add: unat_of_nat)

lemma of_nat_u32_eq_iff:
  assumes "a \<le> b" and "b < a + 2 ^ 32"
  shows "(of_nat a :: u32) = of_nat b \<longleftrightarrow> a = b"
proof
  assume "(of_nat a :: u32) = of_nat b"
  then have "unat (of_nat b - of_nat a :: u32) = 0" by simp
  with assms show "a = b" by (simp add: unat_count_diff)
qed simp

lemma count_slot:
  "index_safe cap n \<Longrightarrow> k \<le> n \<Longrightarrow> unat (of_nat k :: u32) mod cap = k mod cap"
  by (auto simp: index_safe_def unat_of_nat mod_mod_cancel)

lemma index_safe_mono: "index_safe cap n \<Longrightarrow> m \<le> n \<Longrightarrow> index_safe cap m"
  by (auto simp: index_safe_def)

lemma mod_window_neq: "T \<le> k \<Longrightarrow> k < H \<Longrightarrow> H < T + cap \<Longrightarrow> H mod cap \<noteq> k mod cap" for cap :: nat
  using mod_window_inj [of cap 0 "H - k" k] by fastforce

inductive_cases spsc_stepE: "spsc_step cap s s'"

lemma pushed_grows: "spsc_step cap s s' \<Longrightarrow> length (sp_pushed s) \<le> length (sp_pushed s')"
  by (erule spsc_stepE) auto

lemmas spsc_inv_defs = spsc_inv_def Let_def

lemma spsc_inv_init: "0 < cap \<Longrightarrow> spsc_inv cap (spsc_init cap d)"
  by (simp add: spsc_inv_defs spsc_init_def queue_init_def)

lemma spsc_inv_store:
  assumes inv: "spsc_inv cap s" and safe: "index_safe cap (length (sp_pushed s))"
    and cap: "0 < cap" "cap < 2 ^ 32"
    and pc: "sp_producer s = ProducerLoaded v h t" "\<not> unat (h - t) \<ge> cap"
  shows "spsc_inv cap
      (s\<lparr>sp_queue := (sp_queue s)\<lparr>q_entries := (q_entries (sp_queue s))[unat h mod cap := v]\<rparr>,
         sp_producer := ProducerStored v h\<rparr>)"
proof -
  let ?H = "length (sp_pushed s)" and ?T = "length (sp_popped s)"
  obtain T' where h: "h = of_nat ?H" and t: "t = of_nat T'" "T' \<le> ?T" "?H \<le> T' + cap"
    using inv pc(1) by (auto simp: spsc_inv_defs)
  have "T' \<le> ?H" using inv t(2) by (auto simp: spsc_inv_defs)
  then have "unat (h - t) = ?H - T'"
    unfolding h t(1) by (rule unat_count_diff) (use t(3) cap(2) in linarith)
  then have room: "?H < ?T + cap" using pc(2) t(2) by linarith
  have slot: "unat h mod cap = ?H mod cap" unfolding h by (rule count_slot [OF safe order_refl])
  have "?H mod cap < cap" using cap by simp
  then show ?thesis
    using inv pc(1) room mod_window_neq [OF _ _ room] h unfolding spsc_inv_defs slot
    by (auto split: consumer.splits)
qed

lemma spsc_inv_step:
  assumes "spsc_step cap s s'" and "spsc_inv cap s" and "index_safe cap (length (sp_pushed s))"
    and "0 < cap" and "cap < 2 ^ 32"
  shows "spsc_inv cap s'"
  using assms(1)
proof cases
  case (push_load v)
  then show ?thesis using assms(2) by (auto simp: spsc_inv_defs split: consumer.splits)
next
  case (push_full v h t)
  then show ?thesis using assms(2) by (auto simp: spsc_inv_defs split: consumer.splits)
next
  case (push_store v h t)
  then show ?thesis using spsc_inv_store [OF assms(2,3,4,5)] by simp
next
  case (push_publish v h)
  then show ?thesis using assms(2)
    by (auto simp: spsc_inv_defs nth_append less_Suc_eq algebra_simps split: consumer.splits
        intro: le_SucI)
next
  case pop_load
  then show ?thesis using assms(2) by (auto simp: spsc_inv_defs split: producer.splits)
next
  case (pop_none t h)
  then show ?thesis using assms(2) by (auto simp: spsc_inv_defs split: producer.splits)
next
  case (pop_read t h)
  then obtain H' where h: "t = of_nat (length (sp_popped s))" "h = of_nat H'"
      "length (sp_popped s) \<le> H'" "H' \<le> length (sp_pushed s)"
    using assms(2) by (auto simp: spsc_inv_defs)
  moreover have "length (sp_popped s) \<noteq> H'" using pop_read(3) h by auto
  ultimately have T: "length (sp_popped s) < length (sp_pushed s)" by linarith
  have "unat t mod cap = length (sp_popped s) mod cap"
    unfolding h(1) using T by (intro count_slot [OF assms(3)]) simp
  then show ?thesis
    using pop_read(1) assms(2) T h(1) by (auto simp: spsc_inv_defs split: producer.splits)
next
  case (pop_publish v t)
  then show ?thesis using assms(2)
    by (auto simp: spsc_inv_defs take_Suc_conv_app_nth algebra_simps split: producer.splits
        intro: le_SucI)
qed

lemma spsc_inv_reachable:
  assumes "spsc_reachable cap d s" and "0 < cap" and "cap < 2 ^ 32"
    and "index_safe cap (length (sp_pushed s))"
  shows "spsc_inv cap s"
  using assms
proof (induction rule: spsc_reachable.induct)
  case reach_init
  then show ?case by (simp add: spsc_inv_init)
next
  case (reach_step s s')
  then have "index_safe cap (length (sp_pushed s))"
    using pushed_grows index_safe_mono by blast
  with reach_step show ?case using spsc_inv_step by blast
qed

subsection \<open>Every interleaving is a FIFO\<close>

text \<open>C18 (safety): however the producer's and the consumer's loads and stores interleave, the
  values the consumer has received are exactly the first values the producer published, in
  order, none lost, none duplicated, and never more than the capacity are in flight. For a
  capacity dividing \<open>2 ^ 32\<close>, as the completion queue's 4, this holds forever; for the
  receive queue's 3 it holds for the first \<open>2 ^ 32 - 1\<close> frames.\<close>

theorem interleaved_queue_is_fifo:
  assumes "spsc_reachable cap d s" and "0 < cap" and "cap < 2 ^ 32"
    and "index_safe cap (length (sp_pushed s))"
  shows "sp_popped s = take (length (sp_popped s)) (sp_pushed s) \<and>
    length (sp_popped s) \<le> length (sp_pushed s) \<and>
    length (sp_pushed s) - length (sp_popped s) \<le> cap"
  using spsc_inv_reachable [OF assms] by (auto simp: spsc_inv_defs)

lemma spsc_example_reachable: "spsc_reachable RX_QUEUE_CAPACITY 0 spsc_example"
proof -
  let ?q = "\<lparr>q_entries = [7, 0, 0 :: nat], q_head = 0, q_tail = 0\<rparr>"
  let ?s = "\<lambda>q p c ps. \<lparr>sp_queue = q, sp_producer = p, sp_consumer = c, sp_pushed = ps, sp_popped = []\<rparr>"
  note reach = reach_step [of RX_QUEUE_CAPACITY 0]
  have "spsc_reachable RX_QUEUE_CAPACITY 0
      (?s (?q\<lparr>q_entries := [0, 0, 0]\<rparr>) (ProducerLoaded 7 0 0) ConsumerIdle [])"
    using reach [OF reach_init push_load [where v = 7]]
    by (simp add: spsc_init_def queue_init_def numeral_3_eq_3)
  from reach [OF this push_store [where v = 7 and h = 0 and t = 0]]
  have "spsc_reachable RX_QUEUE_CAPACITY 0 (?s ?q (ProducerStored 7 0) ConsumerIdle [])"
    by simp
  from reach [OF this push_publish [where v = 7 and h = 0]]
  have "spsc_reachable RX_QUEUE_CAPACITY 0 (?s (?q\<lparr>q_head := 1\<rparr>) ProducerIdle ConsumerIdle [7])"
    by simp
  from reach [OF this pop_load]
  have "spsc_reachable RX_QUEUE_CAPACITY 0 (?s (?q\<lparr>q_head := 1\<rparr>) ProducerIdle (ConsumerLoaded 0 1) [7])"
    by simp
  from reach [OF this pop_read [where t = 0 and h = 1]]
  show ?thesis by (simp add: spsc_example_def)
qed

lemma interleaved_queue_is_fifo_witness:
  "spsc_reachable RX_QUEUE_CAPACITY 0 spsc_example \<and>
   index_safe RX_QUEUE_CAPACITY (length (sp_pushed spsc_example)) \<and>
   length (sp_pushed spsc_example) - length (sp_popped spsc_example) \<le> RX_QUEUE_CAPACITY"
  using interleaved_queue_is_fifo [OF spsc_example_reachable] spsc_example_reachable
  by (simp add: index_safe_def spsc_example_def)

subsection \<open>The receive queue at the wrap of its counters\<close>

lemma queue_cycle_funpow:
  "0 < cap \<Longrightarrow> \<exists>es. length es = cap \<and>
     (queue_cycle cap v ^^ n) (queue_init cap d) = \<lparr>q_entries = es, q_head = of_nat n, q_tail = of_nat n\<rparr>"
  by (induction n) (auto simp: queue_init_def queue_cycle_def queue_push_def queue_pop_def add.commute)

text \<open>C19 (error): after \<open>2 ^ 32 - 1\<close> frames have passed through the receive queue, the next two
  frames are both accepted into the same slot: the first is lost and the second is delivered
  twice, because \<open>2 ^ 32\<close> is not a multiple of the capacity 3.\<close>

theorem receive_queue_wrap_loses_frame:
  "let q0 = (queue_cycle RX_QUEUE_CAPACITY v ^^ (2 ^ 32 - 1)) (queue_init RX_QUEUE_CAPACITY d);
       (ok1, q1) = queue_push RX_QUEUE_CAPACITY a q0;
       (ok2, q2) = queue_push RX_QUEUE_CAPACITY b q1;
       (r1, q3) = queue_pop RX_QUEUE_CAPACITY q2;
       (r2, q4) = queue_pop RX_QUEUE_CAPACITY q3
   in ok1 \<and> ok2 \<and> r1 = Some b \<and> r2 = Some b"
proof -
  obtain es where es: "length es = 3"
    and q: "(queue_cycle RX_QUEUE_CAPACITY v ^^ (2 ^ 32 - 1)) (queue_init RX_QUEUE_CAPACITY d)
        = \<lparr>q_entries = es, q_head = of_nat (2 ^ 32 - 1), q_tail = of_nat (2 ^ 32 - 1)\<rparr>"
    using queue_cycle_funpow [where cap = RX_QUEUE_CAPACITY and n = "2 ^ 32 - 1"]
    by fastforce
  have top: "(of_nat (2 ^ 32 - 1) :: u32) = - 1" by simp
  have "unat (- 1 :: u32) mod 3 = 0"
    by (simp add: unsigned_minus_1_eq_mask mask_eq_exp_minus_1)
  then show ?thesis
    unfolding q top using es by (simp add: queue_push_def queue_pop_def)
qed

end
