(* ===== verification/Message_Codec.thy ===== *)
theory Message_Codec
  imports Frame
begin

text \<open>
  The contract shared by the application codecs of the program (\<open>EspNowAckCodec\<close>,
  \<open>EspNowCommandCodec\<close>, \<open>EspNowResultCodec\<close>): every encodable message gets a
  representation of bounded size that decodes to what the wire carries of it. What follows
  for a message that travels as frames is proved here once, for all of them.
\<close>

locale message_codec =
  fixes encodable :: "'m \<Rightarrow> bool"
    and encode :: "'m \<Rightarrow> bytes option"
    and decode :: "bytes \<Rightarrow> 'm option"
    and carried :: "'m \<Rightarrow> 'm"
    and max_size :: nat
  assumes encode_decode:
      "encodable m \<Longrightarrow> \<exists>bs. encode m = Some bs \<and> bs \<noteq> [] \<and> length bs \<le> max_size \<and>
         decode bs = Some (carried m)"
    and max_size_fits: "max_size \<le> MAX_MESSAGE_SIZE"
begin

lemma encode_inj:
  "\<lbrakk>encodable m; encodable m'; encode m = encode m'\<rbrakk> \<Longrightarrow> carried m = carried m'"
  using encode_decode [of m] encode_decode [of m'] by auto

text \<open>A message encoded, cut into frames and received in any order with repetitions is
  recovered by the receiver.\<close>

lemma framed_roundtrip:
  assumes "encodable m" and "envelope_ok env"
    and fresh: "length (ra_message r) = MAX_MESSAGE_SIZE" "ra_received_mask r = 0"
    and order: "set is = {i. i < fragment_count (length (the (encode m)))}"
  shows "\<exists>bs. encode m = Some bs \<and> decode bs = Some (carried m) \<and>
    (\<forall>i\<in>set is. encode_fragment env (Some bs) (length bs) i = Inr (frame_of env bs i)) \<and>
    fst (reassembler_take (accept_all (map (frame_of env bs) is) r)) =
      Some \<lparr>rm_envelope = env, rm_data = bs\<rparr>"
proof -
  obtain bs where bs: "encode m = Some bs" "decode bs = Some (carried m)" "bs \<noteq> []"
      "length bs \<le> max_size"
    using encode_decode [OF assms(1)] by auto
  then have n: "0 < length bs" "length bs \<le> MAX_MESSAGE_SIZE" using max_size_fits by auto
  have all: "set is = {i. i < fragment_count (length bs)}" using order bs(1) by simp
  have "holds_fragments env bs (set is) (accept_all (map (frame_of env bs) is) r)"
    using accept_all_fragments [OF assms(2) holds_fragments_empty [OF fresh], of "is" bs] all by simp
  then show ?thesis
    using bs take_all_fragments(2) [OF _ n] all encode_fragment_ok [OF assms(2)]
    by (auto simp: frame_of_def)
qed

end

end
