(* ===== verification/Reliability.thy ===== *)
theory Reliability
  imports Message_Codec
begin

text \<open>
  \<open>reliability.h\<close>: the acknowledgement payload and its codec, the per-message delivery
  state machine with its deadline on a wrapping 32-bit millisecond clock, and the cache
  that recognises recently seen messages.
\<close>

subsection \<open>Acknowledgements\<close>

datatype EspNowAckStatus = ACCEPTED | DUPLICATE | REJECTED

fun EspNowAckStatus_code :: "EspNowAckStatus \<Rightarrow> u8" where
  "EspNowAckStatus_code ACCEPTED = 1"
| "EspNowAckStatus_code DUPLICATE = 2"
| "EspNowAckStatus_code REJECTED = 3"

text \<open>The cast of a byte to the enum together with \<open>valid_status_\<close>.\<close>

definition EspNowAckStatus_of :: "u8 \<Rightarrow> EspNowAckStatus option" where
  "EspNowAckStatus_of b =
     (if b = 1 then Some ACCEPTED else if b = 2 then Some DUPLICATE
      else if b = 3 then Some REJECTED else None)"

type_synonym EspNowDeliveryKey = DeliveryIdentity

record EspNowAckPayload =
  ack_acknowledged :: EspNowDeliveryKey
  ack_status :: EspNowAckStatus

abbreviation (input) ACK_VERSION :: u8 where "ACK_VERSION \<equiv> 1"
abbreviation (input) ACK_ENCODED_SIZE :: nat where "ACK_ENCODED_SIZE \<equiv> 22"

definition ack_encode :: "EspNowAckPayload \<Rightarrow> bytes option" where
  "ack_encode payload =
     (if \<not> DeliveryIdentity_valid (ack_acknowledged payload) then None
      else
        (let bytes = [ACK_VERSION, EspNowAckStatus_code (ack_status payload)] @
               put_u64 (dk_source_boot_id (ack_acknowledged payload)) @
               put_u64 (dk_transaction_id (ack_acknowledged payload)) @
               put_u32 (dk_sequence (ack_acknowledged payload));
             (assigned, data) = bytes_assign ACK_ENCODED_SIZE (Some bytes) (length bytes)
         in if assigned then Some data else None))"

definition ack_decode :: "span \<Rightarrow> EspNowAckPayload option" where
  "ack_decode data =
     (case data of None \<Rightarrow> None
      | Some d \<Rightarrow>
          if length d \<noteq> ACK_ENCODED_SIZE \<or> d ! 0 \<noteq> ACK_VERSION then None
          else (case EspNowAckStatus_of (d ! 1) of None \<Rightarrow> None
                | Some status \<Rightarrow>
                    (let decoded =
                       \<lparr>ack_acknowledged =
                          \<lparr>dk_source_boot_id = get_u64 (drop 2 d), dk_transaction_id = get_u64 (drop 10 d),
                           dk_sequence = get_u32 (drop 18 d)\<rparr>,
                        ack_status = status\<rparr>
                     in if \<not> DeliveryIdentity_valid (ack_acknowledged decoded) then None
                        else Some decoded)))"

subsection \<open>Delivery of one message\<close>

datatype EspNowDeliveryState =
    IDLE | READY_TO_SEND | WAITING_FOR_ACK | ACKNOWLEDGED | REJECTED | TIMED_OUT

record EspNowRetryPolicy =
  rp_ack_timeout_ms :: u32
  rp_max_attempts :: u8

definition EspNowRetryPolicy_init :: EspNowRetryPolicy where
  "EspNowRetryPolicy_init = \<lparr>rp_ack_timeout_ms = 250, rp_max_attempts = 3\<rparr>"

definition EspNowRetryPolicy_valid :: "EspNowRetryPolicy \<Rightarrow> bool" where
  "EspNowRetryPolicy_valid p \<longleftrightarrow> rp_ack_timeout_ms p \<noteq> 0 \<and> rp_max_attempts p \<noteq> 0"

record EspNowReliableDelivery =
  rd_policy :: EspNowRetryPolicy
  rd_key :: EspNowDeliveryKey
  rd_deadline_ms :: u32
  rd_attempt_count :: u8
  rd_state :: EspNowDeliveryState

definition delivery_init :: EspNowReliableDelivery where
  "delivery_init =
     \<lparr>rd_policy = EspNowRetryPolicy_init, rd_key = DeliveryIdentity_init, rd_deadline_ms = 0,
      rd_attempt_count = 0, rd_state = IDLE\<rparr>"

definition delivery_active :: "EspNowReliableDelivery \<Rightarrow> bool" where
  "delivery_active d \<longleftrightarrow> rd_state d = READY_TO_SEND \<or> rd_state d = WAITING_FOR_ACK"

definition delivery_configure ::
    "EspNowRetryPolicy \<Rightarrow> EspNowReliableDelivery \<Rightarrow> bool \<times> EspNowReliableDelivery" where
  "delivery_configure policy d =
     (if rd_state d \<noteq> IDLE \<or> \<not> EspNowRetryPolicy_valid policy then (False, d)
      else (True, d\<lparr>rd_policy := policy\<rparr>))"

definition delivery_start ::
    "EspNowDeliveryKey \<Rightarrow> EspNowReliableDelivery \<Rightarrow> bool \<times> EspNowReliableDelivery" where
  "delivery_start key d =
     (if \<not> DeliveryIdentity_valid key \<or> delivery_active d then (False, d)
      else (True, d\<lparr>rd_key := key, rd_attempt_count := 0, rd_deadline_ms := 0,
                    rd_state := READY_TO_SEND\<rparr>))"

definition delivery_mark_sent :: "u32 \<Rightarrow> EspNowReliableDelivery \<Rightarrow> bool \<times> EspNowReliableDelivery" where
  "delivery_mark_sent now_ms d =
     (if rd_state d \<noteq> READY_TO_SEND \<or> rd_attempt_count d \<ge> rp_max_attempts (rd_policy d)
      then (False, d)
      else (True, d\<lparr>rd_attempt_count := rd_attempt_count d + 1,
                    rd_deadline_ms := now_ms + rp_ack_timeout_ms (rd_policy d),
                    rd_state := WAITING_FOR_ACK\<rparr>))"

definition delivery_loop :: "u32 \<Rightarrow> EspNowReliableDelivery \<Rightarrow> EspNowReliableDelivery" where
  "delivery_loop now_ms d =
     (if rd_state d \<noteq> WAITING_FOR_ACK \<or> sint (now_ms - rd_deadline_ms d) < 0 then d
      else d\<lparr>rd_state := (if rd_attempt_count d < rp_max_attempts (rd_policy d)
                          then READY_TO_SEND else TIMED_OUT)\<rparr>)"

definition delivery_accept_ack ::
    "EspNowAckPayload \<Rightarrow> EspNowReliableDelivery \<Rightarrow> bool \<times> EspNowReliableDelivery" where
  "delivery_accept_ack ack d =
     (if rd_state d \<noteq> WAITING_FOR_ACK \<or> \<not> DeliveryIdentity_eq (ack_acknowledged ack) (rd_key d)
      then (False, d)
      else (True, d\<lparr>rd_state := (if ack_status ack = EspNowAckStatus.REJECTED
                                  then EspNowDeliveryState.REJECTED else ACKNOWLEDGED)\<rparr>))"

definition delivery_reset :: "EspNowReliableDelivery \<Rightarrow> EspNowReliableDelivery" where
  "delivery_reset d =
     d\<lparr>rd_key := DeliveryIdentity_init, rd_attempt_count := 0, rd_deadline_ms := 0, rd_state := IDLE\<rparr>"

subsection \<open>Recently seen messages\<close>

datatype EspNowDuplicateObservation = NEW_MESSAGE | DUPLICATE

abbreviation (input) CACHE_CAPACITY :: nat where "CACHE_CAPACITY \<equiv> 8"

record EspNowDuplicateCache =
  dc_entries :: "EspNowDeliveryKey list"
  dc_count :: nat
  dc_next :: nat

definition cache_init :: EspNowDuplicateCache where
  "cache_init = \<lparr>dc_entries = replicate CACHE_CAPACITY DeliveryIdentity_init, dc_count = 0, dc_next = 0\<rparr>"

definition cache_contains :: "EspNowDeliveryKey \<Rightarrow> EspNowDuplicateCache \<Rightarrow> bool" where
  "cache_contains key c \<longleftrightarrow>
     DeliveryIdentity_valid key \<and>
     list_ex (\<lambda>index. DeliveryIdentity_eq (dc_entries c ! index) key) [0..<dc_count c]"

definition cache_observe ::
    "EspNowDeliveryKey \<Rightarrow> EspNowDuplicateCache \<Rightarrow> EspNowDuplicateObservation \<times> EspNowDuplicateCache" where
  "cache_observe key c =
     (if cache_contains key c then (EspNowDuplicateObservation.DUPLICATE, c)
      else if \<not> DeliveryIdentity_valid key then (EspNowDuplicateObservation.DUPLICATE, c)
      else (NEW_MESSAGE,
            c\<lparr>dc_entries := (dc_entries c)[dc_next c := key],
              dc_next := (dc_next c + 1) mod CACHE_CAPACITY,
              dc_count := (if dc_count c < CACHE_CAPACITY then dc_count c + 1 else dc_count c)\<rparr>))"

subsection \<open>Vocabulary of the proofs\<close>

datatype delivery_event =
    DConfigure EspNowRetryPolicy | DStart EspNowDeliveryKey | DMarkSent u32 | DLoop u32
  | DAck EspNowAckPayload | DReset

fun delivery_step :: "delivery_event \<Rightarrow> EspNowReliableDelivery \<Rightarrow> EspNowReliableDelivery" where
  "delivery_step (DConfigure p) d = snd (delivery_configure p d)"
| "delivery_step (DStart k) d = snd (delivery_start k d)"
| "delivery_step (DMarkSent t) d = snd (delivery_mark_sent t d)"
| "delivery_step (DLoop t) d = delivery_loop t d"
| "delivery_step (DAck a) d = snd (delivery_accept_ack a d)"
| "delivery_step DReset d = delivery_reset d"

definition delivery_inv :: "EspNowReliableDelivery \<Rightarrow> bool" where
  "delivery_inv d \<longleftrightarrow>
     EspNowRetryPolicy_valid (rd_policy d) \<and>
     rd_attempt_count d \<le> rp_max_attempts (rd_policy d) \<and>
     (rd_state d \<noteq> IDLE \<longrightarrow> DeliveryIdentity_valid (rd_key d)) \<and>
     (case rd_state d of
        IDLE \<Rightarrow> rd_attempt_count d = 0
      | READY_TO_SEND \<Rightarrow> rd_attempt_count d < rp_max_attempts (rd_policy d)
      | TIMED_OUT \<Rightarrow> rd_attempt_count d = rp_max_attempts (rd_policy d)
      | _ \<Rightarrow> 0 < rd_attempt_count d)"

text \<open>The keys the cache knows, oldest first, and the specification it implements: a sliding
  window over the valid keys that were new.\<close>

definition cache_window :: "EspNowDuplicateCache \<Rightarrow> EspNowDeliveryKey list" where
  "cache_window c =
     (if dc_count c < CACHE_CAPACITY then take (dc_count c) (dc_entries c)
      else drop (dc_next c) (dc_entries c) @ take (dc_next c) (dc_entries c))"

definition cache_inv :: "EspNowDuplicateCache \<Rightarrow> bool" where
  "cache_inv c \<longleftrightarrow>
     length (dc_entries c) = CACHE_CAPACITY \<and> dc_count c \<le> CACHE_CAPACITY \<and>
     dc_next c < CACHE_CAPACITY \<and> (dc_count c < CACHE_CAPACITY \<longrightarrow> dc_next c = dc_count c)"

definition window_observe ::
    "EspNowDeliveryKey \<Rightarrow> EspNowDeliveryKey list \<Rightarrow> EspNowDuplicateObservation \<times> EspNowDeliveryKey list" where
  "window_observe key w =
     (if \<not> DeliveryIdentity_valid key \<or> key \<in> set w then (EspNowDuplicateObservation.DUPLICATE, w)
      else (NEW_MESSAGE, (if length w < CACHE_CAPACITY then w else tl w) @ [key]))"

primrec observe_all ::
    "(EspNowDeliveryKey \<Rightarrow> 's \<Rightarrow> EspNowDuplicateObservation \<times> 's) \<Rightarrow> EspNowDeliveryKey list \<Rightarrow> 's \<Rightarrow>
     EspNowDuplicateObservation list" where
  "observe_all obs [] s = []"
| "observe_all obs (k # ks) s = fst (obs k s) # observe_all obs ks (snd (obs k s))"

primrec delivery_rounds :: "(u32 \<times> u32) list \<Rightarrow> EspNowReliableDelivery \<Rightarrow> EspNowReliableDelivery" where
  "delivery_rounds [] d = d"
| "delivery_rounds (r # rs) d =
     delivery_rounds rs (delivery_loop (snd r) (snd (delivery_mark_sent (fst r) d)))"

definition round_expires :: "EspNowRetryPolicy \<Rightarrow> u32 \<times> u32 \<Rightarrow> bool" where
  "round_expires p r \<longleftrightarrow> unat (snd r - fst r) < 2 ^ 31 \<and> rp_ack_timeout_ms p \<le> snd r - fst r"

lemmas delivery_defs [state_defs] = delivery_configure_def delivery_start_def delivery_mark_sent_def
  delivery_loop_def delivery_accept_ack_def delivery_reset_def delivery_active_def

subsection \<open>The acknowledgement codec\<close>

lemma EspNowAckStatus_of_code [simp]: "EspNowAckStatus_of (EspNowAckStatus_code s) = Some s"
  by (cases s) (simp_all add: EspNowAckStatus_of_def)

lemma ack_encode_eq:
  "DeliveryIdentity_valid (ack_acknowledged p) \<Longrightarrow>
     ack_encode p = Some ([ACK_VERSION, EspNowAckStatus_code (ack_status p)] @
       put_u64 (dk_source_boot_id (ack_acknowledged p)) @
       put_u64 (dk_transaction_id (ack_acknowledged p)) @
       put_u32 (dk_sequence (ack_acknowledged p)))"
  by (simp add: ack_encode_def bytes_assign_def bytes_accepts_def)

lemma ack_decode_encode:
  assumes "DeliveryIdentity_valid (ack_acknowledged p)"
  shows "ack_decode (ack_encode p) = Some p"
  using assms
  by (simp add: ack_encode_eq ack_decode_def Let_def DeliveryIdentity_valid_def)

interpretation ack_codec: message_codec
  "\<lambda>p. DeliveryIdentity_valid (ack_acknowledged p)" ack_encode "\<lambda>bs. ack_decode (Some bs)" id ACK_ENCODED_SIZE
proof (unfold_locales, goal_cases)
  case (1 p)
  then show ?case using ack_decode_encode [OF 1] by (simp add: ack_encode_eq)
qed simp

subsection \<open>The delivery machine\<close>

interpretation delivery_machine: invariant_machine delivery_init delivery_step delivery_inv
proof
  show "delivery_inv delivery_init"
    by (simp add: delivery_inv_def delivery_init_def EspNowRetryPolicy_init_def EspNowRetryPolicy_valid_def)
  show "delivery_inv (delivery_step e s)" if "delivery_inv s" for e s
    using that word_less_Suc_le
    by (cases e; cases "rd_state s")
      (auto simp: delivery_inv_def delivery_defs EspNowRetryPolicy_valid_def word_gt_0 not_le)
qed

lemma mark_sent_ready:
  "rd_state d = READY_TO_SEND \<Longrightarrow> rd_attempt_count d < rp_max_attempts (rd_policy d) \<Longrightarrow>
     delivery_mark_sent t d =
       (True, d\<lparr>rd_attempt_count := rd_attempt_count d + 1,
                rd_deadline_ms := t + rp_ack_timeout_ms (rd_policy d), rd_state := WAITING_FOR_ACK\<rparr>)"
  by (simp add: delivery_mark_sent_def)

text \<open>One unanswered attempt: the message is marked sent at \<open>t\<close> and the loop runs
  \<open>e\<close> milliseconds later, at or after the timeout.\<close>

lemma unanswered_round:
  assumes "rd_state d = READY_TO_SEND" and "rd_attempt_count d < rp_max_attempts (rd_policy d)"
    and "unat (s - t) < 2 ^ 31" and "unat (rp_ack_timeout_ms (rd_policy d)) \<le> 2 ^ 31"
    and "rp_ack_timeout_ms (rd_policy d) \<le> s - t"
  shows "delivery_loop s (snd (delivery_mark_sent t d)) =
    d\<lparr>rd_attempt_count := rd_attempt_count d + 1,
      rd_deadline_ms := t + rp_ack_timeout_ms (rd_policy d),
      rd_state := (if rd_attempt_count d + 1 < rp_max_attempts (rd_policy d)
                   then READY_TO_SEND else TIMED_OUT)\<rparr>"
proof -
  have "\<not> sint (s - (t + rp_ack_timeout_ms (rd_policy d))) < 0"
    using deadline_pending_iff [OF assms(3,4), of t] assms(5) by (simp add: not_less)
  then show ?thesis by (simp add: mark_sent_ready [OF assms(1,2)] delivery_loop_def)
qed

lemma unanswered_rounds:
  assumes "rd_state d = READY_TO_SEND"
    and "unat (rp_ack_timeout_ms (rd_policy d)) \<le> 2 ^ 31" and "\<forall>r \<in> set rs. round_expires (rd_policy d) r"
    and "length rs + unat (rd_attempt_count d) = unat (rp_max_attempts (rd_policy d))" and "rs \<noteq> []"
  shows "rd_state (delivery_rounds rs d) = TIMED_OUT \<and>
    rd_attempt_count (delivery_rounds rs d) = rp_max_attempts (rd_policy d)"
  using assms
proof (induction rs arbitrary: d)
  case (Cons r rs)
  let ?d = "delivery_loop (snd r) (snd (delivery_mark_sent (fst r) d))"
  have lt: "rd_attempt_count d < rp_max_attempts (rd_policy d)"
    using Cons.prems(4) by (simp add: word_less_nat_alt)
  then have "rd_attempt_count d \<noteq> - 1" by (metis not_le word_n1_ge)
  then have count: "unat (rd_attempt_count d + 1) = Suc (unat (rd_attempt_count d))"
    by (rule unat_plus_one)
  have step: "?d = d\<lparr>rd_attempt_count := rd_attempt_count d + 1,
      rd_deadline_ms := fst r + rp_ack_timeout_ms (rd_policy d),
      rd_state := (if rd_attempt_count d + 1 < rp_max_attempts (rd_policy d)
                   then READY_TO_SEND else TIMED_OUT)\<rparr>"
    using Cons.prems lt by (intro unanswered_round) (auto simp: round_expires_def)
  show ?case
  proof (cases rs)
    case Nil
    then have "unat (rd_attempt_count d + 1) = unat (rp_max_attempts (rd_policy d))"
      using Cons.prems(4) count by simp
    then have "rd_attempt_count d + 1 = rp_max_attempts (rd_policy d)" by (simp add: word_unat_eq_iff)
    then show ?thesis using Nil step by simp
  next
    case (Cons r' rs')
    then have "rd_attempt_count d + 1 < rp_max_attempts (rd_policy d)"
      using Cons.prems(4) count by (simp add: word_less_nat_alt)
    then show ?thesis using Cons.IH [of ?d] Cons.prems count Cons step by simp
  qed
qed simp

subsection \<open>The cache is a sliding window\<close>

lemma cache_contains_window:
  "cache_inv c \<Longrightarrow> cache_contains k c \<longleftrightarrow> DeliveryIdentity_valid k \<and> k \<in> set (cache_window c)"
proof -
  assume inv: "cache_inv c"
  have "set (drop n xs @ take n xs) = set xs" for n and xs :: "EspNowDeliveryKey list"
    by (metis append_take_drop_id set_append sup_commute)
  then have "set (cache_window c) = set (take (dc_count c) (dc_entries c))"
    using inv by (simp add: cache_window_def cache_inv_def)
  moreover have "list_ex (\<lambda>i. DeliveryIdentity_eq (dc_entries c ! i) k) [0..<dc_count c] \<longleftrightarrow>
      k \<in> set (take (dc_count c) (dc_entries c))"
    using inv by (auto simp: list_ex_iff in_set_conv_nth cache_inv_def)
  ultimately show ?thesis by (simp add: cache_contains_def)
qed

lemma length_cache_window: "cache_inv c \<Longrightarrow> length (cache_window c) = dc_count c"
  by (auto simp: cache_window_def cache_inv_def)

lemma cache_store_window:
  fixes k :: EspNowDeliveryKey
  assumes inv: "cache_inv c"
  defines "c' \<equiv> c\<lparr>dc_entries := (dc_entries c)[dc_next c := k], dc_next := (dc_next c + 1) mod CACHE_CAPACITY,
      dc_count := (if dc_count c < CACHE_CAPACITY then dc_count c + 1 else dc_count c)\<rparr>"
  shows "cache_inv c' \<and>
    cache_window c' = (if dc_count c < CACHE_CAPACITY then cache_window c else tl (cache_window c)) @ [k]"
proof (cases "dc_count c < 8")
  case True
  then have n: "dc_next c = dc_count c" and len: "length (dc_entries c) = 8"
    using inv by (auto simp: cache_inv_def)
  have "take (Suc (dc_count c)) ((dc_entries c)[dc_count c := k]) = take (dc_count c) (dc_entries c) @ [k]"
    using True len by (simp add: take_Suc_conv_app_nth)
  then show ?thesis
    using True n len by (cases "dc_count c = 7") (simp_all add: c'_def cache_window_def cache_inv_def)
next
  case False
  let ?n = "dc_next c" and ?e = "dc_entries c"
  have len: "length ?e = 8" and n: "?n < 8" and full: "dc_count c = 8" using inv False by (auto simp: cache_inv_def)
  have "drop ?n ?e = ?e ! ?n # drop (Suc ?n) ?e" using n len by (simp add: Cons_nth_drop_Suc)
  moreover have "take (Suc ?n) (?e[?n := k]) = take ?n ?e @ [k]"
    using n len by (simp add: take_Suc_conv_app_nth)
  moreover have "?e[?n := k] = take ?n ?e @ k # drop (Suc ?n) ?e" using n len by (simp add: upd_conv_take_nth_drop)
  ultimately show ?thesis
    using n len full by (cases "?n = 7") (auto simp: c'_def cache_window_def cache_inv_def)
qed

lemma cache_observe_window:
  assumes "cache_inv c"
  shows "fst (cache_observe k c) = fst (window_observe k (cache_window c)) \<and>
    cache_window (snd (cache_observe k c)) = snd (window_observe k (cache_window c)) \<and>
    cache_inv (snd (cache_observe k c))"
  using cache_contains_window [OF assms, of k] cache_store_window [OF assms, of k] assms
    length_cache_window [OF assms]
  by (auto simp: cache_observe_def window_observe_def)

lemma observe_all_window:
  "cache_inv c \<Longrightarrow> observe_all cache_observe ks c = observe_all window_observe ks (cache_window c)"
  using cache_observe_window by (induction ks arbitrary: c) auto

lemma cache_init_inv: "cache_inv cache_init" and cache_init_window: "cache_window cache_init = []"
  by (simp_all add: cache_inv_def cache_window_def cache_init_def)

subsection \<open>Properties\<close>

text \<open>An acknowledgement for a valid message identity is encoded in exactly 22
  bytes and decodes to itself.\<close>

theorem ack_roundtrip:
  assumes "DeliveryIdentity_valid (ack_acknowledged p)"
  shows "\<exists>bs. ack_encode p = Some bs \<and> length bs = ACK_ENCODED_SIZE \<and> ack_decode (Some bs) = Some p"
  using ack_codec.encode_decode [OF assms] by (auto simp: ack_encode_eq [OF assms])

lemma ack_roundtrip_witness:
  "\<exists>bs. ack_encode \<lparr>ack_acknowledged = \<lparr>dk_source_boot_id = 1, dk_transaction_id = 2, dk_sequence = 3\<rparr>,
      ack_status = ACCEPTED\<rparr> = Some bs \<and> length bs = ACK_ENCODED_SIZE \<and>
    ack_decode (Some bs) = Some \<lparr>ack_acknowledged =
        \<lparr>dk_source_boot_id = 1, dk_transaction_id = 2, dk_sequence = 3\<rparr>, ack_status = ACCEPTED\<rparr>"
  by (rule ack_roundtrip) (simp add: DeliveryIdentity_valid_def)

text \<open>Whatever is called in whatever order, a delivery never makes more attempts
  than its policy allows, offers the message for sending only while attempts remain, and
  reports a timeout only after the last of them.\<close>

theorem delivery_attempts_bounded:
  "let d = run_events delivery_step es delivery_init in
   rd_attempt_count d \<le> rp_max_attempts (rd_policy d) \<and>
   (rd_state d = READY_TO_SEND \<longrightarrow> rd_attempt_count d < rp_max_attempts (rd_policy d)) \<and>
   (rd_state d = TIMED_OUT \<longrightarrow> rd_attempt_count d = rp_max_attempts (rd_policy d)) \<and>
   (rd_state d \<noteq> IDLE \<longrightarrow> DeliveryIdentity_valid (rd_key d))"
  using delivery_machine.inv_run [of es] by (auto simp: delivery_inv_def Let_def)

lemma delivery_attempts_bounded_witness:
  "let d = run_events delivery_step
       [DConfigure \<lparr>rp_ack_timeout_ms = 10, rp_max_attempts = 1\<rparr>,
        DStart \<lparr>dk_source_boot_id = 1, dk_transaction_id = 2, dk_sequence = 3\<rparr>,
        DMarkSent 4294967290, DLoop 3, DLoop 4] delivery_init
   in rd_state d = TIMED_OUT \<and> rd_attempt_count d = rp_max_attempts (rd_policy d)"
  using delivery_attempts_bounded [of "[DConfigure \<lparr>rp_ack_timeout_ms = 10, rp_max_attempts = 1\<rparr>,
        DStart \<lparr>dk_source_boot_id = 1, dk_transaction_id = 2, dk_sequence = 3\<rparr>,
        DMarkSent 4294967290, DLoop 3, DLoop 4]"]
  by (simp add: delivery_defs delivery_init_def EspNowRetryPolicy_valid_def DeliveryIdentity_valid_def
      sint_u32_neg_iff EspNowRetryPolicy_init_def)

text \<open>C39 (bounds): the retry deadline is exact on the wrapping clock: after a send at \<open>t\<close>, a loop
  \<open>e\<close> milliseconds later leaves the delivery waiting if and only if the timeout has not
  elapsed, for every \<open>t\<close>, every \<open>e\<close> below \<open>2 ^ 31\<close> and every timeout up to \<open>2 ^ 31\<close>.\<close>

theorem delivery_deadline_exact:
  assumes "delivery_mark_sent t d = (True, d')" and "unat e < 2 ^ 31"
    and "unat (rp_ack_timeout_ms (rd_policy d)) \<le> 2 ^ 31"
  shows "rd_state (delivery_loop (t + e) d') = WAITING_FOR_ACK \<longleftrightarrow> e < rp_ack_timeout_ms (rd_policy d)"
proof -
  have d': "rd_state d' = WAITING_FOR_ACK" "rd_deadline_ms d' = t + rp_ack_timeout_ms (rd_policy d)"
    using assms(1) by (auto simp: delivery_mark_sent_def split: if_splits)
  show ?thesis
    using deadline_pending_iff [OF assms(2,3), of t] d' by (auto simp: delivery_loop_def)
qed

lemma delivery_deadline_exact_witness:
  "let d = delivery_init\<lparr>rd_state := READY_TO_SEND\<rparr> in
   rd_state (delivery_loop (4294967200 + 249) (snd (delivery_mark_sent 4294967200 d))) = WAITING_FOR_ACK"
proof -
  let ?d = "delivery_init\<lparr>rd_state := READY_TO_SEND\<rparr>"
  have "delivery_mark_sent 4294967200 ?d = (True, snd (delivery_mark_sent 4294967200 ?d))"
    by (simp add: delivery_mark_sent_def delivery_init_def EspNowRetryPolicy_init_def)
  from delivery_deadline_exact [OF this, of 249] show ?thesis
    by (simp add: delivery_init_def EspNowRetryPolicy_init_def)
qed



text \<open>C30 (refinement): the ring of the duplicate cache implements a sliding window over the last
  eight new messages: for every sequence of keys the answers of the cache are those of the
  window.\<close>

theorem duplicate_cache_is_sliding_window:
  "observe_all cache_observe keys cache_init = observe_all window_observe keys []"
  using observe_all_window [OF cache_init_inv] by (simp add: cache_init_window)

end
