(* ===== verification/Protocol_Runtime.thy ===== *)
theory Protocol_Runtime
  imports Radio_Queue Reliability
begin

text \<open>
  \<open>protocol_runtime.h\<close>: the receiving side of the protocol. It reassembles frames, turns
  a complete message into an application message with a pending acknowledgement, or into a
  delivery acknowledgement for the sender, and suppresses recently seen messages.
\<close>

datatype EspNowProtocolAcceptResult =
    FRAGMENT_ACCEPTED | APPLICATION_MESSAGE_READY | DELIVERY_ACK_READY
  | DUPLICATE_ACK_READY | REJECTED_ACK_READY | INVALID_FRAME

record EspNowInboundApplicationMessage =
  im_peer_index :: u8
  im_message :: EspNowReassembledMessage

record EspNowPendingApplicationAck =
  pa_peer_index :: u8
  pa_payload :: EspNowAckPayload

record EspNowProtocolRuntime =
  rt_local_boot_id :: u64
  rt_reassembler :: EspNowFrameReassembler
  rt_duplicates :: EspNowDuplicateCache
  rt_delivery_ack :: EspNowAckPayload
  rt_application_ack :: EspNowPendingApplicationAck
  rt_invalid_frame_count :: u32
  rt_duplicate_count :: u32
  rt_rejected_count :: u32
  rt_active_peer_index :: u8
  rt_application_peer_index :: u8
  rt_application_message_ready :: bool
  rt_delivery_ack_ready :: bool
  rt_application_ack_ready :: bool
  rt_assembling :: bool

definition EspNowAckPayload_init :: EspNowAckPayload where
  "EspNowAckPayload_init =
     \<lparr>ack_acknowledged = DeliveryIdentity_init, ack_status = EspNowAckStatus.REJECTED\<rparr>"

definition runtime_init :: "u64 \<Rightarrow> EspNowProtocolRuntime" where
  "runtime_init local_boot_id =
     \<lparr>rt_local_boot_id = local_boot_id, rt_reassembler = reassembler_init, rt_duplicates = cache_init,
      rt_delivery_ack = EspNowAckPayload_init,
      rt_application_ack = \<lparr>pa_peer_index = 0, pa_payload = EspNowAckPayload_init\<rparr>,
      rt_invalid_frame_count = 0, rt_duplicate_count = 0, rt_rejected_count = 0,
      rt_active_peer_index = 0, rt_application_peer_index = 0, rt_application_message_ready = False,
      rt_delivery_ack_ready = False, rt_application_ack_ready = False, rt_assembling = False\<rparr>"

definition runtime_configure :: "u64 \<Rightarrow> EspNowProtocolRuntime \<Rightarrow> bool \<times> EspNowProtocolRuntime" where
  "runtime_configure local_boot_id rt =
     (if local_boot_id = 0 \<or> rt_local_boot_id rt \<noteq> 0 \<or> rt_assembling rt \<or>
         rt_application_message_ready rt \<or> rt_delivery_ack_ready rt \<or> rt_application_ack_ready rt
      then (False, rt)
      else (True, rt\<lparr>rt_local_boot_id := local_boot_id\<rparr>))"

text \<open>The bytes \<open>complete_data\<close> and \<open>complete_size\<close> give together.\<close>

definition complete_span :: "EspNowFrameReassembler \<Rightarrow> span" where
  "complete_span r = map_option (take (complete_size r)) (complete_data r)"

definition accept_delivery_ack ::
    "EspNowProtocolRuntime \<Rightarrow> EspNowProtocolAcceptResult \<times> EspNowProtocolRuntime" where
  "accept_delivery_ack rt =
     (let released = rt\<lparr>rt_reassembler := release_complete (rt_reassembler rt)\<rparr> in
      case ack_decode (complete_span (rt_reassembler rt)) of
        None \<Rightarrow> (INVALID_FRAME, released\<lparr>rt_invalid_frame_count := rt_invalid_frame_count rt + 1\<rparr>)
      | Some decoded \<Rightarrow>
          if rt_delivery_ack_ready rt
          then (INVALID_FRAME, released\<lparr>rt_rejected_count := rt_rejected_count rt + 1\<rparr>)
          else (DELIVERY_ACK_READY, released\<lparr>rt_delivery_ack := decoded, rt_delivery_ack_ready := True\<rparr>))"

definition envelope_key :: "EspNowFrameEnvelope \<Rightarrow> EspNowDeliveryKey" where
  "envelope_key env =
     \<lparr>dk_source_boot_id = env_source_boot_id env, dk_transaction_id = env_transaction_id env,
      dk_sequence = env_sequence env\<rparr>"

definition accept_application_message ::
    "EspNowFrameEnvelope \<Rightarrow> EspNowProtocolRuntime \<Rightarrow> EspNowProtocolAcceptResult \<times> EspNowProtocolRuntime" where
  "accept_application_message envelope rt =
     (let released = rt\<lparr>rt_reassembler := release_complete (rt_reassembler rt)\<rparr> in
      if env_flags envelope AND FLAG_ACK_REQUIRED = 0
      then (INVALID_FRAME, released\<lparr>rt_invalid_frame_count := rt_invalid_frame_count rt + 1\<rparr>)
      else
        (let key = envelope_key envelope;
             (status, result, rt1) =
               (if cache_contains key (rt_duplicates rt)
                then (EspNowAckStatus.DUPLICATE, DUPLICATE_ACK_READY,
                      released\<lparr>rt_duplicate_count := rt_duplicate_count rt + 1\<rparr>)
                else if \<not> rt_application_message_ready rt \<and> env_kind envelope \<noteq> EspNowFrameKind.ACK
                then (ACCEPTED, APPLICATION_MESSAGE_READY,
                      rt\<lparr>rt_application_peer_index := rt_active_peer_index rt,
                         rt_application_message_ready := True,
                         rt_duplicates := snd (cache_observe key (rt_duplicates rt))\<rparr>)
                else (EspNowAckStatus.REJECTED, REJECTED_ACK_READY,
                      released\<lparr>rt_rejected_count := rt_rejected_count rt + 1\<rparr>))
         in (result,
             rt1\<lparr>rt_application_ack :=
                   \<lparr>pa_peer_index = rt_active_peer_index rt1,
                    pa_payload = \<lparr>ack_acknowledged = key, ack_status = status\<rparr>\<rparr>,
                 rt_application_ack_ready := True\<rparr>)))"

text \<open>First part of \<open>accept\<close>: give the frame to the reassembler, dropping a partial assembly of
  another peer, and once more after a reset when the frame starts another message.\<close>

definition drop_assembly :: "EspNowProtocolRuntime \<Rightarrow> EspNowProtocolRuntime" where
  "drop_assembly rt =
     rt\<lparr>rt_reassembler := reassembler_reset (rt_reassembler rt), rt_assembling := False\<rparr>"

definition runtime_reassemble ::
    "EspNowReceivedFrame \<Rightarrow> EspNowProtocolRuntime \<Rightarrow> bool \<times> EspNowProtocolRuntime" where
  "runtime_reassemble received rt =
     (let rt1 = (if rt_assembling rt \<and> rf_peer_index received \<noteq> rt_active_peer_index rt
                 then drop_assembly rt else rt);
          (ok, r1) = reassembler_accept (Some (rf_frame received)) (rt_reassembler rt1);
          rt2 = rt1\<lparr>rt_reassembler := r1\<rparr>
      in if ok then (True, rt2)
         else if ra_last_error r1 \<noteq> CORRELATION_MISMATCH then (False, rt2)
         else
           (let rt3 = drop_assembly rt2;
                (ok2, r2) = reassembler_accept (Some (rf_frame received)) (rt_reassembler rt3)
            in (ok2, rt3\<lparr>rt_reassembler := r2\<rparr>)))"

text \<open>Second part: what a complete message becomes.\<close>

definition runtime_complete ::
    "EspNowProtocolRuntime \<Rightarrow> EspNowProtocolAcceptResult \<times> EspNowProtocolRuntime" where
  "runtime_complete rt =
     (let rt1 = rt\<lparr>rt_assembling := False\<rparr> in
      case validate_complete (rt_reassembler rt1) of
        (False, r) \<Rightarrow>
          (INVALID_FRAME, rt1\<lparr>rt_reassembler := r, rt_invalid_frame_count := rt_invalid_frame_count rt1 + 1\<rparr>)
      | (True, r) \<Rightarrow>
          (let rt2 = rt1\<lparr>rt_reassembler := r\<rparr> in
           case complete_envelope r of
             None \<Rightarrow> (INVALID_FRAME, rt2)
           | Some envelope \<Rightarrow>
               if env_kind envelope = EspNowFrameKind.ACK then accept_delivery_ack rt2
               else accept_application_message envelope rt2))"

definition runtime_accept ::
    "EspNowReceivedFrame \<Rightarrow> EspNowProtocolRuntime \<Rightarrow> EspNowProtocolAcceptResult \<times> EspNowProtocolRuntime" where
  "runtime_accept received rt =
     (if rt_local_boot_id rt = 0 \<or> rf_frame received = [] then (INVALID_FRAME, rt)
      else if rt_application_message_ready rt \<or> rt_application_ack_ready rt
      then (INVALID_FRAME, rt\<lparr>rt_rejected_count := rt_rejected_count rt + 1\<rparr>)
      else
        (let (ok, rt1) = runtime_reassemble received rt in
         if \<not> ok then (INVALID_FRAME, rt1)
         else
           (let rt2 = (if \<not> rt_assembling rt1
                       then rt1\<lparr>rt_active_peer_index := rf_peer_index received\<rparr> else rt1)
            in if \<not> reassembler_complete (rt_reassembler rt2)
               then (FRAGMENT_ACCEPTED, rt2\<lparr>rt_assembling := True\<rparr>)
               else runtime_complete rt2)))"

definition peek_application_message :: "EspNowProtocolRuntime \<Rightarrow> EspNowInboundApplicationMessage option" where
  "peek_application_message rt =
     (if \<not> rt_application_message_ready rt then None
      else case complete_envelope (rt_reassembler rt) of
        None \<Rightarrow> None
      | Some envelope \<Rightarrow>
          (case bytes_assign MAX_MESSAGE_SIZE (complete_data (rt_reassembler rt))
                  (complete_size (rt_reassembler rt)) of
             (False, _) \<Rightarrow> None
           | (True, data) \<Rightarrow>
               Some \<lparr>im_peer_index = rt_application_peer_index rt,
                     im_message = \<lparr>rm_envelope = envelope, rm_data = data\<rparr>\<rparr>))"

definition take_application_message ::
    "EspNowProtocolRuntime \<Rightarrow> EspNowInboundApplicationMessage option \<times> EspNowProtocolRuntime" where
  "take_application_message rt =
     (case peek_application_message rt of
        None \<Rightarrow> (None, rt)
      | Some message \<Rightarrow>
          (Some message,
           rt\<lparr>rt_reassembler := release_complete (rt_reassembler rt),
              rt_application_message_ready := False\<rparr>))"

definition application_message_kind :: "EspNowProtocolRuntime \<Rightarrow> EspNowFrameKind" where
  "application_message_kind rt =
     (if \<not> rt_application_message_ready rt then EspNowFrameKind.ACK
      else case complete_envelope (rt_reassembler rt) of
        None \<Rightarrow> EspNowFrameKind.ACK | Some envelope \<Rightarrow> env_kind envelope)"

definition application_message_transaction_id :: "EspNowProtocolRuntime \<Rightarrow> TransactionId" where
  "application_message_transaction_id rt =
     (if \<not> rt_application_message_ready rt then 0
      else case complete_envelope (rt_reassembler rt) of
        None \<Rightarrow> 0 | Some envelope \<Rightarrow> env_transaction_id envelope)"

definition application_message_peer_index :: "EspNowProtocolRuntime \<Rightarrow> PeerIndex" where
  "application_message_peer_index rt =
     (if rt_application_message_ready rt then rt_application_peer_index rt else INVALID_PEER_INDEX)"

definition take_delivery_ack ::
    "EspNowProtocolRuntime \<Rightarrow> EspNowAckPayload option \<times> EspNowProtocolRuntime" where
  "take_delivery_ack rt =
     (if \<not> rt_delivery_ack_ready rt then (None, rt)
      else (Some (rt_delivery_ack rt), rt\<lparr>rt_delivery_ack_ready := False\<rparr>))"

definition take_application_ack ::
    "EspNowProtocolRuntime \<Rightarrow> EspNowPendingApplicationAck option \<times> EspNowProtocolRuntime" where
  "take_application_ack rt =
     (if \<not> rt_application_ack_ready rt then (None, rt)
      else (Some (rt_application_ack rt), rt\<lparr>rt_application_ack_ready := False\<rparr>))"

subsection \<open>Vocabulary of the proofs\<close>

datatype runtime_event =
    RConfigure u64 | RAccept EspNowReceivedFrame | RTakeMessage | RTakeDeliveryAck | RTakeApplicationAck

fun runtime_step :: "runtime_event \<Rightarrow> EspNowProtocolRuntime \<Rightarrow> EspNowProtocolRuntime" where
  "runtime_step (RConfigure b) rt = snd (runtime_configure b rt)"
| "runtime_step (RAccept f) rt = snd (runtime_accept f rt)"
| "runtime_step RTakeMessage rt = snd (take_application_message rt)"
| "runtime_step RTakeDeliveryAck rt = snd (take_delivery_ack rt)"
| "runtime_step RTakeApplicationAck rt = snd (take_application_ack rt)"

text \<open>A message held for the application is complete, checked, not an acknowledgement and
  remembered in the cache; otherwise the reassembler holds a partial message exactly while
  \<open>assembling_\<close> is set.\<close>

definition message_held :: "EspNowProtocolRuntime \<Rightarrow> bool" where
  "message_held rt \<longleftrightarrow>
     reassembler_complete (rt_reassembler rt) \<and> \<not> rt_assembling rt \<and>
     crc32 (take (unat (ra_message_size (rt_reassembler rt))) (ra_message (rt_reassembler rt))) =
       ra_checksum (rt_reassembler rt) \<and>
     env_kind (ra_envelope (rt_reassembler rt)) \<noteq> EspNowFrameKind.ACK \<and>
     cache_contains (envelope_key (ra_envelope (rt_reassembler rt))) (rt_duplicates rt)"

definition assembly_ok :: "bool \<Rightarrow> EspNowFrameReassembler \<Rightarrow> bool" where
  "assembly_ok assembling r \<longleftrightarrow>
     reassembler_inv r \<and>
     (if assembling then ra_received_mask r \<noteq> 0 \<and> \<not> reassembler_complete r else ra_received_mask r = 0)"

definition runtime_inv :: "EspNowProtocolRuntime \<Rightarrow> bool" where
  "runtime_inv rt \<longleftrightarrow>
     reassembler_inv (rt_reassembler rt) \<and> cache_inv (rt_duplicates rt) \<and>
     (if rt_application_message_ready rt then message_held rt
      else assembly_ok (rt_assembling rt) (rt_reassembler rt)) \<and>
     (rt_application_ack_ready rt \<longrightarrow>
        DeliveryIdentity_valid (ack_acknowledged (pa_payload (rt_application_ack rt)))) \<and>
     (rt_delivery_ack_ready rt \<longrightarrow> DeliveryIdentity_valid (ack_acknowledged (rt_delivery_ack rt)))"

definition received_from :: "u8 \<Rightarrow> bytes \<Rightarrow> EspNowReceivedFrame" where
  "received_from peer f = \<lparr>rf_peer_index = peer, rf_frame = f, rf_rssi = 0, rf_channel = 0\<rparr>"

definition accept_frames :: "u8 \<Rightarrow> bytes list \<Rightarrow> EspNowProtocolRuntime \<Rightarrow> EspNowProtocolRuntime" where
  "accept_frames peer fs rt = fold (\<lambda>f rt. snd (runtime_accept (received_from peer f) rt)) fs rt"

text \<open>The runtime can take a frame: it is configured and nothing waits to be collected.\<close>

definition runtime_open :: "EspNowProtocolRuntime \<Rightarrow> bool" where
  "runtime_open rt \<longleftrightarrow>
     rt_local_boot_id rt \<noteq> 0 \<and> \<not> rt_application_message_ready rt \<and> \<not> rt_application_ack_ready rt"

text \<open>Part of a message from one peer is held, or all of it just arrived.\<close>

definition collecting ::
    "EspNowFrameEnvelope \<Rightarrow> bytes \<Rightarrow> u8 \<Rightarrow> u8 set \<Rightarrow> EspNowProtocolRuntime \<Rightarrow> bool" where
  "collecting env m peer S rt \<longleftrightarrow>
     runtime_open rt \<and> rt_assembling rt \<and> rt_active_peer_index rt = peer \<and>
     holds_fragments env m S (rt_reassembler rt) \<and> S \<noteq> {} \<and> S \<noteq> {i. i < fragment_count (length m)}"

definition collected :: "EspNowFrameEnvelope \<Rightarrow> bytes \<Rightarrow> u8 \<Rightarrow> EspNowProtocolRuntime \<Rightarrow> bool" where
  "collected env m peer rt \<longleftrightarrow>
     runtime_open rt \<and> \<not> rt_assembling rt \<and> rt_active_peer_index rt = peer \<and>
     holds_fragments env m {i. i < fragment_count (length m)} (rt_reassembler rt)"

subsection \<open>The invariant\<close>

lemma reset_fields [simp]:
  "ra_received_mask (reassembler_reset r) = 0" "ra_message (reassembler_reset r) = ra_message r"
  "\<not> reassembler_complete (reassembler_reset r)"
  by (simp_all add: reassembler_reset_def reassembler_complete_def)

lemma complete_last_error [simp]:
  "reassembler_complete (r\<lparr>ra_last_error := e\<rparr>) = reassembler_complete r"
  by (simp add: reassembler_complete_def)

lemma released_complete:
  "reassembler_inv r \<Longrightarrow> reassembler_complete r \<Longrightarrow> ra_received_mask (release_complete r) = 0"
  by (simp add: release_complete_def)

lemma assembly_ok_error [simp]: "assembly_ok b (r\<lparr>ra_last_error := e\<rparr>) = assembly_ok b r"
  by (simp add: assembly_ok_def)

lemma assembly_ok_reset: "reassembler_inv r \<Longrightarrow> assembly_ok False (reassembler_reset r)"
  by (simp add: assembly_ok_def reassembler_reset_inv)

text \<open>What the first part of \<open>accept\<close> can do: only the reassembler and \<open>assembling_\<close> change;
  after a failure they still agree, after a success at least one fragment is held.\<close>

lemma runtime_reassemble_cases:
  assumes "assembly_ok (rt_assembling rt) (rt_reassembler rt)"
    and "runtime_reassemble received rt = (ok, rt1)"
  shows "rt1 = rt\<lparr>rt_reassembler := rt_reassembler rt1, rt_assembling := rt_assembling rt1\<rparr> \<and>
    reassembler_inv (rt_reassembler rt1) \<and>
    (if ok then ra_received_mask (rt_reassembler rt1) \<noteq> 0
     else assembly_ok (rt_assembling rt1) (rt_reassembler rt1))"
proof -
  let ?f = "Some (rf_frame received)"
  let ?dropped = "rt_assembling rt \<and> rf_peer_index received \<noteq> rt_active_peer_index rt"
  define rt' where "rt' = (if ?dropped then drop_assembly rt else rt)"
  have "rt = rt\<lparr>rt_reassembler := rt_reassembler rt, rt_assembling := rt_assembling rt\<rparr>" by simp
  then obtain r asm where shape: "rt' = rt\<lparr>rt_reassembler := r, rt_assembling := asm\<rparr>"
    unfolding rt'_def drop_assembly_def by (metis (full_types))
  have rt': "assembly_ok (rt_assembling rt') (rt_reassembler rt')"
    using assms(1) assembly_ok_reset unfolding rt'_def
    by (auto simp: drop_assembly_def assembly_ok_def [of "rt_assembling rt"])
  obtain ok1 r1 where a1: "reassembler_accept ?f (rt_reassembler rt') = (ok1, r1)" by force
  have inv1: "reassembler_inv r1"
    using reassembler_accept_inv [of "rt_reassembler rt'" ?f] rt' a1 by (simp add: assembly_ok_def)
  obtain ok2 r2 where a2: "reassembler_accept ?f (reassembler_reset r1) = (ok2, r2)" by force
  have inv2: "reassembler_inv r2"
    using reassembler_accept_inv [OF reassembler_reset_inv [OF inv1], of ?f] a2 by simp
  have res: "(ok, rt1) =
      (if ok1 then (True, rt'\<lparr>rt_reassembler := r1\<rparr>)
       else if ra_last_error r1 \<noteq> CORRELATION_MISMATCH then (False, rt'\<lparr>rt_reassembler := r1\<rparr>)
       else (ok2, rt'\<lparr>rt_reassembler := r2, rt_assembling := False\<rparr>))"
    using assms(2) a1 a2
    by (auto simp: runtime_reassemble_def Let_def rt'_def drop_assembly_def split: if_splits prod.splits)
  have keep1: "assembly_ok (rt_assembling rt') r1" if "\<not> ok1"
    using that accept_refused [of ?f "rt_reassembler rt'" r1] a1 rt' by auto
  have keep2: "assembly_ok False r2" if "\<not> ok2"
    using that accept_refused [of ?f "reassembler_reset r1" r2] a2 assembly_ok_reset [OF inv1] by auto
  have new1: "ra_received_mask r1 \<noteq> 0" if ok1 using that accept_stored a1 by auto
  have new2: "ra_received_mask r2 \<noteq> 0" if ok2 using that accept_stored a2 by auto
  show ?thesis
    using res keep1 keep2 new1 new2 inv1 inv2 unfolding shape
    by (auto split: if_splits)
qed

lemma envelope_key_valid: "envelope_ok env \<Longrightarrow> DeliveryIdentity_valid (envelope_key env)"
  by (simp add: envelope_ok_def envelope_key_def DeliveryIdentity_valid_def)

lemma ack_decode_valid: "ack_decode d = Some a \<Longrightarrow> DeliveryIdentity_valid (ack_acknowledged a)"
  by (auto simp: ack_decode_def Let_def split: option.splits if_splits)

lemma cache_observe_contains:
  assumes "cache_inv c" and "DeliveryIdentity_valid k"
  shows "cache_contains k (snd (cache_observe k c))"
  using cache_observe_window [OF assms(1), of k] assms(2)
    cache_contains_window [of "snd (cache_observe k c)" k]
  by (auto simp: window_observe_def)

text \<open>A complete message leaves a consistent runtime whatever it turns out to be.\<close>

lemma runtime_complete_inv:
  assumes "reassembler_inv (rt_reassembler rt)" and "reassembler_complete (rt_reassembler rt)"
    and "\<not> rt_application_message_ready rt" and "\<not> rt_application_ack_ready rt"
    and "cache_inv (rt_duplicates rt)"
    and "rt_delivery_ack_ready rt \<longrightarrow> DeliveryIdentity_valid (ack_acknowledged (rt_delivery_ack rt))"
  shows "runtime_inv (snd (runtime_complete rt))"
proof (cases "validate_complete (rt_reassembler rt)")
  case (Pair ok r)
  note inv_r = validate_complete_inv [OF assms(1), unfolded Pair, simplified]
  show ?thesis
  proof (cases ok)
    case False
    then have "ra_received_mask r = 0" using Pair assms(2) by (auto simp: validate_complete_def split: if_splits)
    then show ?thesis
      using False Pair inv_r assms by (simp add: runtime_complete_def runtime_inv_def assembly_ok_def)
  next
    case True
    then have r: "r = rt_reassembler rt"
      and crc: "crc32 (take (unat (ra_message_size r)) (ra_message r)) = ra_checksum r"
      using Pair assms(2) by (auto simp: validate_complete_def split: if_splits)
    have env: "complete_envelope r = Some (ra_envelope r)" using assms(2) r by (simp add: complete_envelope_def)
    have rel: "assembly_ok False (release_complete r)"
      using assms(1,2) r by (simp add: assembly_ok_def release_complete_inv released_complete)
    have key: "DeliveryIdentity_valid (envelope_key (ra_envelope r))"
      using complete_size_bounds [OF assms(1,2)] r by (simp add: envelope_key_valid)
    note cache = cache_observe_window [OF assms(5), of "envelope_key (ra_envelope r)"]
      cache_observe_contains [OF assms(5) key]
    show ?thesis
    proof (cases "env_kind (ra_envelope r) = EspNowFrameKind.ACK")
      case ack: True
      have "runtime_complete rt = accept_delivery_ack (rt\<lparr>rt_assembling := False, rt_reassembler := r\<rparr>)"
        using True Pair env ack by (simp add: runtime_complete_def)
      then show ?thesis
        using rel assms ack_decode_valid [of "complete_span r"]
        by (auto simp: accept_delivery_ack_def runtime_inv_def assembly_ok_def Let_def split: option.splits)
    next
      case msg: False
      have "runtime_complete rt =
          accept_application_message (ra_envelope r) (rt\<lparr>rt_assembling := False, rt_reassembler := r\<rparr>)"
        using True Pair env msg by (simp add: runtime_complete_def)
      then show ?thesis
        using rel assms r crc key msg cache
        by (auto simp: accept_application_message_def runtime_inv_def assembly_ok_def message_held_def Let_def)
    qed
  qed
qed

lemma runtime_accept_inv:
  assumes "runtime_inv rt"
  shows "runtime_inv (snd (runtime_accept received rt))"
proof (cases "runtime_open rt \<and> rf_frame received \<noteq> []")
  case False
  then show ?thesis
    using assms by (auto simp: runtime_accept_def runtime_open_def runtime_inv_def message_held_def)
next
  case True
  then have asm: "assembly_ok (rt_assembling rt) (rt_reassembler rt)"
    using assms by (simp add: runtime_inv_def runtime_open_def)
  obtain ok rt1 where re: "runtime_reassemble received rt = (ok, rt1)" by force
  obtain r a where rt1: "rt1 = rt\<lparr>rt_reassembler := r, rt_assembling := a\<rparr>" and inv: "reassembler_inv r"
    and ok: "if ok then ra_received_mask r \<noteq> 0 else assembly_ok a r"
    using runtime_reassemble_cases [OF asm re] by blast
  define rt2 where "rt2 = (if \<not> rt_assembling rt1
      then rt1\<lparr>rt_active_peer_index := rf_peer_index received\<rparr> else rt1)"
  have acc: "runtime_accept received rt =
      (if \<not> ok then (INVALID_FRAME, rt1)
       else if \<not> reassembler_complete (rt_reassembler rt2)
       then (FRAGMENT_ACCEPTED, rt2\<lparr>rt_assembling := True\<rparr>) else runtime_complete rt2)"
    using True re by (simp add: runtime_accept_def runtime_open_def rt2_def Let_def)
  consider (refused) "\<not> ok" | (partial) "ok" "\<not> reassembler_complete r" | (complete) "ok" "reassembler_complete r"
    by auto
  then show ?thesis
  proof cases
    case refused
    then show ?thesis using acc ok rt1 assms True inv by (simp add: runtime_inv_def runtime_open_def)
  next
    case partial
    then show ?thesis
      using acc ok rt1 assms True inv by (auto simp: runtime_inv_def runtime_open_def rt2_def assembly_ok_def)
  next
    case complete
    then have "runtime_accept received rt = runtime_complete rt2" using acc rt1 by (simp add: rt2_def)
    moreover have "runtime_inv (snd (runtime_complete rt2))"
      using complete rt1 assms True inv
      by (intro runtime_complete_inv) (simp_all add: rt2_def runtime_inv_def runtime_open_def)
    ultimately show ?thesis by simp
  qed
qed

lemma peek_held:
  assumes "runtime_inv rt" and "rt_application_message_ready rt"
  shows "peek_application_message rt =
    Some \<lparr>im_peer_index = rt_application_peer_index rt,
          im_message = \<lparr>rm_envelope = ra_envelope (rt_reassembler rt),
            rm_data = take (unat (ra_message_size (rt_reassembler rt))) (ra_message (rt_reassembler rt))\<rparr>\<rparr>"
proof -
  have c: "reassembler_complete (rt_reassembler rt)"
    using assms by (simp add: runtime_inv_def message_held_def)
  then have "unat (ra_message_size (rt_reassembler rt)) \<le> 640"
    using assms complete_size_bounds by (auto simp: runtime_inv_def)
  then show ?thesis
    using c assms(2)
    by (simp add: peek_application_message_def complete_envelope_def complete_data_def complete_size_def
        bytes_assign_take)
qed

lemma take_application_message_inv:
  assumes "runtime_inv rt"
  shows "runtime_inv (snd (take_application_message rt))"
proof (cases "rt_application_message_ready rt")
  case True
  then have "reassembler_complete (rt_reassembler rt)" "reassembler_inv (rt_reassembler rt)" "\<not> rt_assembling rt"
    using assms by (auto simp: runtime_inv_def message_held_def)
  then show ?thesis
    using assms True
    by (simp add: take_application_message_def peek_held runtime_inv_def assembly_ok_def
        release_complete_inv released_complete)
qed (use assms in \<open>simp add: take_application_message_def peek_application_message_def\<close>)

lemma runtime_collect_inv:
  "runtime_inv rt \<Longrightarrow> runtime_inv (snd (runtime_configure b rt))"
  "runtime_inv rt \<Longrightarrow> runtime_inv (snd (take_delivery_ack rt))"
  "runtime_inv rt \<Longrightarrow> runtime_inv (snd (take_application_ack rt))"
  by (auto simp: runtime_configure_def take_delivery_ack_def take_application_ack_def runtime_inv_def
      message_held_def)

interpretation runtime_machine: invariant_machine "runtime_init boot" runtime_step runtime_inv
  for boot
proof
  show "runtime_inv (runtime_init boot)"
    by (simp add: runtime_inv_def runtime_init_def reassembler_init_inv cache_init_inv assembly_ok_def)
      (simp add: reassembler_init_def)
  show "runtime_inv (runtime_step e rt)" if "runtime_inv rt" for e rt
    using that
    by (cases e) (auto intro: runtime_accept_inv take_application_message_inv runtime_collect_inv)
qed

subsection \<open>A message arriving as frames\<close>

lemma frame_of_nonempty [simp]: "frame_of env m i \<noteq> []"
  by (simp add: frame_of_def encode_header_def put_u16_def)

lemma accept_start:
  assumes "envelope_ok env" and "i < fragment_count (length m)"
    and "length (ra_message r) = MAX_MESSAGE_SIZE" and "ra_received_mask r = 0"
  shows "\<exists>r'. reassembler_accept (Some (frame_of env m i)) r = (True, r') \<and> holds_fragments env m {i} r'"
  using accept_fragment [OF assms(1,2) holds_fragments_empty [OF assms(3,4)]]
  by (cases "reassembler_accept (Some (frame_of env m i)) r") auto

text \<open>A frame of a message the runtime is not assembling starts that message, whatever was
  being assembled before.\<close>

lemma reassemble_start:
  assumes "assembly_ok (rt_assembling rt) (rt_reassembler rt)"
    and "envelope_ok env" and i: "i < fragment_count (length m)"
    and fresh: "rt_assembling rt \<longrightarrow> rt_active_peer_index rt \<noteq> peer \<or> ra_envelope (rt_reassembler rt) \<noteq> env"
  shows "\<exists>r. runtime_reassemble (received_from peer (frame_of env m i)) rt =
      (True, rt\<lparr>rt_reassembler := r, rt_assembling := False\<rparr>) \<and> holds_fragments env m {i} r"
proof -
  let ?r = "rt_reassembler rt"
  have len: "length (ra_message ?r) = 640" using assms(1) by (simp add: assembly_ok_def reassembler_inv_def)
  have h: "parse_frame (Some (frame_of env m i)) =
      Inr \<lparr>fh_envelope = env, fh_index = i, fh_count = fragment_count (length m),
           fh_message_size = of_nat (length m),
           fh_fragment_size = of_nat (fragment_bytes (length m) i), fh_checksum = crc32 m\<rparr>"
    using parse_encoded [OF assms(2) i] by (simp add: frame_of_def)
  consider (idle) "\<not> rt_assembling rt" | (peer) "rt_assembling rt" "rt_active_peer_index rt \<noteq> peer"
    | (other) "rt_assembling rt" "rt_active_peer_index rt = peer" "ra_envelope ?r \<noteq> env"
    using fresh by auto
  then show ?thesis
  proof cases
    case idle
    then have "ra_received_mask ?r = 0" using assms(1) by (simp add: assembly_ok_def)
    then obtain r' where "reassembler_accept (Some (frame_of env m i)) ?r = (True, r')"
      and "holds_fragments env m {i} r'"
      using accept_start [OF assms(2) i len] by blast
    moreover have "rt\<lparr>rt_reassembler := r'\<rparr> = rt\<lparr>rt_reassembler := r', rt_assembling := False\<rparr>"
      using idle by (cases rt) simp
    ultimately show ?thesis
      using idle by (intro exI [of _ r']) (simp add: runtime_reassemble_def received_from_def)
  next
    case peer
    obtain r' where "reassembler_accept (Some (frame_of env m i)) (reassembler_reset ?r) = (True, r')"
      and "holds_fragments env m {i} r'"
      using accept_start [OF assms(2) i, of "reassembler_reset ?r"] len by auto
    then show ?thesis
      using peer by (intro exI [of _ r']) (simp add: runtime_reassemble_def received_from_def drop_assembly_def)
  next
    case other
    then have "ra_received_mask ?r \<noteq> 0" using assms(1) by (simp add: assembly_ok_def)
    moreover have "\<not> frame_matches \<lparr>fh_envelope = env, fh_index = i, fh_count = fragment_count (length m),
        fh_message_size = of_nat (length m), fh_fragment_size = of_nat (fragment_bytes (length m) i),
        fh_checksum = crc32 m\<rparr> ?r"
      using other(3) by (auto simp: frame_matches_def)
    ultimately have first: "reassembler_accept (Some (frame_of env m i)) ?r =
        (False, ?r\<lparr>ra_last_error := CORRELATION_MISMATCH\<rparr>)"
      using h by (simp add: reassembler_accept_def reassembler_fail_def)
    let ?r1 = "reassembler_reset (?r\<lparr>ra_last_error := CORRELATION_MISMATCH\<rparr>)"
    obtain r' where "reassembler_accept (Some (frame_of env m i)) ?r1 = (True, r')"
      and "holds_fragments env m {i} r'"
      using accept_start [OF assms(2) i, of ?r1] len by auto
    then show ?thesis
      using other first
      by (intro exI [of _ r']) (simp add: runtime_reassemble_def received_from_def drop_assembly_def)
  qed
qed

lemma reassemble_continue:
  assumes "collecting env m peer S rt" and "envelope_ok env" and "i < fragment_count (length m)"
  shows "\<exists>r. runtime_reassemble (received_from peer (frame_of env m i)) rt = (True, rt\<lparr>rt_reassembler := r\<rparr>) \<and>
    holds_fragments env m (insert i S) r"
proof -
  have "holds_fragments env m S (rt_reassembler rt)" using assms(1) by (simp add: collecting_def)
  from accept_fragment [OF assms(2,3) this]
  obtain r where "reassembler_accept (Some (frame_of env m i)) (rt_reassembler rt) = (True, r)"
    and "holds_fragments env m (insert i S) r"
    by (cases "reassembler_accept (Some (frame_of env m i)) (rt_reassembler rt)") auto
  then show ?thesis
    using assms(1) by (auto simp: runtime_reassemble_def received_from_def collecting_def)
qed

lemma complete_collected:
  assumes "holds_fragments env m {i. i < fragment_count (length m)} (rt_reassembler rt)"
    and "0 < length m" and "length m \<le> MAX_MESSAGE_SIZE" and "env_kind env \<noteq> EspNowFrameKind.ACK"
  shows "runtime_complete rt = accept_application_message env (rt\<lparr>rt_assembling := False\<rparr>)"
proof -
  have ne: "{i. i < fragment_count (length m)} \<noteq> {}"
    using fragment_count_nonzero_iff [of "length m"] assms(2,3) by (auto simp: word_gt_0 intro!: exI [of _ 0])
  have "reassembler_complete (rt_reassembler rt)" using complete_iff_all_fragments [OF assms(1) ne] by simp
  moreover have "ra_envelope (rt_reassembler rt) = env" using assms(1) ne by (auto simp: holds_fragments_def)
  ultimately show ?thesis
    using take_all_fragments(1) [OF assms(1-3)] assms(4)
    by (simp add: runtime_complete_def complete_envelope_def)
qed

lemma all_fragments_nonempty:
  "0 < length m \<Longrightarrow> length m \<le> MAX_MESSAGE_SIZE \<Longrightarrow> {i. i < fragment_count (length m)} \<noteq> {}"
  using fragment_count_nonzero_iff [of "length m"] by (auto simp: word_gt_0 intro!: exI [of _ 0])

text \<open>One more frame of the message: either more are needed or the message is handed on.\<close>

lemma accept_one_frame:
  assumes re: "runtime_reassemble (received_from peer (frame_of env m i)) rt =
      (True, rt\<lparr>rt_reassembler := r, rt_assembling := a\<rparr>)"
    and "holds_fragments env m (insert i S) r" and "runtime_open rt"
    and "a \<longrightarrow> rt_active_peer_index rt = peer"
    and m: "0 < length m" "length m \<le> MAX_MESSAGE_SIZE" and kind: "env_kind env \<noteq> EspNowFrameKind.ACK"
  defines "rt' \<equiv> rt\<lparr>rt_reassembler := r, rt_active_peer_index := peer\<rparr>"
  shows "insert i S \<noteq> {i. i < fragment_count (length m)} \<Longrightarrow>
      runtime_accept (received_from peer (frame_of env m i)) rt =
        (FRAGMENT_ACCEPTED, rt'\<lparr>rt_assembling := True\<rparr>) \<and>
      collecting env m peer (insert i S) (rt'\<lparr>rt_assembling := True\<rparr>)"
    and "insert i S = {i. i < fragment_count (length m)} \<Longrightarrow>
      runtime_accept (received_from peer (frame_of env m i)) rt =
        accept_application_message env (rt'\<lparr>rt_assembling := False\<rparr>) \<and>
      collected env m peer (rt'\<lparr>rt_assembling := False\<rparr>)"
proof -
  let ?rt1 = "rt\<lparr>rt_reassembler := r, rt_assembling := a\<rparr>"
  define rt2 where "rt2 = (if \<not> a then ?rt1\<lparr>rt_active_peer_index := peer\<rparr> else ?rt1)"
  have rt2: "rt2 = rt'\<lparr>rt_assembling := a\<rparr>"
    using assms(4) unfolding rt2_def rt'_def by (cases rt) auto
  have comp: "reassembler_complete r \<longleftrightarrow> insert i S = {i. i < fragment_count (length m)}"
    by (rule complete_iff_all_fragments [OF assms(2)]) simp
  have acc: "runtime_accept (received_from peer (frame_of env m i)) rt =
      (if \<not> reassembler_complete r then (FRAGMENT_ACCEPTED, rt2\<lparr>rt_assembling := True\<rparr>)
       else runtime_complete rt2)"
    using assms(3) re by (simp add: runtime_accept_def runtime_open_def rt2_def received_from_def Let_def)
  show "runtime_accept (received_from peer (frame_of env m i)) rt =
        (FRAGMENT_ACCEPTED, rt'\<lparr>rt_assembling := True\<rparr>) \<and>
      collecting env m peer (insert i S) (rt'\<lparr>rt_assembling := True\<rparr>)"
    if "insert i S \<noteq> {i. i < fragment_count (length m)}"
    using that acc comp assms(2,3) rt2
    by (simp add: collecting_def runtime_open_def rt'_def)
  show "runtime_accept (received_from peer (frame_of env m i)) rt =
        accept_application_message env (rt'\<lparr>rt_assembling := False\<rparr>) \<and>
      collected env m peer (rt'\<lparr>rt_assembling := False\<rparr>)"
    if "insert i S = {i. i < fragment_count (length m)}"
    using that acc comp assms(2,3) rt2
      complete_collected [of env m rt2, OF _ m kind]
    by (simp add: collected_def runtime_open_def rt'_def)
qed

lemma accept_frames_simps [simp]:
  "accept_frames peer [] rt = rt"
  "accept_frames peer (f # fs) rt = accept_frames peer fs (snd (runtime_accept (received_from peer f) rt))"
  by (simp_all add: accept_frames_def)

lemma accept_rest:
  assumes "envelope_ok env" and "0 < length m" and "length m \<le> MAX_MESSAGE_SIZE"
    and "env_kind env \<noteq> EspNowFrameKind.ACK"
  shows "\<lbrakk>collecting env m peer S rt; distinct is; set is \<inter> S = {};
      set is \<union> S = {i. i < fragment_count (length m)}\<rbrakk> \<Longrightarrow>
    \<exists>rt'. accept_frames peer (map (frame_of env m) is) rt = snd (accept_application_message env rt') \<and>
      collected env m peer rt' \<and> rt_duplicates rt' = rt_duplicates rt"
proof (induction "is" arbitrary: S rt)
  case Nil
  then show ?case by (simp add: collecting_def)
next
  case (Cons i "is")
  then have i: "i < fragment_count (length m)" by auto
  obtain r where r: "runtime_reassemble (received_from peer (frame_of env m i)) rt = (True, rt\<lparr>rt_reassembler := r\<rparr>)"
      "holds_fragments env m (insert i S) r"
    using reassemble_continue [OF Cons.prems(1) assms(1) i] by auto
  moreover have "rt\<lparr>rt_reassembler := r\<rparr> = rt\<lparr>rt_reassembler := r, rt_assembling := True\<rparr>"
    "runtime_open rt" "rt_active_peer_index rt = peer"
    using Cons.prems(1) by (auto simp: collecting_def)
  ultimately have re: "runtime_reassemble (received_from peer (frame_of env m i)) rt =
      (True, rt\<lparr>rt_reassembler := r, rt_assembling := True\<rparr>)" and op: "runtime_open rt"
      and act: "True \<longrightarrow> rt_active_peer_index rt = peer" by auto
  note one = accept_one_frame [OF re r(2) op act assms(2-4)]
  show ?case
  proof (cases "insert i S = {i. i < fragment_count (length m)}")
    case True
    then have "is = []" using Cons.prems(2-4) by (cases "is") auto
    then show ?thesis using one(2) [OF True] by auto
  next
    case False
    note step = one(1) [OF False]
    have "set is \<inter> insert i S = {}" "set is \<union> insert i S = {i. i < fragment_count (length m)}"
      using Cons.prems(2-4) by auto
    from Cons.IH [OF step [THEN conjunct2] _ this] show ?thesis using Cons.prems(2) step by simp
  qed
qed

text \<open>All frames of a message, each once and in any order, from one peer.\<close>

lemma accept_whole_message:
  assumes "runtime_inv rt" and "runtime_open rt" and "envelope_ok env" and "env_kind env \<noteq> EspNowFrameKind.ACK"
    and m: "0 < length m" "length m \<le> MAX_MESSAGE_SIZE"
    and "is": "distinct is" "set is = {i. i < fragment_count (length m)}"
    and fresh: "rt_assembling rt \<longrightarrow> rt_active_peer_index rt \<noteq> peer \<or> ra_envelope (rt_reassembler rt) \<noteq> env"
  shows "\<exists>rt'. accept_frames peer (map (frame_of env m) is) rt = snd (accept_application_message env rt') \<and>
      collected env m peer rt' \<and> rt_duplicates rt' = rt_duplicates rt"
proof -
  obtain i js where js: "is = i # js" using "is"(2) all_fragments_nonempty [OF m] by (cases "is") auto
  then have i: "i < fragment_count (length m)" using "is"(2) by auto
  have asm: "assembly_ok (rt_assembling rt) (rt_reassembler rt)"
    using assms(1,2) by (simp add: runtime_inv_def runtime_open_def)
  obtain r where r: "runtime_reassemble (received_from peer (frame_of env m i)) rt =
      (True, rt\<lparr>rt_reassembler := r, rt_assembling := False\<rparr>)" "holds_fragments env m (insert i {}) r"
    using reassemble_start [OF asm assms(3) i fresh] by auto
  note one = accept_one_frame [OF r assms(2) _ m assms(4), simplified]
  show ?thesis
  proof (cases "{i} = {i. i < fragment_count (length m)}")
    case True
    have "set (i # js) = {i}" using "is"(2) js True by simp
    then have "js = []" using "is"(1) js by (cases js) auto
    then show ?thesis using one(2) [OF True] js by auto
  next
    case False
    note step = one(1) [OF False]
    have "distinct js" "set js \<inter> {i} = {}" "set js \<union> {i} = {i. i < fragment_count (length m)}"
      using "is" js by auto
    from accept_rest [OF assms(3) m assms(4) step [THEN conjunct2] this]
    show ?thesis using step js by simp
  qed
qed

lemma collected_outcome:
  assumes "collected env m peer rt" and m: "0 < length m" "length m \<le> MAX_MESSAGE_SIZE"
    and "env_flags env AND FLAG_ACK_REQUIRED \<noteq> 0" and "env_kind env \<noteq> EspNowFrameKind.ACK"
  defines "rt' \<equiv> snd (accept_application_message env rt)"
  shows "rt_application_ack_ready rt' \<and> pa_peer_index (rt_application_ack rt') = peer \<and>
      ack_acknowledged (pa_payload (rt_application_ack rt')) = envelope_key env"
    and "cache_contains (envelope_key env) (rt_duplicates rt) \<Longrightarrow>
      \<not> rt_application_message_ready rt' \<and> ack_status (pa_payload (rt_application_ack rt')) = EspNowAckStatus.DUPLICATE"
    and "\<not> cache_contains (envelope_key env) (rt_duplicates rt) \<Longrightarrow>
      ack_status (pa_payload (rt_application_ack rt')) = ACCEPTED \<and>
      peek_application_message rt' =
        Some \<lparr>im_peer_index = peer, im_message = \<lparr>rm_envelope = env, rm_data = m\<rparr>\<rparr>"
proof -
  have held: "holds_fragments env m {i. i < fragment_count (length m)} (rt_reassembler rt)"
    and op: "runtime_open rt" and peer: "rt_active_peer_index rt = peer"
    using assms(1) by (auto simp: collected_def)
  note ne = all_fragments_nonempty [OF m]
  have comp: "reassembler_complete (rt_reassembler rt)" using complete_iff_all_fragments [OF held ne] by simp
  have hdr: "ra_envelope (rt_reassembler rt) = env" "unat (ra_message_size (rt_reassembler rt)) = length m"
    using held ne m by (auto simp: holds_fragments_def)
  have flag: "(env_flags env AND FLAG_ACK_REQUIRED = 0) = False" using assms(4) by simp
  show "rt_application_ack_ready rt' \<and> pa_peer_index (rt_application_ack rt') = peer \<and>
      ack_acknowledged (pa_payload (rt_application_ack rt')) = envelope_key env"
    unfolding rt'_def accept_application_message_def Let_def flag using peer by simp
  show "\<not> rt_application_message_ready rt' \<and> ack_status (pa_payload (rt_application_ack rt')) = EspNowAckStatus.DUPLICATE"
    if "cache_contains (envelope_key env) (rt_duplicates rt)"
    unfolding rt'_def accept_application_message_def Let_def flag
    using that op by (simp add: runtime_open_def)
  show "ack_status (pa_payload (rt_application_ack rt')) = ACCEPTED \<and>
      peek_application_message rt' =
        Some \<lparr>im_peer_index = peer, im_message = \<lparr>rm_envelope = env, rm_data = m\<rparr>\<rparr>"
    if "\<not> cache_contains (envelope_key env) (rt_duplicates rt)"
    unfolding rt'_def accept_application_message_def Let_def flag
    using that op peer comp hdr assms(5) m all_fragments_message [OF held m]
    by (simp add: runtime_open_def peek_application_message_def complete_envelope_def complete_data_def
        complete_size_def bytes_assign_take)
qed

subsection \<open>Properties\<close>

text \<open>C8 (safety): whatever frames arrive and however the client collects, a message offered to the
  application can always be taken, and what is taken is complete, of legal size, carries a
  valid identity, is no acknowledgement, and matches the checksum its sender computed; taking
  it frees the runtime for the next one.\<close>

theorem runtime_hands_over_checked_messages:
  assumes "rt = run_events runtime_step history (runtime_init boot)" and "rt_application_message_ready rt"
  shows "\<exists>im rt'. take_application_message rt = (Some im, rt') \<and> \<not> rt_application_message_ready rt' \<and>
    ra_received_mask (rt_reassembler rt') = 0 \<and>
    0 < length (rm_data (im_message im)) \<and> length (rm_data (im_message im)) \<le> MAX_MESSAGE_SIZE \<and>
    envelope_ok (rm_envelope (im_message im)) \<and> env_kind (rm_envelope (im_message im)) \<noteq> EspNowFrameKind.ACK \<and>
    crc32 (rm_data (im_message im)) = ra_checksum (rt_reassembler rt)"
proof -
  have inv: "runtime_inv rt" unfolding assms(1) by (rule runtime_machine.inv_run)
  then have held: "message_held rt" and r: "reassembler_inv (rt_reassembler rt)"
    using assms(2) by (auto simp: runtime_inv_def)
  have comp: "reassembler_complete (rt_reassembler rt)" using held by (simp add: message_held_def)
  note bounds = complete_size_bounds [OF r comp]
  have "length (ra_message (rt_reassembler rt)) = 640" using r by (simp add: reassembler_inv_def)
  then show ?thesis
    using bounds held peek_held [OF inv assms(2)] released_complete [OF r comp]
    by (auto simp: take_application_message_def message_held_def)
qed

text \<open>C7 (functional): an idle runtime that receives every frame of a message once, in any order,
  delivers exactly that message, attributed to the peer that sent it, and acknowledges it
  with \<open>ACCEPTED\<close>; if the identity was seen before it acknowledges with \<open>DUPLICATE\<close> and
  delivers nothing. An unfinished assembly of another message or another peer never gets in
  the way.\<close>

theorem runtime_receives_message:
  assumes "rt = run_events runtime_step history (runtime_init boot)" and "runtime_open rt"
    and "envelope_ok env" and "env_kind env \<noteq> EspNowFrameKind.ACK" and "env_flags env AND FLAG_ACK_REQUIRED \<noteq> 0"
    and "0 < length m" and "length m \<le> MAX_MESSAGE_SIZE"
    and "distinct is" and "set is = {i. i < fragment_count (length m)}"
    and "rt_assembling rt \<longrightarrow> rt_active_peer_index rt \<noteq> peer \<or> ra_envelope (rt_reassembler rt) \<noteq> env"
  shows "let rt' = accept_frames peer (map (frame_of env m) is) rt;
      duplicate = cache_contains (envelope_key env) (rt_duplicates rt) in
    fst (take_application_ack rt') = Some \<lparr>pa_peer_index = peer, pa_payload =
      \<lparr>ack_acknowledged = envelope_key env,
       ack_status = (if duplicate then EspNowAckStatus.DUPLICATE else ACCEPTED)\<rparr>\<rparr> \<and>
    fst (take_application_message rt') =
      (if duplicate then None
       else Some \<lparr>im_peer_index = peer, im_message = \<lparr>rm_envelope = env, rm_data = m\<rparr>\<rparr>)"
proof -
  have inv: "runtime_inv rt" unfolding assms(1) by (rule runtime_machine.inv_run)
  obtain rt2 where rt2: "accept_frames peer (map (frame_of env m) is) rt = snd (accept_application_message env rt2)"
    and col: "collected env m peer rt2" and dup: "rt_duplicates rt2 = rt_duplicates rt"
    using accept_whole_message [OF inv assms(2,3,4,6,7,8,9,10)] by auto
  note out = collected_outcome [OF col assms(6,7,5,4)]
  show ?thesis
    unfolding rt2 Let_def using out dup
    by (auto simp: take_application_ack_def take_application_message_def peek_application_message_def)
qed

lemma runtime_receives_message_witness:
  "let env = \<lparr>env_kind = EspNowFrameKind.RESULT, env_flags = 1, env_source_boot_id = 7,
         env_transaction_id = 9, env_sequence = 4\<rparr>;
       rt' = accept_frames 5 (map (frame_of env [1, 2, 3]) [0]) (runtime_init 1) in
   fst (take_application_message rt') =
     Some \<lparr>im_peer_index = 5, im_message = \<lparr>rm_envelope = env, rm_data = [1, 2, 3]\<rparr>\<rparr>"
  using runtime_receives_message [of "runtime_init 1" "[]" 1
      "\<lparr>env_kind = EspNowFrameKind.RESULT, env_flags = 1, env_source_boot_id = 7,
         env_transaction_id = 9, env_sequence = 4\<rparr>" "[1, 2, 3]" "[0]" 5]
  by (simp add: runtime_open_def runtime_init_def envelope_ok_def one_fragment cache_contains_def
      cache_init_def Let_def)

lemma runtime_hands_over_checked_messages_witness:
  "let env = \<lparr>env_kind = EspNowFrameKind.RESULT, env_flags = 1, env_source_boot_id = 7,
         env_transaction_id = 9, env_sequence = 4\<rparr>;
       rt = run_events runtime_step [RAccept (received_from 5 (frame_of env [1, 2, 3] 0))] (runtime_init 1) in
   \<exists>im rt'. take_application_message rt = (Some im, rt') \<and> \<not> rt_application_message_ready rt'"
proof -
  let ?env = "\<lparr>env_kind = EspNowFrameKind.RESULT, env_flags = 1, env_source_boot_id = 7,
         env_transaction_id = 9, env_sequence = 4\<rparr>"
  let ?rt = "run_events runtime_step [RAccept (received_from 5 (frame_of ?env [1, 2, 3] 0))] (runtime_init 1)"
  have "\<exists>rt'. accept_frames 5 (map (frame_of ?env [1, 2, 3]) [0]) (runtime_init 1) =
      snd (accept_application_message ?env rt') \<and> collected ?env [1, 2, 3] 5 rt' \<and>
      rt_duplicates rt' = rt_duplicates (runtime_init 1)"
    by (rule accept_whole_message [OF runtime_machine.inv_start])
      (simp_all add: runtime_open_def runtime_init_def envelope_ok_def one_fragment)
  then have "peek_application_message ?rt =
      Some \<lparr>im_peer_index = 5, im_message = \<lparr>rm_envelope = ?env, rm_data = [1, 2, 3]\<rparr>\<rparr>"
    using collected_outcome(3) [of ?env "[1, 2, 3]" 5]
    by (auto simp: runtime_init_def cache_contains_def cache_init_def)
  then have "rt_application_message_ready ?rt"
    by (auto simp: peek_application_message_def split: if_splits)
  from runtime_hands_over_checked_messages [OF refl this] show ?thesis by (auto simp: Let_def)
qed

end
