(* ===== verification/Message_Model.thy ===== *)
theory Message_Model
  imports Protocol_Identity
begin

text \<open>
  \<open>message_model.h\<close>: commands, state snapshots, execution contexts, errors and results,
  with the validity predicates the codecs and dispatchers test. Texts and byte payloads
  are the values of the bounded containers; the \<open>_wf\<close> predicates are the size limits
  those containers enforce.
\<close>

datatype NetResultStatus = SUCCEEDED | IN_PROGRESS | REJECTED | FAILED

datatype NetStateCompleteness = NOT_PROVIDED | PARTIAL | COMPLETE

datatype NetErrorCode =
    NONE | INVALID_REQUEST | TARGET_UNAVAILABLE | TRANSPORT_UNAVAILABLE
  | CONNECTION_FAILED | AUTHENTICATION_FAILED | TIMED_OUT | PROTOCOL_ERROR
  | REMOTE_REJECTED | INTERNAL_ERROR | INTERRUPTED

definition MAX_DEVICE_ID_LENGTH :: nat where "MAX_DEVICE_ID_LENGTH = 63"
definition MAX_RESOURCE_LENGTH :: nat where "MAX_RESOURCE_LENGTH = 63"
definition MAX_NAME_LENGTH :: nat where "MAX_NAME_LENGTH = 47"
definition MAX_PAYLOAD_SIZE :: nat where "MAX_PAYLOAD_SIZE = 256"
definition MAX_SCHEMA_LENGTH :: nat where "MAX_SCHEMA_LENGTH = 31"
definition MAX_DATA_SIZE :: nat where "MAX_DATA_SIZE = 256"
definition MAX_MESSAGE_LENGTH :: nat where "MAX_MESSAGE_LENGTH = 95"

lemmas message_limits [simp] =
  MAX_DEVICE_ID_LENGTH_def MAX_RESOURCE_LENGTH_def MAX_NAME_LENGTH_def MAX_PAYLOAD_SIZE_def
  MAX_SCHEMA_LENGTH_def MAX_DATA_SIZE_def MAX_MESSAGE_LENGTH_def

record NetCommand =
  cmd_transaction_id :: TransactionId
  cmd_device_id :: btext
  cmd_resource :: btext
  cmd_name :: btext
  cmd_payload :: bytes
  cmd_source_device_id :: btext
  cmd_source_boot_id :: u64
  cmd_timeout_ms :: u32

record NetStateSnapshot =
  ss_completeness :: NetStateCompleteness
  ss_schema :: btext
  ss_data :: bytes

record NetExecutionContext =
  ex_started :: bool
  ex_has_estimated_completion :: bool
  ex_estimated_completion_ms :: u32
  ex_has_progress :: bool
  ex_progress_percent :: u8
  ex_has_expected_final_state :: bool
  ex_expected_final_state :: NetStateSnapshot

record NetError =
  er_code :: NetErrorCode
  er_retryable :: bool
  er_message :: btext

record NetResult =
  res_transport_failure :: bool
  res_transaction_id :: TransactionId
  res_status :: NetResultStatus
  res_execution :: NetExecutionContext
  res_remote_state :: NetStateSnapshot
  res_error :: NetError
  res_latency_ms :: u32

definition NetCommand_init :: NetCommand where
  "NetCommand_init =
     \<lparr>cmd_transaction_id = 0, cmd_device_id = [], cmd_resource = [], cmd_name = [],
      cmd_payload = [], cmd_source_device_id = [], cmd_source_boot_id = 0, cmd_timeout_ms = 0\<rparr>"

definition NetStateSnapshot_init :: NetStateSnapshot where
  "NetStateSnapshot_init =
     \<lparr>ss_completeness = NOT_PROVIDED, ss_schema = [], ss_data = []\<rparr>"

definition NetExecutionContext_init :: NetExecutionContext where
  "NetExecutionContext_init =
     \<lparr>ex_started = False, ex_has_estimated_completion = False, ex_estimated_completion_ms = 0,
      ex_has_progress = False, ex_progress_percent = 0, ex_has_expected_final_state = False,
      ex_expected_final_state = NetStateSnapshot_init\<rparr>"

definition NetError_init :: NetError where
  "NetError_init = \<lparr>er_code = NONE, er_retryable = False, er_message = []\<rparr>"

definition NetResult_init :: NetResult where
  "NetResult_init =
     \<lparr>res_transport_failure = False, res_transaction_id = 0, res_status = FAILED,
      res_execution = NetExecutionContext_init, res_remote_state = NetStateSnapshot_init,
      res_error = NetError_init, res_latency_ms = 0\<rparr>"

definition NetCommand_valid :: "NetCommand \<Rightarrow> bool" where
  "NetCommand_valid c \<longleftrightarrow>
     cmd_transaction_id c \<noteq> 0 \<and> cmd_device_id c \<noteq> [] \<and> cmd_name c \<noteq> [] \<and>
     cmd_timeout_ms c \<noteq> 0 \<and>
     ((cmd_source_device_id c = []) = (cmd_source_boot_id c = 0))"

definition NetStateSnapshot_consistent :: "NetStateSnapshot \<Rightarrow> bool" where
  "NetStateSnapshot_consistent s =
     (if ss_completeness s = NOT_PROVIDED then ss_schema s = [] \<and> ss_data s = []
      else ss_schema s \<noteq> [] \<and> ss_data s \<noteq> [])"

definition NetExecutionContext_consistent :: "NetExecutionContext \<Rightarrow> bool" where
  "NetExecutionContext_consistent e =
     (if ex_has_estimated_completion e \<and>
         (\<not> ex_started e \<or> ex_estimated_completion_ms e = 0) then False
      else if ex_has_progress e \<and> (\<not> ex_started e \<or> ex_progress_percent e > 100) then False
      else if ex_has_expected_final_state e then
        ex_started e \<and> NetStateSnapshot_consistent (ex_expected_final_state e) \<and>
        ss_completeness (ex_expected_final_state e) \<noteq> NOT_PROVIDED
      else
        NetStateSnapshot_consistent (ex_expected_final_state e) \<and>
        ss_completeness (ex_expected_final_state e) = NOT_PROVIDED)"

definition NetError_consistent :: "NetError \<Rightarrow> bool" where
  "NetError_consistent e =
     (if er_code e = NONE then \<not> er_retryable e \<and> er_message e = []
      else er_message e \<noteq> [])"

definition NetResult_consistent :: "NetResult \<Rightarrow> bool" where
  "NetResult_consistent r =
     (if res_transaction_id r = 0 \<or> \<not> NetExecutionContext_consistent (res_execution r) \<or>
         \<not> NetStateSnapshot_consistent (res_remote_state r) \<or>
         \<not> NetError_consistent (res_error r) then False
      else if res_status r = IN_PROGRESS then
        ex_started (res_execution r) \<and> ex_has_estimated_completion (res_execution r) \<and>
        er_code (res_error r) = NONE
      else if res_status r = SUCCEEDED then
        ex_started (res_execution r) \<and> er_code (res_error r) = NONE
      else er_code (res_error r) \<noteq> NONE)"

subsection \<open>Size limits\<close>

definition NetCommand_wf :: "NetCommand \<Rightarrow> bool" where
  "NetCommand_wf c \<longleftrightarrow>
     text_ok MAX_DEVICE_ID_LENGTH (cmd_device_id c) \<and> text_ok MAX_RESOURCE_LENGTH (cmd_resource c) \<and>
     text_ok MAX_NAME_LENGTH (cmd_name c) \<and> length (cmd_payload c) \<le> MAX_PAYLOAD_SIZE \<and>
     text_ok MAX_DEVICE_ID_LENGTH (cmd_source_device_id c)"

definition NetStateSnapshot_wf :: "NetStateSnapshot \<Rightarrow> bool" where
  "NetStateSnapshot_wf s \<longleftrightarrow>
     text_ok MAX_SCHEMA_LENGTH (ss_schema s) \<and> length (ss_data s) \<le> MAX_DATA_SIZE"

definition NetResult_wf :: "NetResult \<Rightarrow> bool" where
  "NetResult_wf r \<longleftrightarrow>
     NetStateSnapshot_wf (ex_expected_final_state (res_execution r)) \<and>
     NetStateSnapshot_wf (res_remote_state r) \<and>
     text_ok MAX_MESSAGE_LENGTH (er_message (res_error r))"

lemmas message_inits = NetCommand_init_def NetStateSnapshot_init_def
  NetExecutionContext_init_def NetError_init_def NetResult_init_def

lemmas consistency_defs = NetStateSnapshot_consistent_def NetExecutionContext_consistent_def
  NetError_consistent_def NetResult_consistent_def

lemma NetCommand_init_wf [simp]: "NetCommand_wf NetCommand_init"
  by (simp add: NetCommand_wf_def NetCommand_init_def)

lemma NetStateSnapshot_init_wf [simp]: "NetStateSnapshot_wf NetStateSnapshot_init"
  by (simp add: NetStateSnapshot_wf_def NetStateSnapshot_init_def)

lemma NetStateSnapshot_init_consistent [simp]: "NetStateSnapshot_consistent NetStateSnapshot_init"
  by (simp add: NetStateSnapshot_consistent_def NetStateSnapshot_init_def)

lemma NetResult_init_wf [simp]: "NetResult_wf NetResult_init"
  by (simp add: NetResult_wf_def message_inits NetStateSnapshot_wf_def)

text \<open>A result is terminal unless it reports progress; a consistent terminal success has
  started and carries no error, a consistent failure always names its error.\<close>

lemma NetResult_consistentD:
  assumes "NetResult_consistent r"
  shows "res_transaction_id r \<noteq> 0" and "NetExecutionContext_consistent (res_execution r)"
    and "NetStateSnapshot_consistent (res_remote_state r)" and "NetError_consistent (res_error r)"
  using assms by (auto simp: NetResult_consistent_def split: if_splits)

end
