(* ===== verification/Command_Codec.thy ===== *)
theory Command_Codec
  imports Message_Codec Message_Model
begin

text \<open>
  \<open>command_codec.h\<close>: the byte layout of commands, version 1 without and version 2 with the
  application identity of the source. The codec's \<open>last_error_\<close> is the left summand of its
  results. The bytes a call writes behind its \<open>offset\<close> are appended to a list.
\<close>

datatype EspNowCommandCodecError = NONE | INVALID_REQUEST | INVALID_PAYLOAD | UNSUPPORTED_VERSION

abbreviation (input) COMMAND_MAX_SIZE :: nat where "COMMAND_MAX_SIZE \<equiv> 511"
abbreviation (input) COMMAND_VERSION :: u8 where "COMMAND_VERSION \<equiv> 1"
abbreviation (input) COMMAND_IDENTITY_VERSION :: u8 where "COMMAND_IDENTITY_VERSION \<equiv> 2"
abbreviation (input) COMMAND_HEADER_SIZE :: nat where "COMMAND_HEADER_SIZE \<equiv> 10"

definition command_total :: "NetCommand \<Rightarrow> nat" where
  "command_total request =
     COMMAND_HEADER_SIZE + length (cmd_device_id request) + length (cmd_resource request) +
     length (cmd_name request) + length (cmd_payload request) +
     (if length (cmd_source_device_id request) \<noteq> 0 then 9 + length (cmd_source_device_id request) else 0)"

definition command_bytes :: "NetCommand \<Rightarrow> bytes" where
  "command_bytes request =
     [if length (cmd_source_device_id request) \<noteq> 0 then COMMAND_IDENTITY_VERSION else COMMAND_VERSION,
      of_nat (length (cmd_device_id request)), of_nat (length (cmd_resource request)),
      of_nat (length (cmd_name request))] @
     put_u16 (of_nat (length (cmd_payload request))) @
     put_u32 (cmd_timeout_ms request) @
     cmd_device_id request @ cmd_resource request @ cmd_name request @ cmd_payload request @
     (if length (cmd_source_device_id request) \<noteq> 0
      then of_nat (length (cmd_source_device_id request)) # put_u64 (cmd_source_boot_id request) @
           cmd_source_device_id request
      else [])"

definition command_encode :: "NetCommand \<Rightarrow> EspNowCommandCodecError + bytes" where
  "command_encode request =
     (if \<not> NetCommand_valid request then Inl EspNowCommandCodecError.INVALID_REQUEST
      else if length (cmd_device_id request) > 255 \<or> length (cmd_resource request) > 255 \<or>
              length (cmd_name request) > 255 \<or> length (cmd_payload request) > 65535 \<or>
              command_total request > COMMAND_MAX_SIZE
      then Inl EspNowCommandCodecError.INVALID_REQUEST
      else
        (let (assigned, data) = bytes_assign COMMAND_MAX_SIZE (Some (command_bytes request))
               (length (command_bytes request))
         in if assigned then Inr data else Inl INVALID_PAYLOAD))"

text \<open>\<open>copy_text_\<close> into a zeroed buffer of \<open>cap + 1\<close> characters.\<close>

definition copy_text :: "nat \<Rightarrow> bytes \<Rightarrow> nat \<Rightarrow> nat \<Rightarrow> cstring" where
  "copy_text cap data offset len = segment offset len data @ replicate (cap + 1 - len) 0"

definition command_sizes_invalid :: "bytes \<Rightarrow> nat \<Rightarrow> bool" where
  "command_sizes_invalid data expected \<longleftrightarrow>
     unat (data ! 1) = 0 \<or> unat (data ! 1) > MAX_DEVICE_ID_LENGTH \<or>
     unat (data ! 2) > MAX_RESOURCE_LENGTH \<or>
     unat (data ! 3) = 0 \<or> unat (data ! 3) > MAX_NAME_LENGTH \<or>
     unat (get_u16 (drop 4 data)) > MAX_PAYLOAD_SIZE \<or> get_u32 (drop 6 data) = 0 \<or>
     expected > length data \<or> (data ! 0 = COMMAND_VERSION \<and> expected \<noteq> length data)"

text \<open>The trailing identity of a version 2 command: its size and boot identifier, zero when
  there is none, or nothing when it is malformed.\<close>

definition command_identity :: "bytes \<Rightarrow> nat \<Rightarrow> (nat \<times> u64) option" where
  "command_identity data expected =
     (if data ! 0 = COMMAND_IDENTITY_VERSION then
        (if length data < expected + 9 then None
         else
           (let src_size = unat (data ! expected);
                source_boot_id = get_u64 (drop (expected + 1) data)
            in if src_size = 0 \<or> src_size > MAX_DEVICE_ID_LENGTH \<or> source_boot_id = 0 \<or>
                  expected + 9 + src_size \<noteq> length data
               then None else Some (src_size, source_boot_id)))
      else Some (0, 0))"

definition command_fields ::
    "TransactionId \<Rightarrow> bytes \<Rightarrow> nat \<Rightarrow> nat \<Rightarrow> u64 \<Rightarrow> EspNowCommandCodecError + NetCommand" where
  "command_fields transaction_id data expected src_size source_boot_id =
     (let device_size = unat (data ! 1); resrc_size = unat (data ! 2); command_size = unat (data ! 3);
          body_size = unat (get_u16 (drop 4 data));
          o1 = COMMAND_HEADER_SIZE; o2 = o1 + device_size; o3 = o2 + resrc_size; o4 = o3 + command_size;
          source = copy_text MAX_DEVICE_ID_LENGTH data (expected + 9) src_size
      in if src_size \<noteq> 0 \<and> 0 \<in> set (take src_size source) then Inl INVALID_PAYLOAD
         else
           (let (ok1, device) = text_assign MAX_DEVICE_ID_LENGTH
                  (Some (copy_text MAX_DEVICE_ID_LENGTH data o1 device_size));
                (ok2, resource) = text_assign MAX_RESOURCE_LENGTH
                  (Some (copy_text MAX_RESOURCE_LENGTH data o2 resrc_size));
                (ok3, name) = text_assign MAX_NAME_LENGTH
                  (Some (copy_text MAX_NAME_LENGTH data o3 command_size));
                (ok4, payload) = bytes_assign MAX_PAYLOAD_SIZE (Some (drop o4 data)) body_size;
                (ok5, source_id) = (if src_size \<noteq> 0 then text_assign MAX_DEVICE_ID_LENGTH (Some source)
                                    else (True, []));
                request =
                  \<lparr>cmd_transaction_id = transaction_id, cmd_device_id = device, cmd_resource = resource,
                   cmd_name = name, cmd_payload = payload, cmd_source_device_id = source_id,
                   cmd_source_boot_id = source_boot_id, cmd_timeout_ms = get_u32 (drop 6 data)\<rparr>
            in if \<not> ok1 \<or> \<not> ok2 \<or> \<not> ok3 \<or> \<not> ok4 \<or> \<not> ok5 \<or> \<not> NetCommand_valid request
               then Inl INVALID_PAYLOAD else Inr request))"

definition command_decode :: "TransactionId \<Rightarrow> span \<Rightarrow> EspNowCommandCodecError + NetCommand" where
  "command_decode transaction_id data =
     (case data of None \<Rightarrow> Inl INVALID_PAYLOAD
      | Some d \<Rightarrow>
          if transaction_id = 0 \<or> length d < COMMAND_HEADER_SIZE then Inl INVALID_PAYLOAD
          else if d ! 0 \<noteq> COMMAND_VERSION \<and> d ! 0 \<noteq> COMMAND_IDENTITY_VERSION
          then Inl EspNowCommandCodecError.UNSUPPORTED_VERSION
          else
            (let expected = COMMAND_HEADER_SIZE + unat (d ! 1) + unat (d ! 2) + unat (d ! 3) +
                   unat (get_u16 (drop 4 d))
             in if command_sizes_invalid d expected then Inl INVALID_PAYLOAD
                else case command_identity d expected of
                  None \<Rightarrow> Inl INVALID_PAYLOAD
                | Some (src_size, source_boot_id) \<Rightarrow>
                    command_fields transaction_id d expected src_size source_boot_id))"

subsection \<open>Round trip\<close>

lemma length_command_bytes: "length (command_bytes c) = command_total c"
  by (simp add: command_bytes_def command_total_def)

lemma command_total_bound: "NetCommand_wf c \<Longrightarrow> command_total c \<le> COMMAND_MAX_SIZE"
  by (auto simp: command_total_def NetCommand_wf_def text_ok_def)

lemma command_encode_ok:
  "NetCommand_valid c \<Longrightarrow> NetCommand_wf c \<Longrightarrow> command_encode c = Inr (command_bytes c)"
  using command_total_bound [of c]
  by (auto simp: command_encode_def NetCommand_wf_def text_ok_def length_command_bytes bytes_assign_exact)

lemma copy_text_assign:
  assumes "text_ok cap t" and "segment off n d = t" and "length t = n"
  shows "text_assign cap (Some (copy_text cap d off n)) = (True, t)"
proof -
  have "n \<le> cap" using assms by (simp add: text_ok_def)
  then have "copy_text cap d off n = t @ 0 # replicate (cap - n) 0"
    using assms(2) by (simp add: copy_text_def Suc_diff_le)
  then show ?thesis using text_assign_buffer [OF assms(1)] by simp
qed

lemma segment_append_skip:
  "length xs \<le> off \<Longrightarrow> segment off n (xs @ ys) = segment (off - length xs) n ys"
  by (simp add: segment_def)

lemma segment_append_first: "n = length xs \<Longrightarrow> segment 0 n (xs @ ys) = xs"
  by (simp add: segment_def)

text \<open>The parts of an encoded command, as the decoder cuts them out.\<close>

lemma command_bytes_parts:
  assumes "NetCommand_valid c" and "NetCommand_wf c"
  defines "d \<equiv> command_bytes c"
    and "e \<equiv> 10 + length (cmd_device_id c) + length (cmd_resource c) + length (cmd_name c) + length (cmd_payload c)"
  shows "d ! 0 = (if cmd_source_device_id c = [] then 1 else 2)"
    and "unat (d ! 1) = length (cmd_device_id c)" and "unat (d ! 2) = length (cmd_resource c)"
    and "unat (d ! 3) = length (cmd_name c)" and "unat (get_u16 (drop 4 d)) = length (cmd_payload c)"
    and "get_u32 (drop 6 d) = cmd_timeout_ms c"
    and "length d = e + (if cmd_source_device_id c = [] then 0 else 9 + length (cmd_source_device_id c))"
    and "segment 10 (length (cmd_device_id c)) d = cmd_device_id c"
    and "segment (10 + length (cmd_device_id c)) (length (cmd_resource c)) d = cmd_resource c"
    and "segment (10 + length (cmd_device_id c) + length (cmd_resource c)) (length (cmd_name c)) d = cmd_name c"
    and "take (length (cmd_payload c))
           (drop (10 + length (cmd_device_id c) + length (cmd_resource c) + length (cmd_name c)) d) = cmd_payload c"
    and "cmd_source_device_id c \<noteq> [] \<Longrightarrow>
           unat (d ! e) = length (cmd_source_device_id c) \<and> get_u64 (drop (e + 1) d) = cmd_source_boot_id c \<and>
           segment (e + 9) (length (cmd_source_device_id c)) d = cmd_source_device_id c"
proof -
  have sizes: "length (cmd_device_id c) < 256" "length (cmd_resource c) < 256" "length (cmd_name c) < 256"
    "length (cmd_payload c) < 65536" "length (cmd_source_device_id c) < 256"
    using assms(2) by (auto simp: NetCommand_wf_def text_ok_def)
  show "d ! 0 = (if cmd_source_device_id c = [] then 1 else 2)"
    "unat (d ! 1) = length (cmd_device_id c)" "unat (d ! 2) = length (cmd_resource c)"
    "unat (d ! 3) = length (cmd_name c)" "unat (get_u16 (drop 4 d)) = length (cmd_payload c)"
    "get_u32 (drop 6 d) = cmd_timeout_ms c"
    "length d = e + (if cmd_source_device_id c = [] then 0 else 9 + length (cmd_source_device_id c))"
    using sizes by (simp_all add: d_def e_def command_bytes_def)
  define hdr where "hdr = take 10 d"
  obtain rest where d: "d = hdr @ cmd_device_id c @ cmd_resource c @ cmd_name c @ cmd_payload c @ rest"
    and len: "length hdr = 10"
    by (simp add: hdr_def d_def command_bytes_def)
  show "segment 10 (length (cmd_device_id c)) d = cmd_device_id c"
    "segment (10 + length (cmd_device_id c)) (length (cmd_resource c)) d = cmd_resource c"
    "segment (10 + length (cmd_device_id c) + length (cmd_resource c)) (length (cmd_name c)) d = cmd_name c"
    "take (length (cmd_payload c))
       (drop (10 + length (cmd_device_id c) + length (cmd_resource c) + length (cmd_name c)) d) = cmd_payload c"
    unfolding d by (simp_all add: segment_def len)
  show "unat (d ! e) = length (cmd_source_device_id c) \<and> get_u64 (drop (e + 1) d) = cmd_source_boot_id c \<and>
      segment (e + 9) (length (cmd_source_device_id c)) d = cmd_source_device_id c"
    if "cmd_source_device_id c \<noteq> []"
  proof -
    define front where "front = hdr @ cmd_device_id c @ cmd_resource c @ cmd_name c @ cmd_payload c"
    have d2: "d = front @ of_nat (length (cmd_source_device_id c)) # put_u64 (cmd_source_boot_id c) @
        cmd_source_device_id c"
      using that by (simp add: front_def hdr_def d_def command_bytes_def)
    have len2: "length front = e" by (simp add: front_def e_def len)
    show ?thesis using sizes unfolding d2 by (simp add: nth_append len2 segment_def)
  qed
qed

lemma command_decode_encoded:
  assumes "NetCommand_valid c" and "NetCommand_wf c"
  shows "command_decode (cmd_transaction_id c) (Some (command_bytes c)) = Inr c"
proof -
  note parts = command_bytes_parts [OF assms]
  define d where "d = command_bytes c"
  define e where "e = 10 + length (cmd_device_id c) + length (cmd_resource c) + length (cmd_name c) + length (cmd_payload c)"
  note p = parts [folded d_def e_def]
  have t: "text_ok 63 (cmd_device_id c)" "text_ok 63 (cmd_resource c)" "text_ok 47 (cmd_name c)"
      "length (cmd_payload c) \<le> 256" "text_ok 63 (cmd_source_device_id c)"
    using assms(2) by (auto simp: NetCommand_wf_def)
  have v: "cmd_transaction_id c \<noteq> 0" "cmd_device_id c \<noteq> []" "cmd_name c \<noteq> []" "cmd_timeout_ms c \<noteq> 0"
      "(cmd_source_device_id c = []) = (cmd_source_boot_id c = 0)"
    using assms(1) by (auto simp: NetCommand_valid_def)
  have small: "length (cmd_device_id c) \<le> 63" "length (cmd_resource c) \<le> 63" "length (cmd_name c) \<le> 47"
      "length (cmd_source_device_id c) \<le> 63"
    using t by (auto simp: text_ok_def)
  have sizes: "\<not> command_sizes_invalid d e"
    using p v small t(4) by (auto simp: command_sizes_invalid_def e_def)
  have ident: "command_identity d e = Some (length (cmd_source_device_id c), cmd_source_boot_id c)"
    using p(1,7,12) v(5) small by (cases "cmd_source_device_id c = []") (auto simp: command_identity_def Let_def)
  have src: "text_assign 63 (Some (copy_text 63 d (e + 9) (length (cmd_source_device_id c)))) =
      (True, cmd_source_device_id c)"
    "0 \<notin> set (take (length (cmd_source_device_id c))
       (copy_text 63 d (e + 9) (length (cmd_source_device_id c))))"
    if "cmd_source_device_id c \<noteq> []"
    using p(12) [OF that] t(5) copy_text_assign [OF t(5)] by (auto simp: copy_text_def text_ok_def)
  have pay: "bytes_assign 256 (Some (drop (10 + length (cmd_device_id c) + length (cmd_resource c) +
      length (cmd_name c)) d)) (length (cmd_payload c)) = (True, cmd_payload c)"
    using t(4) p(11) by (simp add: bytes_assign_take)
  have fields: "command_fields (cmd_transaction_id c) d e (length (cmd_source_device_id c)) (cmd_source_boot_id c) = Inr c"
    using p(2-6) src pay v copy_text_assign [OF t(1) p(8)] copy_text_assign [OF t(2) p(9)]
      copy_text_assign [OF t(3) p(10)]
    by (auto simp: command_fields_def NetCommand_valid_def Let_def)
  have "10 \<le> length d" using p(7) by (simp add: e_def)
  then have "command_decode (cmd_transaction_id c) (Some d) = Inr c"
    using p(1-5) v(1) sizes ident fields by (auto simp: command_decode_def e_def [symmetric])
  then show ?thesis by (simp add: d_def)
qed

interpretation command_codec: message_codec
  "\<lambda>c. NetCommand_valid c \<and> NetCommand_wf c \<and> cmd_transaction_id c = t"
  "\<lambda>c. case command_encode c of Inl _ \<Rightarrow> None | Inr bs \<Rightarrow> Some bs"
  "\<lambda>bs. case command_decode t (Some bs) of Inl _ \<Rightarrow> None | Inr c \<Rightarrow> Some c"
  id COMMAND_MAX_SIZE
  for t
proof (unfold_locales, goal_cases)
  case (1 c)
  then have "command_bytes c \<noteq> []" and "length (command_bytes c) \<le> 511"
    using command_total_bound [of c] by (auto simp: length_command_bytes) (simp add: command_bytes_def)
  then show ?case using 1 command_decode_encoded [of c] by (auto simp: command_encode_ok)
qed simp

subsection \<open>What the decoder lets through\<close>

lemma command_fields_sound:
  assumes "command_fields t d e n b = Inr c"
  shows "NetCommand_valid c \<and> NetCommand_wf c \<and> cmd_transaction_id c = t"
proof -
  have payload: "length x \<le> 256" if "bytes_assign 256 v l = (f, x)" for v l f x
    using bytes_assign_bound [OF that] .
  show ?thesis
    using assms text_assign_ok
    by (auto simp: command_fields_def Let_def NetCommand_wf_def split: if_splits prod.splits
        dest!: payload)
qed

subsection \<open>Properties\<close>

text \<open>C14 (roundtrip): a valid command of legal size always has an encoding of at most 511 bytes;
  sent as frames that arrive in any order, possibly repeated, the receiver reassembles
  exactly these bytes, and decoding them with the transaction identifier of the envelope
  gives back the command.\<close>

theorem command_survives_transport:
  assumes "NetCommand_valid c" and "NetCommand_wf c" and "envelope_ok env"
    and "env_transaction_id env = cmd_transaction_id c"
    and "length (ra_message r) = MAX_MESSAGE_SIZE" and "ra_received_mask r = 0"
    and "set is = {i. i < fragment_count (command_total c)}"
  shows "\<exists>bs. command_encode c = Inr bs \<and> length bs \<le> COMMAND_MAX_SIZE \<and>
    (\<forall>i\<in>set is. encode_fragment env (Some bs) (length bs) i = Inr (frame_of env bs i)) \<and>
    (case fst (reassembler_take (accept_all (map (frame_of env bs) is) r)) of
       None \<Rightarrow> False
     | Some rm \<Rightarrow> command_decode (env_transaction_id (rm_envelope rm)) (Some (rm_data rm)) = Inr c)"
  using command_codec.framed_roundtrip [of c "cmd_transaction_id c" env r "is"] assms
    command_total_bound [of c] command_decode_encoded [of c]
  by (auto simp: command_encode_ok length_command_bytes)

text \<open>C16 (safety): whatever bytes arrive, a command the decoder accepts is valid, within every
  size limit, free of embedded terminators, and carries the transaction identifier it was
  decoded for.\<close>

theorem command_decode_sound:
  assumes "command_decode t data = Inr c"
  shows "NetCommand_valid c \<and> NetCommand_wf c \<and> cmd_transaction_id c = t"
  using assms command_fields_sound
  by (auto simp: command_decode_def Let_def split: option.splits if_splits)

lemma command_survives_transport_witness:
  "\<exists>bs. command_encode \<lparr>cmd_transaction_id = 5, cmd_device_id = [65], cmd_resource = [], cmd_name = [66, 67],
      cmd_payload = [0], cmd_source_device_id = [70], cmd_source_boot_id = 9, cmd_timeout_ms = 100\<rparr> = Inr bs \<and>
    length bs \<le> COMMAND_MAX_SIZE"
  using command_survives_transport [of "\<lparr>cmd_transaction_id = 5, cmd_device_id = [65], cmd_resource = [],
      cmd_name = [66, 67], cmd_payload = [0], cmd_source_device_id = [70], cmd_source_boot_id = 9,
      cmd_timeout_ms = 100\<rparr>"
      "\<lparr>env_kind = EspNowFrameKind.COMMAND, env_flags = 1, env_source_boot_id = 7,
         env_transaction_id = 5, env_sequence = 4\<rparr>" reassembler_init "[0]"]
  by (auto simp: NetCommand_valid_def NetCommand_wf_def text_ok_def envelope_ok_def reassembler_init_def
      command_total_def one_fragment)

lemma example_command_decode:
  "command_decode 5 (Some [1, 1, 0, 1, 0, 0, 0, 0, 0, 1, 65, 66]) =
    Inr \<lparr>cmd_transaction_id = 5, cmd_device_id = [65], cmd_resource = [], cmd_name = [66],
      cmd_payload = [], cmd_source_device_id = [], cmd_source_boot_id = 0, cmd_timeout_ms = 1\<rparr>"
  by (simp add: command_decode_def command_sizes_invalid_def command_identity_def command_fields_def
      copy_text_def text_assign_def text_accepts_def bytes_assign_def bytes_accepts_def c_str_of_def
      get_u16_def get_u32_def upt_4 segment_def NetCommand_valid_def)

lemma command_decode_sound_witness:
  "NetCommand_wf \<lparr>cmd_transaction_id = 5, cmd_device_id = [65], cmd_resource = [], cmd_name = [66],
      cmd_payload = [], cmd_source_device_id = [], cmd_source_boot_id = 0, cmd_timeout_ms = 1\<rparr>"
  by (rule command_decode_sound [OF example_command_decode, THEN conjunct2, THEN conjunct1])

end
