(* ===== verification/Result_Codec.thy ===== *)
theory Result_Codec
  imports Command_Codec
begin

text \<open>
  \<open>result_codec.h\<close>: the byte layout of results. Unlike a command, a result of legal fields
  may exceed the 640 bytes of a message and is then refused. The local metadata
  \<open>transport_failure\<close> and \<open>latency_ms\<close> never travel.
\<close>

datatype EspNowResultCodecError =
    NONE | INVALID_RESULT | PAYLOAD_TOO_LARGE | INVALID_PAYLOAD | UNSUPPORTED_VERSION

abbreviation (input) RESULT_MAX_SIZE :: nat where "RESULT_MAX_SIZE \<equiv> 640"
abbreviation (input) RESULT_VERSION :: u8 where "RESULT_VERSION \<equiv> 1"
abbreviation (input) RESULT_HEADER_SIZE :: nat where "RESULT_HEADER_SIZE \<equiv> 20"
abbreviation (input) FLAG_STARTED :: u8 where "FLAG_STARTED \<equiv> 0x01"
abbreviation (input) FLAG_ESTIMATED :: u8 where "FLAG_ESTIMATED \<equiv> 0x02"
abbreviation (input) FLAG_PROGRESS :: u8 where "FLAG_PROGRESS \<equiv> 0x04"
abbreviation (input) FLAG_EXPECTED_STATE :: u8 where "FLAG_EXPECTED_STATE \<equiv> 0x08"
abbreviation (input) FLAG_REMOTE_STATE :: u8 where "FLAG_REMOTE_STATE \<equiv> 0x10"
abbreviation (input) FLAG_ERROR :: u8 where "FLAG_ERROR \<equiv> 0x20"

fun NetResultStatus_code :: "NetResultStatus \<Rightarrow> u8" where
  "NetResultStatus_code SUCCEEDED = 0"
| "NetResultStatus_code IN_PROGRESS = 1"
| "NetResultStatus_code NetResultStatus.REJECTED = 2"
| "NetResultStatus_code FAILED = 3"

fun NetStateCompleteness_code :: "NetStateCompleteness \<Rightarrow> u8" where
  "NetStateCompleteness_code NOT_PROVIDED = 0"
| "NetStateCompleteness_code PARTIAL = 1"
| "NetStateCompleteness_code COMPLETE = 2"

fun NetErrorCode_code :: "NetErrorCode \<Rightarrow> u8" where
  "NetErrorCode_code NetErrorCode.NONE = 0"
| "NetErrorCode_code NetErrorCode.INVALID_REQUEST = 1"
| "NetErrorCode_code TARGET_UNAVAILABLE = 2"
| "NetErrorCode_code TRANSPORT_UNAVAILABLE = 3"
| "NetErrorCode_code CONNECTION_FAILED = 4"
| "NetErrorCode_code AUTHENTICATION_FAILED = 5"
| "NetErrorCode_code NetErrorCode.TIMED_OUT = 6"
| "NetErrorCode_code PROTOCOL_ERROR = 7"
| "NetErrorCode_code REMOTE_REJECTED = 8"
| "NetErrorCode_code INTERNAL_ERROR = 9"
| "NetErrorCode_code INTERRUPTED = 10"

text \<open>The casts of received bytes together with \<open>valid_result_\<close>, \<open>valid_completeness_\<close> and
  \<open>valid_error_\<close>.\<close>

definition NetResultStatus_of :: "u8 \<Rightarrow> NetResultStatus option" where
  "NetResultStatus_of b =
     (if b = 0 then Some SUCCEEDED else if b = 1 then Some IN_PROGRESS
      else if b = 2 then Some NetResultStatus.REJECTED else if b = 3 then Some FAILED else None)"

definition NetStateCompleteness_of :: "u8 \<Rightarrow> NetStateCompleteness option" where
  "NetStateCompleteness_of b =
     (if b = 0 then Some NOT_PROVIDED else if b = 1 then Some PARTIAL
      else if b = 2 then Some COMPLETE else None)"

definition NetErrorCode_of :: "u8 \<Rightarrow> NetErrorCode option" where
  "NetErrorCode_of b =
     (if b = 0 then Some NetErrorCode.NONE else if b = 1 then Some NetErrorCode.INVALID_REQUEST
      else if b = 2 then Some TARGET_UNAVAILABLE else if b = 3 then Some TRANSPORT_UNAVAILABLE
      else if b = 4 then Some CONNECTION_FAILED else if b = 5 then Some AUTHENTICATION_FAILED
      else if b = 6 then Some NetErrorCode.TIMED_OUT else if b = 7 then Some PROTOCOL_ERROR
      else if b = 8 then Some REMOTE_REJECTED else if b = 9 then Some INTERNAL_ERROR
      else if b = 10 then Some INTERRUPTED else None)"

subsection \<open>Encoding\<close>

definition has_remote :: "NetResult \<Rightarrow> bool" where
  "has_remote result \<longleftrightarrow> ss_completeness (res_remote_state result) \<noteq> NOT_PROVIDED"

definition has_error :: "NetResult \<Rightarrow> bool" where
  "has_error result \<longleftrightarrow> er_code (res_error result) \<noteq> NetErrorCode.NONE"

text \<open>The five variable parts, empty where the source takes the size 0.\<close>

definition expected_part :: "(NetStateSnapshot \<Rightarrow> u8 list) \<Rightarrow> NetResult \<Rightarrow> bytes" where
  "expected_part f result =
     (if ex_has_expected_final_state (res_execution result)
      then f (ex_expected_final_state (res_execution result)) else [])"

definition remote_part :: "(NetStateSnapshot \<Rightarrow> u8 list) \<Rightarrow> NetResult \<Rightarrow> bytes" where
  "remote_part f result = (if has_remote result then f (res_remote_state result) else [])"

definition error_part :: "NetResult \<Rightarrow> bytes" where
  "error_part result = (if has_error result then er_message (res_error result) else [])"

definition result_total :: "NetResult \<Rightarrow> nat" where
  "result_total result =
     RESULT_HEADER_SIZE + length (expected_part ss_schema result) + length (expected_part ss_data result) +
     length (remote_part ss_schema result) + length (remote_part ss_data result) + length (error_part result)"

definition result_flags :: "NetResult \<Rightarrow> u8" where
  "result_flags result =
     (if ex_started (res_execution result) then FLAG_STARTED else 0) OR
     (if ex_has_estimated_completion (res_execution result) then FLAG_ESTIMATED else 0) OR
     (if ex_has_progress (res_execution result) then FLAG_PROGRESS else 0) OR
     (if ex_has_expected_final_state (res_execution result) then FLAG_EXPECTED_STATE else 0) OR
     (if has_remote result then FLAG_REMOTE_STATE else 0) OR
     (if has_error result then FLAG_ERROR else 0)"

definition result_header :: "NetResult \<Rightarrow> bytes" where
  "result_header result =
     [RESULT_VERSION, NetResultStatus_code (res_status result), result_flags result,
      NetStateCompleteness_code (ss_completeness (ex_expected_final_state (res_execution result))),
      NetStateCompleteness_code (ss_completeness (res_remote_state result)),
      NetErrorCode_code (er_code (res_error result)),
      (if er_retryable (res_error result) then 1 else 0),
      ex_progress_percent (res_execution result)] @
     put_u32 (ex_estimated_completion_ms (res_execution result)) @
     [of_nat (length (expected_part ss_schema result))] @
     put_u16 (of_nat (length (expected_part ss_data result))) @
     [of_nat (length (remote_part ss_schema result))] @
     put_u16 (of_nat (length (remote_part ss_data result))) @
     [of_nat (length (error_part result)), 0]"

definition result_encode :: "NetResult \<Rightarrow> EspNowResultCodecError + bytes" where
  "result_encode result =
     (if \<not> NetResult_consistent result then Inl INVALID_RESULT
      else if result_total result > RESULT_MAX_SIZE then Inl PAYLOAD_TOO_LARGE
      else
        (let bytes = result_header result @ expected_part ss_schema result @ expected_part ss_data result @
               remote_part ss_schema result @ remote_part ss_data result @ error_part result;
             (assigned, data) = bytes_assign RESULT_MAX_SIZE (Some bytes) (length bytes)
         in if assigned then Inr data else Inl PAYLOAD_TOO_LARGE))"

subsection \<open>Decoding\<close>

definition flags_consistent :: "u8 \<Rightarrow> nat \<Rightarrow> nat \<Rightarrow> nat \<Rightarrow> nat \<Rightarrow> nat \<Rightarrow> bool" where
  "flags_consistent flags es ed rs rd error \<longleftrightarrow>
     ((flags AND FLAG_EXPECTED_STATE \<noteq> 0) = (es \<noteq> 0 \<and> ed \<noteq> 0)) \<and>
     ((flags AND FLAG_REMOTE_STATE \<noteq> 0) = (rs \<noteq> 0 \<and> rd \<noteq> 0)) \<and>
     ((flags AND FLAG_ERROR \<noteq> 0) = (error \<noteq> 0))"

text \<open>\<open>decode_state_\<close>: the snapshot and the advanced offset, or failure.\<close>

definition decode_state ::
    "bytes \<Rightarrow> nat \<Rightarrow> nat \<Rightarrow> nat \<Rightarrow> NetStateCompleteness \<Rightarrow> (NetStateSnapshot \<times> nat) option" where
  "decode_state data offset schema_size data_size completeness =
     (if schema_size = 0 \<and> data_size = 0 then
        (if completeness = NOT_PROVIDED then Some (NetStateSnapshot_init, offset) else None)
      else if schema_size = 0 \<or> data_size = 0 \<or> completeness = NOT_PROVIDED then None
      else
        (let (ok1, schema) = text_assign MAX_SCHEMA_LENGTH
               (Some (copy_text MAX_SCHEMA_LENGTH data offset schema_size));
             (ok2, content) = bytes_assign MAX_DATA_SIZE (Some (drop (offset + schema_size) data)) data_size;
             state = \<lparr>ss_completeness = completeness, ss_schema = schema, ss_data = content\<rparr>
         in if ok1 \<and> ok2 \<and> NetStateSnapshot_consistent state
            then Some (state, offset + schema_size + data_size) else None))"

definition decode_error :: "u8 \<Rightarrow> NetErrorCode \<Rightarrow> bytes \<Rightarrow> nat \<Rightarrow> nat \<Rightarrow> NetError option" where
  "decode_error flags code data offset error_size =
     (if flags AND FLAG_ERROR \<noteq> 0 then
        (case text_assign MAX_MESSAGE_LENGTH (Some (copy_text MAX_MESSAGE_LENGTH data offset error_size)) of
           (False, _) \<Rightarrow> None
         | (True, message) \<Rightarrow>
             Some \<lparr>er_code = code, er_retryable = (data ! 6 \<noteq> 0), er_message = message\<rparr>)
      else Some NetError_init)"

definition result_fields ::
    "TransactionId \<Rightarrow> bytes \<Rightarrow> u32 \<Rightarrow> NetResultStatus \<Rightarrow> NetStateCompleteness \<Rightarrow> NetStateCompleteness \<Rightarrow>
     NetErrorCode \<Rightarrow> EspNowResultCodecError + NetResult" where
  "result_fields transaction_id data latency_ms status expected_completeness remote_completeness error_code =
     (let flags = data ! 2; es = unat (data ! 12); ed = unat (get_u16 (drop 13 data));
          rs = unat (data ! 15); rd = unat (get_u16 (drop 16 data)); error_size = unat (data ! 18)
      in if RESULT_HEADER_SIZE + es + ed + rs + rd + error_size \<noteq> length data \<or>
            es > MAX_SCHEMA_LENGTH \<or> rs > MAX_SCHEMA_LENGTH \<or> ed > MAX_DATA_SIZE \<or> rd > MAX_DATA_SIZE \<or>
            error_size > MAX_MESSAGE_LENGTH
         then Inl EspNowResultCodecError.INVALID_PAYLOAD
         else case decode_state data RESULT_HEADER_SIZE es ed expected_completeness of
           None \<Rightarrow> Inl EspNowResultCodecError.INVALID_PAYLOAD
         | Some (expected_state, o1) \<Rightarrow>
             (case decode_state data o1 rs rd remote_completeness of
                None \<Rightarrow> Inl EspNowResultCodecError.INVALID_PAYLOAD
              | Some (remote_state, o2) \<Rightarrow>
                  (case decode_error flags error_code data o2 error_size of
                     None \<Rightarrow> Inl EspNowResultCodecError.INVALID_PAYLOAD
                   | Some error \<Rightarrow>
                       (let result =
                          \<lparr>res_transport_failure = False, res_transaction_id = transaction_id,
                           res_status = status,
                           res_execution =
                             \<lparr>ex_started = (flags AND FLAG_STARTED \<noteq> 0),
                              ex_has_estimated_completion = (flags AND FLAG_ESTIMATED \<noteq> 0),
                              ex_estimated_completion_ms = get_u32 (drop 8 data),
                              ex_has_progress = (flags AND FLAG_PROGRESS \<noteq> 0),
                              ex_progress_percent = data ! 7,
                              ex_has_expected_final_state = (flags AND FLAG_EXPECTED_STATE \<noteq> 0),
                              ex_expected_final_state = expected_state\<rparr>,
                           res_remote_state = remote_state, res_error = error, res_latency_ms = latency_ms\<rparr>
                        in if o2 + error_size \<noteq> length data \<or> \<not> flags_consistent flags es ed rs rd error_size \<or>
                              \<not> NetResult_consistent result
                           then Inl EspNowResultCodecError.INVALID_PAYLOAD else Inr result))))"

definition result_decode :: "TransactionId \<Rightarrow> span \<Rightarrow> u32 \<Rightarrow> EspNowResultCodecError + NetResult" where
  "result_decode transaction_id data latency_ms =
     (case data of None \<Rightarrow> Inl EspNowResultCodecError.INVALID_PAYLOAD
      | Some d \<Rightarrow>
          if transaction_id = 0 \<or> length d < RESULT_HEADER_SIZE
          then Inl EspNowResultCodecError.INVALID_PAYLOAD
          else if d ! 0 \<noteq> RESULT_VERSION then Inl EspNowResultCodecError.UNSUPPORTED_VERSION
          else if d ! 2 AND NOT (FLAG_STARTED OR FLAG_ESTIMATED OR FLAG_PROGRESS OR FLAG_EXPECTED_STATE OR
                                 FLAG_REMOTE_STATE OR FLAG_ERROR) \<noteq> 0
          then Inl EspNowResultCodecError.INVALID_PAYLOAD
          else (case (NetResultStatus_of (d ! 1), NetStateCompleteness_of (d ! 3),
                     NetStateCompleteness_of (d ! 4), NetErrorCode_of (d ! 5)) of
            (Some status, Some ec, Some rc, Some error_code) \<Rightarrow>
              result_fields transaction_id d latency_ms status ec rc error_code
          | _ \<Rightarrow> Inl EspNowResultCodecError.INVALID_PAYLOAD))"

text \<open>What of a result travels.\<close>

definition result_carried :: "u32 \<Rightarrow> NetResult \<Rightarrow> NetResult" where
  "result_carried latency_ms result = result\<lparr>res_transport_failure := False, res_latency_ms := latency_ms\<rparr>"

definition result_bytes :: "NetResult \<Rightarrow> bytes" where
  "result_bytes r = result_header r @ expected_part ss_schema r @ expected_part ss_data r @
     remote_part ss_schema r @ remote_part ss_data r @ error_part r"

definition example_result :: NetResult where
  "example_result = NetResult_init\<lparr>res_transaction_id := 5, res_status := SUCCEEDED,
     res_execution := NetExecutionContext_init\<lparr>ex_started := True\<rparr>\<rparr>"

subsection \<open>Round trip\<close>

lemma code_of_code [simp]:
  "NetResultStatus_of (NetResultStatus_code s) = Some s"
  "NetStateCompleteness_of (NetStateCompleteness_code k) = Some k"
  "NetErrorCode_of (NetErrorCode_code e) = Some e"
  by (cases s, simp_all add: NetResultStatus_of_def)
    (cases k, simp_all add: NetStateCompleteness_of_def, cases e, simp_all add: NetErrorCode_of_def)

lemma result_flags_bits:
  "result_flags r AND 0x01 \<noteq> 0 \<longleftrightarrow> ex_started (res_execution r)"
  "result_flags r AND 0x02 \<noteq> 0 \<longleftrightarrow> ex_has_estimated_completion (res_execution r)"
  "result_flags r AND 0x04 \<noteq> 0 \<longleftrightarrow> ex_has_progress (res_execution r)"
  "result_flags r AND 0x08 \<noteq> 0 \<longleftrightarrow> ex_has_expected_final_state (res_execution r)"
  "result_flags r AND 0x10 \<noteq> 0 \<longleftrightarrow> has_remote r"
  "result_flags r AND 0x20 \<noteq> 0 \<longleftrightarrow> has_error r"
  "result_flags r AND NOT (0x01 OR 0x02 OR 0x04 OR 0x08 OR 0x10 OR 0x20) = 0"
  by (simp_all add: result_flags_def)

text \<open>In a consistent result what is not announced is empty, so the encoded parts are the
  fields themselves.\<close>

lemma consistent_parts:
  assumes "NetResult_consistent r"
  shows "expected_part ss_schema r = ss_schema (ex_expected_final_state (res_execution r))"
    and "expected_part ss_data r = ss_data (ex_expected_final_state (res_execution r))"
    and "remote_part ss_schema r = ss_schema (res_remote_state r)"
    and "remote_part ss_data r = ss_data (res_remote_state r)"
    and "error_part r = er_message (res_error r)"
    and "NetStateSnapshot_consistent (ex_expected_final_state (res_execution r))"
    and "ex_has_expected_final_state (res_execution r) \<longleftrightarrow>
           ss_completeness (ex_expected_final_state (res_execution r)) \<noteq> NOT_PROVIDED"
  using NetResult_consistentD [OF assms]
  by (auto simp: expected_part_def remote_part_def error_part_def has_remote_def has_error_def
      NetExecutionContext_consistent_def NetStateSnapshot_consistent_def NetError_consistent_def split: if_splits)

lemma decode_state_ok:
  assumes "NetStateSnapshot_consistent st" and "NetStateSnapshot_wf st"
    and "segment off (length (ss_schema st)) d = ss_schema st"
    and "take (length (ss_data st)) (drop (off + length (ss_schema st)) d) = ss_data st"
  shows "decode_state d off (length (ss_schema st)) (length (ss_data st)) (ss_completeness st) =
    Some (st, off + length (ss_schema st) + length (ss_data st))"
proof (cases "ss_completeness st = NOT_PROVIDED")
  case True
  then have "st = NetStateSnapshot_init"
    using assms(1) by (cases st) (simp add: NetStateSnapshot_consistent_def NetStateSnapshot_init_def)
  then show ?thesis by (simp add: decode_state_def NetStateSnapshot_init_def)
next
  case False
  then have ne: "ss_schema st \<noteq> []" "ss_data st \<noteq> []"
    using assms(1) by (auto simp: NetStateSnapshot_consistent_def)
  have wf: "text_ok 31 (ss_schema st)" "length (ss_data st) \<le> 256"
    using assms(2) by (auto simp: NetStateSnapshot_wf_def)
  show ?thesis
    using ne wf False assms(1,4) copy_text_assign [OF wf(1) assms(3) refl]
    by (cases st) (simp add: decode_state_def bytes_assign_take)
qed

lemma length_result_header [simp]: "length (result_header r) = 20"
  by (simp add: result_header_def)

lemma result_encode_ok:
  assumes "NetResult_consistent r" and "result_total r \<le> RESULT_MAX_SIZE"
  shows "result_encode r = Inr (result_bytes r)" and "length (result_bytes r) = result_total r"
  using assms by (simp_all add: result_encode_def result_bytes_def result_total_def bytes_assign_exact)

lemma result_header_fields:
  assumes "NetResult_wf r" and "NetResult_consistent r"
  defines "d \<equiv> result_bytes r"
  shows "d ! 0 = 1" and "d ! 1 = NetResultStatus_code (res_status r)" and "d ! 2 = result_flags r"
    and "d ! 3 = NetStateCompleteness_code (ss_completeness (ex_expected_final_state (res_execution r)))"
    and "d ! 4 = NetStateCompleteness_code (ss_completeness (res_remote_state r))"
    and "d ! 5 = NetErrorCode_code (er_code (res_error r))"
    and "(d ! 6 \<noteq> 0) = er_retryable (res_error r)" and "d ! 7 = ex_progress_percent (res_execution r)"
    and "get_u32 (drop 8 d) = ex_estimated_completion_ms (res_execution r)"
    and "unat (d ! 12) = length (ss_schema (ex_expected_final_state (res_execution r)))"
    and "unat (get_u16 (drop 13 d)) = length (ss_data (ex_expected_final_state (res_execution r)))"
    and "unat (d ! 15) = length (ss_schema (res_remote_state r))"
    and "unat (get_u16 (drop 16 d)) = length (ss_data (res_remote_state r))"
    and "unat (d ! 18) = length (er_message (res_error r))"
proof -
  have sizes: "length (ss_schema (ex_expected_final_state (res_execution r))) < 256"
    "length (ss_data (ex_expected_final_state (res_execution r))) < 65536"
    "length (ss_schema (res_remote_state r)) < 256" "length (ss_data (res_remote_state r)) < 65536"
    "length (er_message (res_error r)) < 256"
    using assms(1) by (auto simp: NetResult_wf_def NetStateSnapshot_wf_def text_ok_def)
  show "d ! 0 = 1" "d ! 1 = NetResultStatus_code (res_status r)" "d ! 2 = result_flags r"
    "d ! 3 = NetStateCompleteness_code (ss_completeness (ex_expected_final_state (res_execution r)))"
    "d ! 4 = NetStateCompleteness_code (ss_completeness (res_remote_state r))"
    "d ! 5 = NetErrorCode_code (er_code (res_error r))"
    "(d ! 6 \<noteq> 0) = er_retryable (res_error r)" "d ! 7 = ex_progress_percent (res_execution r)"
    "get_u32 (drop 8 d) = ex_estimated_completion_ms (res_execution r)"
    "unat (d ! 12) = length (ss_schema (ex_expected_final_state (res_execution r)))"
    "unat (get_u16 (drop 13 d)) = length (ss_data (ex_expected_final_state (res_execution r)))"
    "unat (d ! 15) = length (ss_schema (res_remote_state r))"
    "unat (get_u16 (drop 16 d)) = length (ss_data (res_remote_state r))"
    "unat (d ! 18) = length (er_message (res_error r))"
    using sizes unfolding d_def result_bytes_def result_header_def consistent_parts [OF assms(2)]
    by (simp_all add: nth_append)
qed

lemma result_body_parts:
  assumes "NetResult_consistent r"
  defines "d \<equiv> result_bytes r" and "x \<equiv> ex_expected_final_state (res_execution r)" and "y \<equiv> res_remote_state r"
  shows "segment 20 (length (ss_schema x)) d = ss_schema x"
    and "take (length (ss_data x)) (drop (20 + length (ss_schema x)) d) = ss_data x"
    and "segment (20 + length (ss_schema x) + length (ss_data x)) (length (ss_schema y)) d = ss_schema y"
    and "take (length (ss_data y)) (drop (20 + length (ss_schema x) + length (ss_data x) + length (ss_schema y)) d) = ss_data y"
    and "segment (20 + length (ss_schema x) + length (ss_data x) + length (ss_schema y) + length (ss_data y))
           (length (er_message (res_error r))) d = er_message (res_error r)"
  unfolding d_def result_bytes_def consistent_parts [OF assms(1)] x_def [symmetric] y_def [symmetric]
  by (simp_all add: segment_def)

lemma result_decode_encoded:
  assumes "NetResult_consistent r" and "NetResult_wf r" and "result_total r \<le> RESULT_MAX_SIZE"
  shows "result_decode (res_transaction_id r) (Some (result_bytes r)) l = Inr (result_carried l r)"
proof -
  define d where "d = result_bytes r"
  define x where "x = ex_expected_final_state (res_execution r)"
  define y where "y = res_remote_state r"
  define e where "e = res_error r"
  define o1 where "o1 = 20 + length (ss_schema x) + length (ss_data x)"
  define o2 where "o2 = o1 + length (ss_schema y) + length (ss_data y)"
  note h = result_header_fields [OF assms(2,1), folded d_def x_def y_def e_def]
  note parts = result_body_parts [OF assms(1), folded d_def x_def y_def e_def, folded o1_def, folded o2_def]
  note con = NetResult_consistentD [OF assms(1)]
  have wf: "NetStateSnapshot_wf x" "NetStateSnapshot_wf y" "text_ok 95 (er_message e)"
    using assms(2) by (auto simp: NetResult_wf_def x_def y_def e_def)
  have small: "length (ss_schema x) \<le> 31" "length (ss_schema y) \<le> 31" "length (ss_data x) \<le> 256"
      "length (ss_data y) \<le> 256" "length (er_message e) \<le> 95"
    using wf by (auto simp: NetStateSnapshot_wf_def text_ok_def)
  have len: "length d = o2 + length (er_message e)"
    using result_encode_ok(2) [OF assms(1,3)] consistent_parts [OF assms(1)]
    by (simp add: d_def o2_def o1_def result_total_def x_def y_def e_def)
  have ds1: "decode_state d 20 (length (ss_schema x)) (length (ss_data x)) (ss_completeness x) = Some (x, o1)"
    using decode_state_ok [OF consistent_parts(6) [OF assms(1), folded x_def] wf(1) parts(1,2)]
    by (simp add: o1_def)
  have ds2: "decode_state d o1 (length (ss_schema y)) (length (ss_data y)) (ss_completeness y) = Some (y, o2)"
    using decode_state_ok [OF con(3) [folded y_def] wf(2) parts(3,4)] by (simp add: o2_def)
  have er: "decode_error (result_flags r) (er_code e) d o2 (length (er_message e)) = Some e"
  proof (cases "has_error r")
    case True
    then show ?thesis
      using result_flags_bits(6) [of r] copy_text_assign [OF wf(3) parts(5) refl] h(7)
      by (cases e) (simp add: decode_error_def)
  next
    case False
    then have "e = NetError_init"
      using con(4) by (cases e) (auto simp: has_error_def NetError_consistent_def NetError_init_def e_def)
    then show ?thesis using False result_flags_bits(6) [of r] by (simp add: decode_error_def)
  qed
  have fl: "flags_consistent (result_flags r) (length (ss_schema x)) (length (ss_data x))
      (length (ss_schema y)) (length (ss_data y)) (length (er_message e))"
    using consistent_parts(6,7) [OF assms(1)] con(3,4)
    unfolding flags_consistent_def result_flags_bits x_def y_def e_def
    by (auto simp: has_remote_def has_error_def NetStateSnapshot_consistent_def NetError_consistent_def split: if_splits)
  have res: "\<lparr>res_transport_failure = False, res_transaction_id = res_transaction_id r,
      res_status = res_status r,
      res_execution = \<lparr>ex_started = ex_started (res_execution r),
         ex_has_estimated_completion = ex_has_estimated_completion (res_execution r),
         ex_estimated_completion_ms = ex_estimated_completion_ms (res_execution r),
         ex_has_progress = ex_has_progress (res_execution r),
         ex_progress_percent = ex_progress_percent (res_execution r),
         ex_has_expected_final_state = ex_has_expected_final_state (res_execution r),
         ex_expected_final_state = x\<rparr>,
      res_remote_state = y, res_error = e, res_latency_ms = l\<rparr> = result_carried l r"
    by (cases r) (simp add: result_carried_def x_def y_def e_def)
  have "NetResult_consistent (result_carried l r)"
    using assms(1) by (auto simp: result_carried_def NetResult_consistent_def split: if_splits)
  then have "result_fields (res_transaction_id r) d l (res_status r) (ss_completeness x) (ss_completeness y) (er_code e) =
      Inr (result_carried l r)"
    unfolding result_fields_def Let_def h result_flags_bits
    using small len ds1 ds2 er fl by (simp add: res o1_def [symmetric] o2_def [symmetric])
  moreover have "20 \<le> length d" using len by (simp add: o2_def o1_def)
  ultimately have "result_decode (res_transaction_id r) (Some d) l = Inr (result_carried l r)"
    using con(1) result_flags_bits(7) [of r] by (simp add: result_decode_def h h(2) [unfolded One_nat_def])
  then show ?thesis by (simp add: d_def)
qed

interpretation result_codec: message_codec
  "\<lambda>r. NetResult_consistent r \<and> NetResult_wf r \<and> result_total r \<le> RESULT_MAX_SIZE \<and> res_transaction_id r = t"
  "\<lambda>r. case result_encode r of Inl _ \<Rightarrow> None | Inr bs \<Rightarrow> Some bs"
  "\<lambda>bs. case result_decode t (Some bs) l of Inl _ \<Rightarrow> None | Inr r \<Rightarrow> Some r"
  "result_carried l" RESULT_MAX_SIZE
  for t l
proof (unfold_locales, goal_cases)
  case (1 r)
  moreover have "result_bytes r \<noteq> []" by (simp add: result_bytes_def result_header_def)
  ultimately show ?case using result_decode_encoded [of r] by (auto simp: result_encode_ok)
qed simp

subsection \<open>What the decoder lets through\<close>

lemma decode_state_wf: "decode_state d off n k c = Some (st, off') \<Longrightarrow> NetStateSnapshot_wf st"
  by (auto simp: decode_state_def NetStateSnapshot_wf_def NetStateSnapshot_init_def Let_def
      split: if_splits prod.splits dest!: text_assign_ok bytes_assign_bound)

lemma decode_error_wf: "decode_error f c d off n = Some e \<Longrightarrow> text_ok MAX_MESSAGE_LENGTH (er_message e)"
  using text_assign_ok
  by (auto simp: decode_error_def NetError_init_def split: if_splits prod.splits bool.splits)

lemma result_fields_sound:
  assumes "result_fields t d l s ec rc err = Inr r"
  shows "NetResult_consistent r \<and> NetResult_wf r \<and> res_transaction_id r = t \<and> res_latency_ms r = l \<and>
    \<not> res_transport_failure r"
  using assms decode_state_wf decode_error_wf
  by (auto simp: result_fields_def Let_def NetResult_wf_def split: if_splits option.splits prod.splits)

subsection \<open>Properties\<close>

text \<open>C15 (roundtrip): a consistent result of legal fields that fits 640 bytes is encoded; sent as
  frames that arrive in any order, possibly repeated, the receiver decodes from the
  reassembled bytes the same result, except that the local metadata is reset: the receiver's
  latency replaces the sender's and no transport failure is reported.\<close>

theorem result_survives_transport:
  assumes "NetResult_consistent res" and "NetResult_wf res" and "result_total res \<le> RESULT_MAX_SIZE"
    and "envelope_ok env" and "env_transaction_id env = res_transaction_id res"
    and "length (ra_message r) = MAX_MESSAGE_SIZE" and "ra_received_mask r = 0"
    and "set is = {i. i < fragment_count (result_total res)}"
  shows "\<exists>bs. result_encode res = Inr bs \<and>
    (\<forall>i\<in>set is. encode_fragment env (Some bs) (length bs) i = Inr (frame_of env bs i)) \<and>
    (case fst (reassembler_take (accept_all (map (frame_of env bs) is) r)) of
       None \<Rightarrow> False
     | Some rm \<Rightarrow> result_decode (env_transaction_id (rm_envelope rm)) (Some (rm_data rm)) latency =
         Inr (res\<lparr>res_transport_failure := False, res_latency_ms := latency\<rparr>))"
  using result_codec.framed_roundtrip [of res "res_transaction_id res" env r "is" latency] assms
    result_decode_encoded [OF assms(1-3), of latency]
  by (auto simp: result_encode_ok result_carried_def)

text \<open>C17 (type): whatever bytes arrive, a result the decoder accepts is consistent and within
  every size limit, answers the transaction it was decoded for, carries the receiver's
  latency and is never marked as a transport failure.\<close>

theorem result_decode_sound:
  assumes "result_decode t data latency = Inr r"
  shows "NetResult_consistent r \<and> NetResult_wf r \<and> res_transaction_id r = t \<and>
    res_latency_ms r = latency \<and> \<not> res_transport_failure r"
  using assms result_fields_sound
  by (auto simp: result_decode_def split: option.splits if_splits)

lemma example_result_ok:
  "NetResult_consistent example_result" "NetResult_wf example_result" "result_total example_result = 20"
  "res_transaction_id example_result = 5"
  by (simp_all add: example_result_def message_inits consistency_defs NetResult_wf_def NetStateSnapshot_wf_def
      result_total_def expected_part_def remote_part_def error_part_def has_remote_def has_error_def)

lemma result_survives_transport_witness:
  "\<exists>bs. result_encode example_result = Inr bs"
  using result_survives_transport [OF example_result_ok(1,2), of
      "\<lparr>env_kind = EspNowFrameKind.RESULT, env_flags = 1, env_source_boot_id = 7,
         env_transaction_id = 5, env_sequence = 4\<rparr>" reassembler_init "[0]"]
  by (auto simp: example_result_ok envelope_ok_def reassembler_init_def one_fragment)

lemma result_decode_sound_witness:
  "res_latency_ms (result_carried 70 example_result) = 70"
  using result_decode_sound [OF result_decode_encoded [OF example_result_ok(1,2), of 70]]
  by (simp add: example_result_ok)

end
