(* ===== verification/Command_Dispatcher.thy ===== *)
theory Command_Dispatcher
  imports Protocol_Runtime Result_Codec
begin

text \<open>
  \<open>command_dispatcher.h\<close>: the handler interface and the dispatcher that runs one inbound
  command at a time: decode, start the handler, poll it, enforce the deadline, and stage the
  encoded answer. The handler is a record of operations over a state of its own type, as
  the pointer to an abstract class is in the source; the dispatcher's theorems hold for
  every handler, or for every handler that keeps the contract \<open>net_command_handler\<close>.
\<close>

datatype NetCommandHandlerStartStatus = STARTED | BUSY | INVALID_COMMAND | REJECTED

record 'h NetCommandHandler =
  nh_start :: "NetCommand \<Rightarrow> u32 \<Rightarrow> 'h \<Rightarrow> NetCommandHandlerStartStatus \<times> 'h"
  nh_loop :: "u32 \<Rightarrow> 'h \<Rightarrow> 'h"
  nh_has_result :: "TransactionId \<Rightarrow> 'h \<Rightarrow> bool"
  nh_take_result :: "TransactionId \<Rightarrow> 'h \<Rightarrow> NetResult option \<times> 'h"
  nh_cancel :: "TransactionId \<Rightarrow> 'h \<Rightarrow> bool \<times> 'h"

datatype InboundCommandDispatcherState = IDLE | ACTIVE | RESULT_READY

record PendingNetResult =
  pn_peer_index :: PeerIndex
  pn_transaction_id :: TransactionId
  pn_payload :: bytes
  pn_terminal :: bool

definition PendingNetResult_init :: PendingNetResult where
  "PendingNetResult_init =
     \<lparr>pn_peer_index = INVALID_PEER_INDEX, pn_transaction_id = 0, pn_payload = [], pn_terminal = True\<rparr>"

text \<open>The two pointers of the dispatcher are flags: whether a handler and whether an observer is
  registered. The handler's operations and state are arguments, because several dispatchers
  may share one handler.\<close>

record InboundCommandDispatcher =
  cd_handler :: bool
  cd_identity_observer :: bool
  cd_command :: NetCommand
  cd_pending :: PendingNetResult
  cd_peer_index :: PeerIndex
  cd_transaction_id :: TransactionId
  cd_started_ms :: u32
  cd_state :: InboundCommandDispatcherState

definition dispatcher_init :: InboundCommandDispatcher where
  "dispatcher_init =
     \<lparr>cd_handler = False, cd_identity_observer = False, cd_command = NetCommand_init,
      cd_pending = PendingNetResult_init, cd_peer_index = INVALID_PEER_INDEX, cd_transaction_id = 0,
      cd_started_ms = 0, cd_state = InboundCommandDispatcherState.IDLE\<rparr>"

definition set_handler :: "bool \<Rightarrow> InboundCommandDispatcher \<Rightarrow> InboundCommandDispatcher" where
  "set_handler registered d = d\<lparr>cd_handler := registered\<rparr>"

definition set_identity_observer :: "bool \<Rightarrow> InboundCommandDispatcher \<Rightarrow> InboundCommandDispatcher" where
  "set_identity_observer registered d = d\<lparr>cd_identity_observer := registered\<rparr>"

definition dispatcher_reset :: "InboundCommandDispatcher \<Rightarrow> InboundCommandDispatcher" where
  "dispatcher_reset d =
     d\<lparr>cd_command := NetCommand_init, cd_pending := PendingNetResult_init,
       cd_peer_index := INVALID_PEER_INDEX, cd_transaction_id := 0, cd_started_ms := 0,
       cd_state := InboundCommandDispatcherState.IDLE\<rparr>"

definition stage_result :: "NetResult \<Rightarrow> InboundCommandDispatcher \<Rightarrow> bool \<times> InboundCommandDispatcher" where
  "stage_result result d =
     (case result_encode result of
        Inl _ \<Rightarrow> (False, d)
      | Inr payload \<Rightarrow>
          (True, d\<lparr>cd_pending := \<lparr>pn_peer_index = cd_peer_index d, pn_transaction_id = cd_transaction_id d,
                     pn_payload = payload, pn_terminal = (res_status result \<noteq> IN_PROGRESS)\<rparr>,
                   cd_state := RESULT_READY\<rparr>))"

definition complete_result :: "NetResult \<Rightarrow> InboundCommandDispatcher \<Rightarrow> InboundCommandDispatcher" where
  "complete_result result d =
     (case stage_result result d of
        (True, d1) \<Rightarrow> d1
      | (False, d1) \<Rightarrow>
          (let fallback = NetResult_init\<lparr>res_transaction_id := cd_transaction_id d1, res_status := FAILED,
                 res_error := NetError_init\<lparr>er_code := INTERNAL_ERROR,
                   er_message := snd (text_assign MAX_MESSAGE_LENGTH (Some (cstr ''failed to encode command result'')))\<rparr>,
                 res_latency_ms := res_latency_ms result\<rparr>
           in case stage_result fallback d1 of (True, d2) \<Rightarrow> d2 | (False, d2) \<Rightarrow> dispatcher_reset d2))"

definition failure_result :: "NetErrorCode \<Rightarrow> string \<Rightarrow> bool \<Rightarrow> u32 \<Rightarrow> InboundCommandDispatcher \<Rightarrow> NetResult" where
  "failure_result code message retryable now_ms d =
     NetResult_init\<lparr>res_transaction_id := cd_transaction_id d, res_status := FAILED,
       res_error := NetError_init\<lparr>er_code := code, er_retryable := retryable,
         er_message := snd (text_assign MAX_MESSAGE_LENGTH (Some (cstr message)))\<rparr>,
       res_latency_ms := now_ms - cd_started_ms d\<rparr>"

definition complete_failure ::
    "NetErrorCode \<Rightarrow> string \<Rightarrow> bool \<Rightarrow> u32 \<Rightarrow> InboundCommandDispatcher \<Rightarrow> InboundCommandDispatcher" where
  "complete_failure code message retryable now_ms d =
     complete_result (failure_result code message retryable now_ms d) d"

text \<open>\<open>accept\<close> returns the flag, the identity reported to the observer, and the new states.\<close>

definition dispatcher_accept ::
    "'h NetCommandHandler \<Rightarrow> EspNowInboundApplicationMessage \<Rightarrow> u32 \<Rightarrow> InboundCommandDispatcher \<Rightarrow> 'h \<Rightarrow>
     bool \<times> (PeerIndex \<times> NetCommand) option \<times> InboundCommandDispatcher \<times> 'h" where
  "dispatcher_accept handler inbound now_ms d h =
     (let env = rm_envelope (im_message inbound) in
      if cd_state d \<noteq> InboundCommandDispatcherState.IDLE \<or> im_peer_index inbound = INVALID_PEER_INDEX \<or>
         env_kind env \<noteq> EspNowFrameKind.COMMAND \<or> env_transaction_id env = 0
      then (False, None, d, h)
      else
        (let d1 = d\<lparr>cd_peer_index := im_peer_index inbound, cd_transaction_id := env_transaction_id env,
                    cd_started_ms := now_ms, cd_command := NetCommand_init\<rparr>
         in case command_decode (cd_transaction_id d1) (Some (rm_data (im_message inbound))) of
              Inl _ \<Rightarrow>
                (True, None,
                 complete_failure NetErrorCode.INVALID_REQUEST ''invalid ESP-NOW command payload'' False now_ms d1, h)
            | Inr command \<Rightarrow>
                (let d2 = d1\<lparr>cd_command := command\<rparr>;
                     observed = (if cd_identity_observer d2 then Some (cd_peer_index d2, command) else None)
                 in if \<not> cd_handler d2 then
                      (True, observed,
                       complete_failure TARGET_UNAVAILABLE ''no command handler registered'' True now_ms d2, h)
                    else
                      (let (status, h1) = nh_start handler command now_ms h
                       in (True, observed,
                           (case status of
                              STARTED \<Rightarrow> d2\<lparr>cd_state := ACTIVE\<rparr>
                            | INVALID_COMMAND \<Rightarrow>
                                complete_failure NetErrorCode.INVALID_REQUEST
                                  ''command handler rejected invalid command'' False now_ms d2
                            | BUSY \<Rightarrow>
                                complete_failure TARGET_UNAVAILABLE ''command handler busy'' True now_ms d2
                            | REJECTED \<Rightarrow>
                                complete_failure REMOTE_REJECTED ''command handler rejected command'' False now_ms d2),
                           h1)))))"

definition can_accept_interrupt ::
    "EspNowInboundApplicationMessage \<Rightarrow> InboundCommandDispatcher \<Rightarrow> InboundCommandDispatcher \<Rightarrow> bool" where
  "can_accept_interrupt inbound operation d \<longleftrightarrow>
     cd_state d = InboundCommandDispatcherState.IDLE \<and> cd_state operation = ACTIVE \<and>
     im_peer_index inbound = cd_peer_index operation \<and>
     (case command_decode (env_transaction_id (rm_envelope (im_message inbound)))
             (Some (rm_data (im_message inbound))) of
        Inl _ \<Rightarrow> False
      | Inr incoming \<Rightarrow>
          cmd_name incoming = cstr ''stop'' \<and>
          cmd_device_id incoming = cmd_device_id (cd_command operation) \<and>
          cmd_resource incoming = cmd_resource (cd_command operation) \<and>
          cmd_source_device_id incoming = cmd_source_device_id (cd_command operation) \<and>
          cmd_source_boot_id incoming = cmd_source_boot_id (cd_command operation))"

definition accept_interrupt ::
    "'h NetCommandHandler \<Rightarrow> EspNowInboundApplicationMessage \<Rightarrow> InboundCommandDispatcher \<Rightarrow> u32 \<Rightarrow>
     InboundCommandDispatcher \<Rightarrow> 'h \<Rightarrow>
     bool \<times> (PeerIndex \<times> NetCommand) option \<times> InboundCommandDispatcher \<times> 'h" where
  "accept_interrupt handler inbound operation now_ms d h =
     (if can_accept_interrupt inbound operation d then dispatcher_accept handler inbound now_ms d h
      else (False, None, d, h))"

text \<open>\<open>loop\<close>; \<open>None\<close> is the dereference of a null handler, which the branch after the deadline
  test does not guard.\<close>

definition dispatcher_loop ::
    "'h NetCommandHandler \<Rightarrow> u32 \<Rightarrow> InboundCommandDispatcher \<Rightarrow> 'h \<Rightarrow> (InboundCommandDispatcher \<times> 'h) option" where
  "dispatcher_loop handler now_ms d h =
     (if cd_state d \<noteq> ACTIVE then Some (d, h)
      else if now_ms - cd_started_ms d \<ge> cmd_timeout_ms (cd_command d) then
        (let h1 = (if cd_handler d then snd (nh_cancel handler (cd_transaction_id d) h) else h)
         in Some (complete_failure NetErrorCode.TIMED_OUT ''remote command execution timed out'' False now_ms d, h1))
      else if \<not> cd_handler d then None
      else
        (let h1 = nh_loop handler now_ms h in
         if \<not> nh_has_result handler (cd_transaction_id d) h1 then Some (d, h1)
         else
           (case nh_take_result handler (cd_transaction_id d) h1 of
              (Some result, h2) \<Rightarrow>
                if res_transaction_id result \<noteq> cd_transaction_id d \<or> \<not> NetResult_consistent result
                then Some (complete_failure INTERNAL_ERROR ''command handler returned invalid result'' False now_ms d, h2)
                else Some (complete_result result d, h2)
            | (None, h2) \<Rightarrow>
                Some (complete_failure INTERNAL_ERROR ''command handler returned invalid result'' False now_ms d, h2))))"

definition dispatcher_has_result :: "InboundCommandDispatcher \<Rightarrow> bool" where
  "dispatcher_has_result d \<longleftrightarrow> cd_state d = RESULT_READY"

definition dispatcher_take_result ::
    "InboundCommandDispatcher \<Rightarrow> PendingNetResult option \<times> InboundCommandDispatcher" where
  "dispatcher_take_result d =
     (if \<not> dispatcher_has_result d then (None, d)
      else
        (let pending = cd_pending d; d1 = d\<lparr>cd_pending := PendingNetResult_init\<rparr>
         in (Some pending, if pn_terminal pending then dispatcher_reset d1 else d1\<lparr>cd_state := ACTIVE\<rparr>)))"


subsection \<open>What the dispatcher promises\<close>

text \<open>The dispatcher after staging a result, and what a staged answer is: bytes from which the
  requester decodes a consistent result of the transaction.\<close>

definition staged :: "NetResult \<Rightarrow> InboundCommandDispatcher \<Rightarrow> InboundCommandDispatcher" where
  "staged result d =
     d\<lparr>cd_pending := \<lparr>pn_peer_index = cd_peer_index d, pn_transaction_id = cd_transaction_id d,
         pn_payload = result_bytes result, pn_terminal = (res_status result \<noteq> IN_PROGRESS)\<rparr>,
       cd_state := RESULT_READY\<rparr>"

definition sendable :: "TransactionId \<Rightarrow> NetResult \<Rightarrow> bool" where
  "sendable t r \<longleftrightarrow>
     NetResult_consistent r \<and> NetResult_wf r \<and> result_total r \<le> RESULT_MAX_SIZE \<and> res_transaction_id r = t"

definition failure_ok :: "NetErrorCode \<Rightarrow> string \<Rightarrow> bool" where
  "failure_ok code s \<longleftrightarrow> code \<noteq> NetErrorCode.NONE \<and> s \<noteq> [] \<and> length s \<le> 95 \<and> CHR 0x00 \<notin> set s"

definition pending_answers :: "PendingNetResult \<Rightarrow> bool" where
  "pending_answers p \<longleftrightarrow>
     (\<exists>r. sendable (pn_transaction_id p) r \<and> pn_payload p = result_bytes r \<and>
          pn_terminal p = (res_status r \<noteq> IN_PROGRESS))"

definition serves_command :: "InboundCommandDispatcher \<Rightarrow> bool" where
  "serves_command d \<longleftrightarrow>
     cd_state d = ACTIVE \<or> (cd_state d = RESULT_READY \<and> \<not> pn_terminal (cd_pending d))"

definition dispatcher_inv :: "InboundCommandDispatcher \<Rightarrow> bool" where
  "dispatcher_inv d \<longleftrightarrow>
     (cd_state d \<noteq> InboundCommandDispatcherState.IDLE \<longrightarrow>
        cd_transaction_id d \<noteq> 0 \<and> cd_peer_index d \<noteq> INVALID_PEER_INDEX) \<and>
     (serves_command d \<longrightarrow>
        NetCommand_valid (cd_command d) \<and> cmd_transaction_id (cd_command d) = cd_transaction_id d) \<and>
     (cd_state d = RESULT_READY \<longrightarrow>
        pn_peer_index (cd_pending d) = cd_peer_index d \<and>
        pn_transaction_id (cd_pending d) = cd_transaction_id d \<and> pending_answers (cd_pending d))"

text \<open>The bounded containers of \<open>NetResult\<close> are part of its type in the source.\<close>

definition bounded_handler :: "'h NetCommandHandler \<Rightarrow> bool" where
  "bounded_handler handler \<longleftrightarrow>
     (\<forall>t h r. fst (nh_take_result handler t h) = Some r \<longrightarrow> NetResult_wf r)"

text \<open>Every state one dispatcher can be in: its operations in any order, handlers registered and
  removed at any time, the handler's state changed by anyone in between.\<close>

inductive dispatcher_reach ::
    "'h NetCommandHandler \<Rightarrow> InboundCommandDispatcher \<Rightarrow> 'h \<Rightarrow> bool" for handler where
  reach_start: "dispatcher_reach handler dispatcher_init h"
| reach_handler: "dispatcher_reach handler d h \<Longrightarrow> dispatcher_reach handler (set_handler b d) h"
| reach_observer: "dispatcher_reach handler d h \<Longrightarrow> dispatcher_reach handler (set_identity_observer b d) h"
| reach_other: "dispatcher_reach handler d h \<Longrightarrow> dispatcher_reach handler d h'"
| reach_accept: "dispatcher_reach handler d h \<Longrightarrow>
    dispatcher_accept handler inbound now d h = (ok, seen, d', h') \<Longrightarrow> dispatcher_reach handler d' h'"
| reach_loop: "dispatcher_reach handler d h \<Longrightarrow>
    dispatcher_loop handler now d h = Some (d', h') \<Longrightarrow> dispatcher_reach handler d' h'"
| reach_take: "dispatcher_reach handler d h \<Longrightarrow>
    dispatcher_take_result d = (p, d') \<Longrightarrow> dispatcher_reach handler d' h"

text \<open>Agreement of a dispatcher with a handler whose current transaction is \<open>serving\<close>.\<close>

definition paired ::
    "('h \<Rightarrow> bool) \<Rightarrow> ('h \<Rightarrow> TransactionId) \<Rightarrow> InboundCommandDispatcher \<Rightarrow> 'h \<Rightarrow> bool" where
  "paired hinv serving d h \<longleftrightarrow>
     dispatcher_inv d \<and> cd_handler d \<and> hinv h \<and>
     serving h = (if serves_command d then cd_transaction_id d else 0)"

text \<open>One dispatcher with its own registered handler, from given states of both.\<close>

inductive service_reach ::
    "'h NetCommandHandler \<Rightarrow> InboundCommandDispatcher \<Rightarrow> 'h \<Rightarrow> InboundCommandDispatcher \<Rightarrow> 'h \<Rightarrow> bool"
    for handler d0 h0 where
  service_start: "service_reach handler d0 h0 d0 h0"
| service_accept: "service_reach handler d0 h0 d h \<Longrightarrow>
    dispatcher_accept handler inbound now d h = (ok, seen, d', h') \<Longrightarrow> service_reach handler d0 h0 d' h'"
| service_loop: "service_reach handler d0 h0 d h \<Longrightarrow>
    dispatcher_loop handler now d h = Some (d', h') \<Longrightarrow> service_reach handler d0 h0 d' h'"
| service_take: "service_reach handler d0 h0 d h \<Longrightarrow>
    dispatcher_take_result d = (p, d') \<Longrightarrow> service_reach handler d0 h0 d' h"

text \<open>A dispatcher at power-on with a handler registered.\<close>

definition ready_dispatcher :: "bool \<Rightarrow> InboundCommandDispatcher" where
  "ready_dispatcher observed = set_identity_observer observed (set_handler True dispatcher_init)"

definition example_inbound :: EspNowInboundApplicationMessage where
  "example_inbound =
     \<lparr>im_peer_index = 2,
      im_message = \<lparr>rm_envelope = \<lparr>env_kind = EspNowFrameKind.COMMAND, env_flags = 1, env_source_boot_id = 7,
          env_transaction_id = 5, env_sequence = 4\<rparr>,
        rm_data = [1, 1, 0, 1, 0, 0, 0, 0, 0, 1, 65, 66]\<rparr>\<rparr>"

definition silent_handler :: "unit NetCommandHandler" where
  "silent_handler =
     \<lparr>nh_start = \<lambda>_ _ h. (STARTED, h), nh_loop = \<lambda>_ h. h, nh_has_result = \<lambda>_ _. False,
      nh_take_result = \<lambda>_ h. (None, h), nh_cancel = \<lambda>_ h. (True, h)\<rparr>"

definition example_active :: InboundCommandDispatcher where
  "example_active =
     dispatcher_init\<lparr>cd_handler := True, cd_peer_index := 2, cd_transaction_id := 5, cd_started_ms := 10,
       cd_command := \<lparr>cmd_transaction_id = 5, cmd_device_id = [65], cmd_resource = [], cmd_name = [66],
         cmd_payload = [], cmd_source_device_id = [], cmd_source_boot_id = 0, cmd_timeout_ms = 1\<rparr>,
       cd_state := ACTIVE\<rparr>"

subsection \<open>Staging\<close>

lemma staged_fields [simp]:
  "cd_state (staged r d) = RESULT_READY" "cd_transaction_id (staged r d) = cd_transaction_id d"
  "cd_peer_index (staged r d) = cd_peer_index d" "cd_command (staged r d) = cd_command d"
  "cd_handler (staged r d) = cd_handler d"
  "pn_terminal (cd_pending (staged r d)) = (res_status r \<noteq> IN_PROGRESS)"
  by (simp_all add: staged_def)

lemma stage_result_sendable: "sendable t r \<Longrightarrow> stage_result r d = (True, staged r d)"
  by (simp add: stage_result_def staged_def sendable_def result_encode_ok)

lemma of_char_zero_iff: "of_char c = (0::u8) \<longleftrightarrow> c = CHR 0x00"
proof
  assume "of_char c = (0::u8)"
  then have "unat (of_nat (of_char c) :: u8) = 0" by (simp add: of_nat_of_char)
  then have "of_char c = (0::nat)" by (simp only: unat_of_nat_u8 [OF nat_of_char_less_256])
  then have "of_char c = (of_char (CHR 0x00) :: nat)" by simp
  then show "c = CHR 0x00" by (simp only: of_char_eq_iff)
qed simp

lemma zero_notin_cstr: "(0::u8) \<notin> set (cstr s) \<longleftrightarrow> CHR 0x00 \<notin> set s"
proof -
  have "(0::u8) \<in> set (cstr s) \<longleftrightarrow> (\<exists>c\<in>set s. of_char c = (0::u8))"
    unfolding cstr_def set_map image_iff by (rule bex_cong [OF refl]) (rule eq_commute)
  then show ?thesis by (simp add: of_char_zero_iff del: of_char_Char)
qed

lemma dispatcher_failures_ok [simp]:
  "failure_ok NetErrorCode.TIMED_OUT ''remote command execution timed out''"
  "failure_ok INTERNAL_ERROR ''command handler returned invalid result''"
  "failure_ok INTERNAL_ERROR ''failed to encode command result''"
  "failure_ok NetErrorCode.INVALID_REQUEST ''invalid ESP-NOW command payload''"
  "failure_ok TARGET_UNAVAILABLE ''no command handler registered''"
  "failure_ok NetErrorCode.INVALID_REQUEST ''command handler rejected invalid command''"
  "failure_ok TARGET_UNAVAILABLE ''command handler busy''"
  "failure_ok REMOTE_REJECTED ''command handler rejected command''"
  by (simp_all add: failure_ok_def)

lemma failure_sendable:
  assumes "t \<noteq> 0" and "failure_ok code s"
  shows "sendable t (NetResult_init\<lparr>res_transaction_id := t, res_status := FAILED,
      res_error := \<lparr>er_code = code, er_retryable = b, er_message = snd (text_assign MAX_MESSAGE_LENGTH (Some (cstr s)))\<rparr>,
      res_latency_ms := l\<rparr>)"
proof -
  have "text_ok 95 (cstr s)" and "cstr s \<noteq> []"
    using assms(2) zero_notin_cstr [of s] by (auto simp: failure_ok_def text_ok_def cstr_def)
  then show ?thesis
    using assms
    by (simp add: failure_ok_def sendable_def message_inits consistency_defs NetResult_wf_def NetStateSnapshot_wf_def
        result_total_def expected_part_def remote_part_def error_part_def has_remote_def has_error_def
        text_ok_def)
qed

lemma failure_result_sendable:
  assumes "cd_transaction_id d \<noteq> 0" and "failure_ok code s"
  shows "sendable (cd_transaction_id d) (failure_result code s b now d)"
  using failure_sendable [OF assms, of "now - cd_started_ms d" b]
  by (simp add: failure_result_def NetError_init_def)

lemma complete_failure_eq:
  assumes "cd_transaction_id d \<noteq> 0" and "failure_ok code s"
  shows "complete_failure code s b now d = staged (failure_result code s b now d) d"
  using stage_result_sendable [OF failure_result_sendable [OF assms]]
  by (simp add: complete_failure_def complete_result_def)

lemma complete_result_sendable: "sendable t r \<Longrightarrow> complete_result r d = staged r d"
  by (simp add: complete_result_def stage_result_sendable)

text \<open>A result that is too large is replaced by a failure, never dropped.\<close>

lemma complete_result_cases:
  assumes "cd_transaction_id d \<noteq> 0" and "NetResult_wf r" and "NetResult_consistent r"
    and "res_transaction_id r = cd_transaction_id d"
  shows "\<exists>r'. sendable (cd_transaction_id d) r' \<and> complete_result r d = staged r' d \<and>
    (res_status r' = IN_PROGRESS \<longrightarrow> r' = r)"
proof (cases "result_total r \<le> 640")
  case True
  with assms have "sendable (cd_transaction_id d) r" by (simp add: sendable_def)
  then show ?thesis using complete_result_sendable by blast
next
  case False
  then have "stage_result r d = (False, d)"
    using assms(3) by (simp add: stage_result_def result_encode_def)
  moreover have "sendable (cd_transaction_id d) (NetResult_init\<lparr>res_transaction_id := cd_transaction_id d,
      res_status := FAILED, res_error := NetError_init\<lparr>er_code := INTERNAL_ERROR,
        er_message := snd (text_assign MAX_MESSAGE_LENGTH (Some (cstr ''failed to encode command result'')))\<rparr>,
      res_latency_ms := res_latency_ms r\<rparr>)" (is "sendable _ ?f")
    using failure_sendable [OF assms(1), of INTERNAL_ERROR "''failed to encode command result''" _ False]
    by (simp add: NetError_init_def)
  ultimately have "complete_result r d = staged ?f d"
    by (simp add: complete_result_def stage_result_sendable)
  then show ?thesis using \<open>sendable _ ?f\<close> by (intro exI [of _ ?f]) (simp add: NetResult_init_def)
qed

lemma pending_answers_staged: "sendable (cd_transaction_id d) r \<Longrightarrow> pending_answers (cd_pending (staged r d))"
  by (auto simp: pending_answers_def staged_def)


subsection \<open>The invariant\<close>

lemma dispatcher_inv_staged:
  assumes "cd_transaction_id d \<noteq> 0" and "cd_peer_index d \<noteq> INVALID_PEER_INDEX"
    and "sendable (cd_transaction_id d) r"
    and "res_status r = IN_PROGRESS \<Longrightarrow>
      NetCommand_valid (cd_command d) \<and> cmd_transaction_id (cd_command d) = cd_transaction_id d"
  shows "dispatcher_inv (staged r d)"
  using assms pending_answers_staged [OF assms(3)]
  by (auto simp: dispatcher_inv_def serves_command_def) (simp_all add: staged_def)

lemma failure_result_status [simp]: "res_status (failure_result code s b now d) = FAILED"
  by (simp add: failure_result_def)

lemma dispatcher_inv_failure:
  assumes "cd_transaction_id d \<noteq> 0" and "cd_peer_index d \<noteq> INVALID_PEER_INDEX"
    and "failure_ok code s"
  shows "dispatcher_inv (complete_failure code s b now d)"
  using complete_failure_eq [OF assms(1,3)]
    dispatcher_inv_staged [OF assms(1,2) failure_result_sendable [OF assms(1,3)]]
  by simp

lemma command_decode_Inr:
  assumes "command_decode t data = Inr c"
  shows "NetCommand_valid c" and "NetCommand_wf c" and "cmd_transaction_id c = t"
  using assms command_fields_sound
  by (auto simp: command_decode_def Let_def split: option.splits if_splits)

text \<open>The three ways \<open>accept\<close> ends.\<close>

lemma dispatcher_accept_cases:
  assumes "dispatcher_accept handler inbound now d h = (ok, seen, d', h')"
  obtains (unchanged) "\<not> ok" "seen = None" "d' = d" "h' = h"
  | (failed) d1 code s b where "cd_state d = InboundCommandDispatcherState.IDLE" "ok"
      "d' = complete_failure code s b now d1"
      "cd_transaction_id d1 = env_transaction_id (rm_envelope (im_message inbound))" "cd_transaction_id d1 \<noteq> 0"
      "cd_peer_index d1 = im_peer_index inbound" "cd_peer_index d1 \<noteq> INVALID_PEER_INDEX"
      "cd_handler d1 = cd_handler d" "cd_started_ms d1 = now"
      "h' = h \<or> (\<exists>c st. NetCommand_valid c \<and> nh_start handler c now h = (st, h') \<and> st \<noteq> STARTED)"
      "failure_ok code s"
  | (started) c where "cd_state d = InboundCommandDispatcherState.IDLE" "ok"
      "command_decode (env_transaction_id (rm_envelope (im_message inbound)))
         (Some (rm_data (im_message inbound))) = Inr c"
      "nh_start handler c now h = (STARTED, h')" "cd_handler d"
      "d' = d\<lparr>cd_peer_index := im_peer_index inbound,
              cd_transaction_id := env_transaction_id (rm_envelope (im_message inbound)),
              cd_started_ms := now, cd_command := c, cd_state := ACTIVE\<rparr>"
      "im_peer_index inbound \<noteq> INVALID_PEER_INDEX" "env_transaction_id (rm_envelope (im_message inbound)) \<noteq> 0"
proof (cases "cd_state d \<noteq> InboundCommandDispatcherState.IDLE \<or> im_peer_index inbound = INVALID_PEER_INDEX \<or>
    env_kind (rm_envelope (im_message inbound)) \<noteq> EspNowFrameKind.COMMAND \<or>
    env_transaction_id (rm_envelope (im_message inbound)) = 0")
  case True
  with assms unchanged show ?thesis by (simp add: dispatcher_accept_def)
next
  case ok: False
  define t where "t = env_transaction_id (rm_envelope (im_message inbound))"
  define d1 where "d1 c = d\<lparr>cd_peer_index := im_peer_index inbound, cd_transaction_id := t,
    cd_started_ms := now, cd_command := c\<rparr>" for c
  note [simp] = t_def [symmetric]
  have d1: "cd_state d = InboundCommandDispatcherState.IDLE" "cd_transaction_id (d1 c) = t" "t \<noteq> 0"
      "cd_peer_index (d1 c) = im_peer_index inbound" "im_peer_index inbound \<noteq> INVALID_PEER_INDEX"
      "cd_handler (d1 c) = cd_handler d" "cd_started_ms (d1 c) = now" for c
    using ok by (auto simp: d1_def)
  have fail: ?thesis
    if "dispatcher_accept handler inbound now d h = (True, o1, complete_failure code s b now (d1 c), h1)"
      "failure_ok code s"
      "h1 = h \<or> (\<exists>c st. NetCommand_valid c \<and> nh_start handler c now h = (st, h1) \<and> st \<noteq> STARTED)"
    for o1 code s b c h1
    using that d1 assms by (intro failed [of code s b "d1 c"]) auto
  show ?thesis
  proof (cases "command_decode t (Some (rm_data (im_message inbound)))")
    case (Inl e)
    then show ?thesis using ok by (intro fail) (auto simp: dispatcher_accept_def d1_def)
  next
    case (Inr c)
    note v = command_decode_Inr(1) [OF Inr]
    obtain st h1 where st: "nh_start handler c now h = (st, h1)" by fastforce
    show ?thesis
    proof (cases "cd_handler d \<and> st = STARTED")
      case True
      with assms ok Inr st show ?thesis by (intro started [of c]) (auto simp: dispatcher_accept_def Let_def)
    next
      case False
      with ok Inr st v show ?thesis
        by (cases st; cases "cd_handler d"; intro fail)
          (auto simp: dispatcher_accept_def Let_def d1_def)
    qed
  qed
qed

lemma dispatcher_accept_inv:
  assumes "dispatcher_inv d" and "dispatcher_accept handler inbound now d h = (ok, seen, d', h')"
  shows "dispatcher_inv d'"
  using assms(2)
proof (cases rule: dispatcher_accept_cases)
  case (started c)
  then show ?thesis using command_decode_Inr [OF started(3)] by (simp add: dispatcher_inv_def serves_command_def)
qed (use assms(1) in \<open>auto intro: dispatcher_inv_failure\<close>)

lemma dispatcher_loop_inv:
  assumes "dispatcher_inv d" and "bounded_handler handler"
    and "dispatcher_loop handler now d h = Some (d', h')"
  shows "dispatcher_inv d'"
proof (cases "cd_state d = ACTIVE")
  case False
  with assms show ?thesis by (simp add: dispatcher_loop_def)
next
  case True
  then have d: "cd_transaction_id d \<noteq> 0" "cd_peer_index d \<noteq> INVALID_PEER_INDEX"
      "NetCommand_valid (cd_command d)" "cmd_transaction_id (cd_command d) = cd_transaction_id d"
    using assms(1) by (auto simp: dispatcher_inv_def serves_command_def)
  have res: "dispatcher_inv (complete_result r d)"
    if "nh_take_result handler t x = (Some r, y)" "res_transaction_id r = cd_transaction_id d"
      "NetResult_consistent r" for t x r y
    using that assms(2) complete_result_cases [OF d(1), of r] dispatcher_inv_staged [OF d(1,2)] d(3,4)
    by (fastforce simp: bounded_handler_def dest!: spec [of _ t] spec [of _ x])
  show ?thesis
    using assms(1,3) True d(1,2) res
    by (auto simp: dispatcher_loop_def Let_def dispatcher_inv_failure
        split: if_splits prod.splits option.splits)
qed

lemma dispatcher_take_inv:
  assumes "dispatcher_inv d" and "dispatcher_take_result d = (p, d')"
  shows "dispatcher_inv d'"
  using assms
  by (auto simp: dispatcher_take_result_def dispatcher_has_result_def dispatcher_reset_def dispatcher_inv_def
      serves_command_def Let_def split: if_splits)

lemma dispatcher_reach_inv:
  assumes "dispatcher_reach handler d h" and "bounded_handler handler"
  shows "dispatcher_inv d"
  using assms
proof (induction rule: dispatcher_reach.induct)
  case (reach_start h)
  then show ?case by (simp add: dispatcher_inv_def dispatcher_init_def serves_command_def)
next
  case (reach_handler d h b)
  then show ?case by (simp add: dispatcher_inv_def serves_command_def set_handler_def)
next
  case (reach_observer d h b)
  then show ?case by (simp add: dispatcher_inv_def serves_command_def set_identity_observer_def)
qed (auto intro: dispatcher_accept_inv dispatcher_loop_inv dispatcher_take_inv)

lemma pending_answers_decode:
  assumes "pending_answers p"
  obtains r where "result_decode (pn_transaction_id p) (Some (pn_payload p)) l = Inr r"
    and "pn_terminal p = (res_status r \<noteq> IN_PROGRESS)" and "NetResult_consistent r"
    and "res_transaction_id r = pn_transaction_id p"
proof -
  from assms obtain r where r: "sendable (pn_transaction_id p) r" "pn_payload p = result_bytes r"
      "pn_terminal p = (res_status r \<noteq> IN_PROGRESS)"
    by (auto simp: pending_answers_def)
  then have "result_decode (pn_transaction_id p) (Some (pn_payload p)) l = Inr (result_carried l r)"
    using result_decode_encoded [of r l] by (simp add: sendable_def)
  moreover have "NetResult_consistent (result_carried l r)"
    using r(1) by (auto simp: sendable_def result_carried_def NetResult_consistent_def split: if_splits)
  ultimately show ?thesis using r that [of "result_carried l r"] by (simp add: result_carried_def sendable_def)
qed


subsection \<open>The handler contract\<close>

text \<open>What the dispatcher needs of a handler to serve commands one after another: a handler
  serves at most one transaction; only a successful \<open>start\<close> begins one, \<open>loop\<close> keeps it, its
  results answer it and fit a message, and it ends with a terminal result or with \<open>cancel\<close>.\<close>

locale net_command_handler =
  fixes handler :: "'h NetCommandHandler"
    and hinv :: "'h \<Rightarrow> bool"
    and serving :: "'h \<Rightarrow> TransactionId"
  assumes start_law:
      "\<lbrakk>hinv h; NetCommand_valid c; nh_start handler c now h = (s, h')\<rbrakk> \<Longrightarrow>
         hinv h' \<and> serving h' = (if s = STARTED then cmd_transaction_id c else serving h)"
    and loop_law: "hinv h \<Longrightarrow> hinv (nh_loop handler now h) \<and> serving (nh_loop handler now h) = serving h"
    and take_law:
      "\<lbrakk>hinv h; nh_has_result handler t h\<rbrakk> \<Longrightarrow>
         \<exists>r h'. nh_take_result handler t h = (Some r, h') \<and> hinv h' \<and> sendable (serving h) r \<and>
           serving h' = (if res_status r = IN_PROGRESS then serving h else 0)"
    and cancel_law:
      "hinv h \<Longrightarrow> hinv (snd (nh_cancel handler (serving h) h)) \<and> serving (snd (nh_cancel handler (serving h) h)) = 0"
begin

lemma paired_failure:
  assumes "cd_transaction_id d \<noteq> 0" and "cd_peer_index d \<noteq> INVALID_PEER_INDEX" and "cd_handler d"
    and "failure_ok code s" and "hinv h" and "serving h = 0"
  shows "paired hinv serving (complete_failure code s b now d) h"
  using assms dispatcher_inv_failure [OF assms(1,2,4)] complete_failure_eq [OF assms(1,4)]
  by (simp add: paired_def serves_command_def)

lemma paired_accept:
  assumes "paired hinv serving d h" and "dispatcher_accept handler inbound now d h = (ok, seen, d', h')"
  shows "paired hinv serving d' h'"
  using assms(2)
proof (cases rule: dispatcher_accept_cases)
  case unchanged
  with assms(1) show ?thesis by simp
next
  case (failed d1 code s b)
  have "hinv h" "serving h = 0" "cd_handler d"
    using assms(1) failed(1) by (auto simp: paired_def serves_command_def)
  then have "hinv h' \<and> serving h' = 0" using failed(10) start_law by fastforce
  then show ?thesis using failed \<open>cd_handler d\<close> by (auto intro: paired_failure)
next
  case (started c)
  have "hinv h'" "serving h' = cmd_transaction_id c"
    using assms(1) started(4) start_law [OF _ command_decode_Inr(1) [OF started(3)]] by (auto simp: paired_def)
  moreover have "dispatcher_inv d'" using assms dispatcher_accept_inv by (auto simp: paired_def)
  ultimately show ?thesis
    using assms(1) started command_decode_Inr(3) [OF started(3)] by (simp add: paired_def serves_command_def)
qed

lemma paired_running:
  assumes "paired hinv serving d h" and "cd_state d = ACTIVE"
  shows "cd_transaction_id d \<noteq> 0" and "cd_peer_index d \<noteq> INVALID_PEER_INDEX" and "cd_handler d" and "hinv h"
    and "serving h = cd_transaction_id d" and "dispatcher_inv d"
  using assms by (auto simp: paired_def dispatcher_inv_def serves_command_def)

text \<open>While the deadline has not passed the dispatcher forwards exactly what the handler reports.\<close>

lemma loop_forwards:
  assumes "paired hinv serving d h" and "cd_state d = ACTIVE" and "\<not> cmd_timeout_ms (cd_command d) \<le> now - cd_started_ms d"
    and "nh_has_result handler (cd_transaction_id d) (nh_loop handler now h)"
  shows "\<exists>r h'. nh_take_result handler (cd_transaction_id d) (nh_loop handler now h) = (Some r, h') \<and>
    sendable (cd_transaction_id d) r \<and> dispatcher_loop handler now d h = Some (staged r d, h') \<and>
    paired hinv serving (staged r d) h'"
proof -
  note run = paired_running [OF assms(1,2)]
  have l: "hinv (nh_loop handler now h)" "serving (nh_loop handler now h) = cd_transaction_id d"
    using loop_law [OF run(4)] run(5) by auto
  obtain r h' where r: "nh_take_result handler (cd_transaction_id d) (nh_loop handler now h) = (Some r, h')"
      "hinv h'" "sendable (cd_transaction_id d) r"
      "serving h' = (if res_status r = IN_PROGRESS then cd_transaction_id d else 0)"
    using take_law [OF l(1) assms(4)] l(2) by auto
  then have "dispatcher_loop handler now d h = Some (staged r d, h')"
    using assms(2-4) run(3) by (simp add: dispatcher_loop_def sendable_def complete_result_sendable [OF r(3)])
  moreover have "paired hinv serving (staged r d) h'"
    using r run dispatcher_inv_staged [OF run(1,2) r(3)] assms(2)
    by (auto simp: paired_def serves_command_def dispatcher_inv_def)
  ultimately show ?thesis using r by blast
qed

lemma paired_loop:
  assumes "paired hinv serving d h"
  shows "\<exists>d' h'. dispatcher_loop handler now d h = Some (d', h') \<and> paired hinv serving d' h'"
proof (cases "cd_state d = ACTIVE")
  case False
  with assms show ?thesis by (simp add: dispatcher_loop_def)
next
  case True
  note run = paired_running [OF assms True]
  consider (late) "cmd_timeout_ms (cd_command d) \<le> now - cd_started_ms d"
    | (finished) "\<not> cmd_timeout_ms (cd_command d) \<le> now - cd_started_ms d"
        "nh_has_result handler (cd_transaction_id d) (nh_loop handler now h)"
    | (wait) "\<not> cmd_timeout_ms (cd_command d) \<le> now - cd_started_ms d"
        "\<not> nh_has_result handler (cd_transaction_id d) (nh_loop handler now h)"
    by blast
  then show ?thesis
  proof cases
    case late
    have "paired hinv serving (complete_failure NetErrorCode.TIMED_OUT ''remote command execution timed out'' False now d)
        (snd (nh_cancel handler (cd_transaction_id d) h))"
      using cancel_law [OF run(4)] run by (intro paired_failure) auto
    then show ?thesis using late True run(3) by (simp add: dispatcher_loop_def)
  next
    case finished
    then show ?thesis using loop_forwards [OF assms True] by blast
  next
    case wait
    then show ?thesis
      using True assms loop_law [OF run(4), of now] by (simp add: dispatcher_loop_def paired_def)
  qed
qed

lemma paired_take:
  assumes "paired hinv serving d h" and "dispatcher_take_result d = (p, d')"
  shows "paired hinv serving d' h"
  using assms dispatcher_take_inv [of d p d']
  by (auto simp: paired_def dispatcher_take_result_def dispatcher_has_result_def dispatcher_reset_def
      serves_command_def Let_def split: if_splits)

lemma paired_ready: "hinv h \<Longrightarrow> serving h = 0 \<Longrightarrow> paired hinv serving (ready_dispatcher b) h"
  by (simp add: paired_def dispatcher_inv_def serves_command_def ready_dispatcher_def set_identity_observer_def
      set_handler_def dispatcher_init_def)

lemma service_paired:
  "service_reach handler d0 h0 d h \<Longrightarrow> paired hinv serving d0 h0 \<Longrightarrow> paired hinv serving d h"
proof (induction rule: service_reach.induct)
  case (service_loop d h now d' h')
  then show ?case using paired_loop [of d h now] by auto
qed (auto intro: paired_accept paired_take)

lemma service_idle_free:
  assumes "service_reach handler (ready_dispatcher b) h0 d h" and "hinv h0" and "serving h0 = 0"
    and "\<not> serves_command d"
  shows "hinv h \<and> serving h = 0"
  using service_paired [OF assms(1) paired_ready [OF assms(2,3)]] assms(4) by (simp add: paired_def)

lemma service_never_stuck:
  assumes "service_reach handler (ready_dispatcher b) h0 d h" and "hinv h0" and "serving h0 = 0"
  shows "dispatcher_loop handler now d h \<noteq> None"
  using paired_loop [OF service_paired [OF assms(1) paired_ready [OF assms(2,3)]], of now] by auto

end

subsection \<open>Answers as the requester reads them\<close>

lemma staged_answer:
  assumes "sendable (cd_transaction_id d) r"
  shows "\<exists>p d'. dispatcher_take_result (staged r d) = (Some p, d') \<and>
    pn_peer_index p = cd_peer_index d \<and> pn_transaction_id p = cd_transaction_id d \<and>
    result_decode (pn_transaction_id p) (Some (pn_payload p)) latency = Inr (result_carried latency r) \<and>
    cd_state d' = (if res_status r = IN_PROGRESS then ACTIVE else InboundCommandDispatcherState.IDLE)"
proof -
  have "result_decode (cd_transaction_id d) (Some (result_bytes r)) latency = Inr (result_carried latency r)"
    using assms result_decode_encoded [of r latency] by (simp add: sendable_def)
  then show ?thesis
    by (auto simp: dispatcher_take_result_def dispatcher_has_result_def dispatcher_reset_def staged_def Let_def)
qed

lemma failure_answer:
  assumes "cd_transaction_id d \<noteq> 0" and "failure_ok code s"
  shows "\<exists>p d' r. dispatcher_take_result (complete_failure code s b now d) = (Some p, d') \<and>
    pn_peer_index p = cd_peer_index d \<and> pn_transaction_id p = cd_transaction_id d \<and>
    result_decode (pn_transaction_id p) (Some (pn_payload p)) latency = Inr r \<and>
    res_status r = FAILED \<and> er_code (res_error r) = code \<and> er_retryable (res_error r) = b \<and>
    cd_state d' = InboundCommandDispatcherState.IDLE"
  using staged_answer [OF failure_result_sendable [OF assms, of b now], of latency]
    complete_failure_eq [OF assms, of b now]
  by (auto simp: result_carried_def failure_result_def)

subsection \<open>Properties\<close>

text \<open>C11 (safety): whatever commands arrive, whatever a handler of bounded results does, and however
  often handlers are registered, removed or shared, every answer the dispatcher hands out is
  addressed to the peer and transaction of the command it runs, the requester decodes from
  its bytes a consistent result of that transaction, and the dispatcher is idle again exactly
  when that result is terminal.\<close>

theorem dispatcher_answers_decode:
  assumes "dispatcher_reach handler d h" and "bounded_handler handler"
    and "dispatcher_take_result d = (Some p, d')"
  shows "pn_peer_index p = cd_peer_index d \<and> pn_peer_index p \<noteq> INVALID_PEER_INDEX \<and>
    pn_transaction_id p = cd_transaction_id d \<and>
    (\<exists>r. result_decode (cd_transaction_id d) (Some (pn_payload p)) latency = Inr r \<and>
         NetResult_consistent r \<and> res_transaction_id r = cd_transaction_id d \<and>
         cd_state d' = (if res_status r = IN_PROGRESS then ACTIVE else InboundCommandDispatcherState.IDLE))"
proof -
  have p: "cd_state d = RESULT_READY" "p = cd_pending d"
    "cd_state d' = (if pn_terminal p then InboundCommandDispatcherState.IDLE else ACTIVE)"
    using assms(3) by (auto simp: dispatcher_take_result_def dispatcher_has_result_def dispatcher_reset_def
        Let_def split: if_splits)
  moreover have inv: "pn_peer_index p = cd_peer_index d" "pn_transaction_id p = cd_transaction_id d"
      "pending_answers p" "cd_peer_index d \<noteq> INVALID_PEER_INDEX"
    using dispatcher_reach_inv [OF assms(1,2)] p by (auto simp: dispatcher_inv_def)
  moreover obtain r where "result_decode (pn_transaction_id p) (Some (pn_payload p)) latency = Inr r"
      "pn_terminal p = (res_status r \<noteq> IN_PROGRESS)" "NetResult_consistent r"
      "res_transaction_id r = pn_transaction_id p"
    using pending_answers_decode [OF inv(3)] by blast
  ultimately show ?thesis by (auto intro: exI [of _ r])
qed

text \<open>C12 (functional): an accepted command is never dropped. \<open>accept\<close> refuses exactly when the
  dispatcher is not idle or the message is no command of a known peer and transaction, and
  then changes nothing; otherwise either the handler started the decoded command and the
  dispatcher runs it, or an answer that decodes to a failure with a named error is ready
  for the requester.\<close>

theorem accepted_command_is_answered:
  "case dispatcher_accept handler inbound now d h of (ok, seen, d', h') \<Rightarrow>
     (let env = rm_envelope (im_message inbound) in
      (ok \<longleftrightarrow> cd_state d = InboundCommandDispatcherState.IDLE \<and> im_peer_index inbound \<noteq> INVALID_PEER_INDEX \<and>
         env_kind env = EspNowFrameKind.COMMAND \<and> env_transaction_id env \<noteq> 0) \<and>
      (if \<not> ok then d' = d \<and> h' = h
       else if cd_state d' = ACTIVE then
         (\<exists>c. command_decode (env_transaction_id env) (Some (rm_data (im_message inbound))) = Inr c \<and>
              nh_start handler c now h = (STARTED, h') \<and> cd_command d' = c \<and>
              cd_peer_index d' = im_peer_index inbound \<and> cd_transaction_id d' = env_transaction_id env)
       else
         (\<exists>p d'' r. dispatcher_take_result d' = (Some p, d'') \<and> pn_peer_index p = im_peer_index inbound \<and>
              result_decode (env_transaction_id env) (Some (pn_payload p)) latency = Inr r \<and>
              res_status r = FAILED \<and> er_code (res_error r) \<noteq> NetErrorCode.NONE)))"
proof -
  obtain ok seen d' h' where acc: "dispatcher_accept handler inbound now d h = (ok, seen, d', h')"
    by (cases "dispatcher_accept handler inbound now d h")
  have ok: "ok \<longleftrightarrow> cd_state d = InboundCommandDispatcherState.IDLE \<and> im_peer_index inbound \<noteq> INVALID_PEER_INDEX \<and>
      env_kind (rm_envelope (im_message inbound)) = EspNowFrameKind.COMMAND \<and>
      env_transaction_id (rm_envelope (im_message inbound)) \<noteq> 0"
    using acc by (auto simp: dispatcher_accept_def Let_def split: if_splits sum.splits prod.splits)
  from acc show ?thesis
  proof (cases rule: dispatcher_accept_cases)
    case unchanged
    then show ?thesis using ok acc by (simp add: Let_def)
  next
    case (failed d1 code s b)
    have "cd_state d' = RESULT_READY" using failed complete_failure_eq by simp
    then show ?thesis
      using ok acc failed failure_answer [OF failed(5,11), of b now latency]
      by (fastforce simp: Let_def failure_ok_def)
  next
    case (started c)
    then show ?thesis using ok acc by (simp add: Let_def)
  qed
qed

text \<open>C32 (liveness): a running command is answered at the latest by the first \<open>loop\<close> at or after its
  timeout, on the wrapping clock: the handler is cancelled, the requester decodes a failure
  that says it timed out and must not be retried, and the dispatcher is idle again.\<close>

theorem overdue_command_times_out:
  assumes "dispatcher_reach handler d h" and "bounded_handler handler" and "cd_state d = ACTIVE"
    and "cmd_timeout_ms (cd_command d) \<le> now - cd_started_ms d"
  shows "\<exists>d' h' p d'' r. dispatcher_loop handler now d h = Some (d', h') \<and>
    h' = (if cd_handler d then snd (nh_cancel handler (cd_transaction_id d) h) else h) \<and>
    dispatcher_take_result d' = (Some p, d'') \<and> pn_peer_index p = cd_peer_index d \<and>
    result_decode (cd_transaction_id d) (Some (pn_payload p)) latency = Inr r \<and>
    res_status r = FAILED \<and> er_code (res_error r) = NetErrorCode.TIMED_OUT \<and> \<not> er_retryable (res_error r) \<and>
    cd_state d'' = InboundCommandDispatcherState.IDLE"
proof -
  have "cd_transaction_id d \<noteq> 0"
    using dispatcher_reach_inv [OF assms(1,2)] assms(3) by (simp add: dispatcher_inv_def)
  from failure_answer [OF this dispatcher_failures_ok(1), of False now latency]
  show ?thesis using assms(3,4) by (fastforce simp: dispatcher_loop_def)
qed

subsection \<open>Witnesses\<close>

lemma silent_bounded: "bounded_handler silent_handler"
  by (simp add: bounded_handler_def silent_handler_def)

lemma example_active_reach: "dispatcher_reach silent_handler example_active ()"
proof (rule reach_accept [OF reach_handler [of _ _ _ True, OF reach_start]])
  show "dispatcher_accept silent_handler example_inbound 10 (set_handler True dispatcher_init) () =
    (True, None, example_active, ())"
    by (simp add: dispatcher_accept_def example_inbound_def example_command_decode silent_handler_def
        set_handler_def dispatcher_init_def example_active_def INVALID_PEER_INDEX_def)
qed

lemma overdue_command_times_out_witness:
  "\<exists>d' h'. dispatcher_loop silent_handler 11 example_active () = Some (d', h')"
  using overdue_command_times_out [OF example_active_reach silent_bounded, of 11]
  by (auto simp: example_active_def dispatcher_init_def)

lemma dispatcher_answers_decode_witness:
  "\<exists>d' p. dispatcher_loop silent_handler 11 example_active () = Some (d', ()) \<and>
     dispatcher_take_result d' = (Some p, dispatcher_reset d') \<and> pn_peer_index p = 2"
proof -
  have st: "dispatcher_loop silent_handler 11 example_active () = Some (complete_failure NetErrorCode.TIMED_OUT
      ''remote command execution timed out'' False 11 example_active, ())" (is "_ = Some (?d, ())")
    by (simp add: dispatcher_loop_def example_active_def dispatcher_init_def)
  have d: "?d = staged (failure_result NetErrorCode.TIMED_OUT ''remote command execution timed out'' False 11
      example_active) example_active"
    by (rule complete_failure_eq) (simp_all add: example_active_def)
  have t: "dispatcher_take_result ?d = (Some (cd_pending ?d), dispatcher_reset ?d)"
    unfolding d by (simp add: dispatcher_take_result_def dispatcher_has_result_def Let_def dispatcher_reset_def)
  have "pn_peer_index (cd_pending ?d) = cd_peer_index ?d"
    using dispatcher_answers_decode [OF reach_loop [OF example_active_reach st] silent_bounded t] by simp
  moreover have "cd_peer_index ?d = 2" unfolding d by (simp add: example_active_def)
  ultimately show ?thesis using st t by auto
qed

end
