(* ===== verification/Completion_Probe.thy ===== *)
theory Completion_Probe
  imports Command_Dispatcher
begin

text \<open>
  \<open>command_completion_probe.h\<close> and \<open>light_command_completion_probe.h\<close>: how a handler finds out
  that a command has taken effect. A probe is a record of operations over a world that holds
  everything the device's automations can change, the probe's own fields included; the
  light is one part of it, reached through an accessor. The interface \<open>completion_probe\<close>
  is what the declarative handler relies on.
\<close>

text \<open>The snapshot is an out-parameter: an operation receives its old content and returns the new.\<close>

record 'w CommandCompletionProbe =
  cp_begin :: "'w \<Rightarrow> 'w"
  cp_completed :: "'w \<Rightarrow> bool"
  cp_expected_snapshot :: "NetStateSnapshot \<Rightarrow> 'w \<Rightarrow> bool \<times> NetStateSnapshot"
  cp_observed_snapshot :: "NetStateSnapshot \<Rightarrow> 'w \<Rightarrow> bool \<times> NetStateSnapshot"

datatype LightExpectedState = ON | OFF | TOGGLED

text \<open>The pointer to the light is \<open>None\<close> or a function that reads \<open>current_values.is_on()\<close>.\<close>

record 'w LightCommandCompletionProbe =
  lp_state :: "('w \<Rightarrow> bool) option"
  lp_expected :: LightExpectedState
  lp_expected_on :: bool
  lp_armed :: bool

definition light_probe_init :: "'w LightCommandCompletionProbe" where
  "light_probe_init = \<lparr>lp_state = None, lp_expected = TOGGLED, lp_expected_on = False, lp_armed = False\<rparr>"

definition set_light :: "('w \<Rightarrow> bool) option \<Rightarrow> 'w LightCommandCompletionProbe \<Rightarrow> 'w LightCommandCompletionProbe" where
  "set_light state p = p\<lparr>lp_state := state\<rparr>"

definition set_expected :: "LightExpectedState \<Rightarrow> 'w LightCommandCompletionProbe \<Rightarrow> 'w LightCommandCompletionProbe" where
  "set_expected expected p = p\<lparr>lp_expected := expected\<rparr>"

definition light_begin :: "'w \<Rightarrow> 'w LightCommandCompletionProbe \<Rightarrow> 'w LightCommandCompletionProbe" where
  "light_begin w p =
     (let current = (case lp_state p of None \<Rightarrow> False | Some is_on \<Rightarrow> is_on w)
      in p\<lparr>lp_expected_on := (lp_expected p = ON \<or> (lp_expected p = TOGGLED \<and> \<not> current)),
           lp_armed := (lp_state p \<noteq> None)\<rparr>)"

definition light_completed :: "'w \<Rightarrow> 'w LightCommandCompletionProbe \<Rightarrow> bool" where
  "light_completed w p \<longleftrightarrow>
     lp_armed p \<and> (case lp_state p of None \<Rightarrow> False | Some is_on \<Rightarrow> is_on w = lp_expected_on p)"

definition fill_snapshot :: "bool \<Rightarrow> bool \<times> NetStateSnapshot" where
  "fill_snapshot state =
     (let (ok1, schema) = text_assign MAX_SCHEMA_LENGTH (Some (cstr ''binary-state/v1''));
          (ok2, data) = bytes_assign MAX_DATA_SIZE (Some [if state then 1 else 0]) 1
      in (ok1 \<and> ok2, \<lparr>ss_completeness = COMPLETE, ss_schema = schema, ss_data = data\<rparr>))"

definition light_expected_snapshot ::
    "NetStateSnapshot \<Rightarrow> 'w LightCommandCompletionProbe \<Rightarrow> bool \<times> NetStateSnapshot" where
  "light_expected_snapshot snapshot p = fill_snapshot (lp_expected_on p)"

definition light_observed_snapshot ::
    "NetStateSnapshot \<Rightarrow> 'w \<Rightarrow> 'w LightCommandCompletionProbe \<Rightarrow> bool \<times> NetStateSnapshot" where
  "light_observed_snapshot snapshot w p =
     (case lp_state p of None \<Rightarrow> (False, snapshot) | Some is_on \<Rightarrow> fill_snapshot (is_on w))"

text \<open>The light probe as a probe over the world that holds it and the rest of the device.\<close>

definition light_probe :: "('w LightCommandCompletionProbe \<times> 'w) CommandCompletionProbe" where
  "light_probe =
     \<lparr>cp_begin = \<lambda>(p, w). (light_begin w p, w),
      cp_completed = \<lambda>(p, w). light_completed w p,
      cp_expected_snapshot = \<lambda>s (p, w). light_expected_snapshot s p,
      cp_observed_snapshot = \<lambda>s (p, w). light_observed_snapshot s w p\<rparr>"

subsection \<open>The results a handler builds from a probe\<close>

text \<open>The three results of \<open>DeclarativeCommandHandler\<close>, as functions of the probe and the world.\<close>

definition progress_result :: "TransactionId \<Rightarrow> u32 \<Rightarrow> 'w CommandCompletionProbe \<Rightarrow> 'w \<Rightarrow> NetResult" where
  "progress_result transaction_id completion_timeout_ms probe w =
     (let (provided, snapshot) = cp_expected_snapshot probe NetStateSnapshot_init w
      in NetResult_init\<lparr>res_transaction_id := transaction_id, res_status := IN_PROGRESS,
           res_execution := NetExecutionContext_init\<lparr>ex_started := True, ex_has_estimated_completion := True,
             ex_estimated_completion_ms := completion_timeout_ms,
             ex_has_expected_final_state := provided, ex_expected_final_state := snapshot\<rparr>,
           res_latency_ms := 0\<rparr>)"

definition success_result ::
    "TransactionId \<Rightarrow> u32 \<Rightarrow> 'w CommandCompletionProbe option \<Rightarrow> 'w \<Rightarrow> NetResult" where
  "success_result transaction_id latency_ms probe w =
     NetResult_init\<lparr>res_transaction_id := transaction_id, res_status := SUCCEEDED,
       res_execution := NetExecutionContext_init\<lparr>ex_started := True\<rparr>,
       res_remote_state := (case probe of None \<Rightarrow> NetStateSnapshot_init
                            | Some p \<Rightarrow> snd (cp_observed_snapshot p NetStateSnapshot_init w)),
       res_latency_ms := latency_ms\<rparr>"

definition timeout_result :: "TransactionId \<Rightarrow> u32 \<Rightarrow> NetResult" where
  "timeout_result transaction_id latency_ms =
     NetResult_init\<lparr>res_transaction_id := transaction_id, res_status := FAILED,
       res_execution := NetExecutionContext_init\<lparr>ex_started := True\<rparr>,
       res_error := \<lparr>er_code = NetErrorCode.TIMED_OUT, er_retryable = False,
         er_message = snd (text_assign MAX_MESSAGE_LENGTH (Some (cstr ''declared completion state not observed'')))\<rparr>,
       res_latency_ms := latency_ms\<rparr>"

subsection \<open>Results with one snapshot fit a message\<close>

lemmas sendable_simps = sendable_def NetResult_wf_def result_total_def expected_part_def remote_part_def
  error_part_def has_remote_def has_error_def

lemma snapshot_parts:
  assumes "NetStateSnapshot_wf s" and "NetStateSnapshot_consistent s"
  shows "length (ss_schema s) + length (ss_data s) \<le> 287"
    and "(ss_schema s = []) = (ss_completeness s = NOT_PROVIDED)" and "(ss_data s = []) = (ss_completeness s = NOT_PROVIDED)"
  using assms by (auto simp: NetStateSnapshot_wf_def NetStateSnapshot_consistent_def text_ok_def split: if_splits)

lemma progress_form_sendable:
  assumes "t \<noteq> 0" and "timeout \<noteq> 0" and "NetStateSnapshot_wf s" and "NetStateSnapshot_consistent s"
    and "provided \<longleftrightarrow> ss_completeness s \<noteq> NOT_PROVIDED"
  shows "sendable t (NetResult_init\<lparr>res_transaction_id := t, res_status := IN_PROGRESS,
      res_execution := NetExecutionContext_init\<lparr>ex_started := True, ex_has_estimated_completion := True,
        ex_estimated_completion_ms := timeout, ex_has_expected_final_state := provided,
        ex_expected_final_state := s\<rparr>, res_latency_ms := 0\<rparr>)"
proof -
  have "NetExecutionContext_consistent (NetExecutionContext_init\<lparr>ex_started := True,
      ex_has_estimated_completion := True, ex_estimated_completion_ms := timeout,
      ex_has_expected_final_state := provided, ex_expected_final_state := s\<rparr>)"
    using assms by (simp add: NetExecutionContext_consistent_def NetExecutionContext_init_def)
  then show ?thesis
    using assms(1,3) snapshot_parts(1) [OF assms(3,4)]
    by (simp add: sendable_simps NetResult_consistent_def NetResult_init_def NetError_init_def
        NetError_consistent_def NetStateSnapshot_init_def NetStateSnapshot_consistent_def NetStateSnapshot_wf_def)
qed

lemma success_form_sendable:
  assumes "t \<noteq> 0" and "NetStateSnapshot_wf s" and "NetStateSnapshot_consistent s"
  shows "sendable t (NetResult_init\<lparr>res_transaction_id := t, res_status := SUCCEEDED,
      res_execution := NetExecutionContext_init\<lparr>ex_started := True\<rparr>, res_remote_state := s,
      res_latency_ms := latency\<rparr>)"
proof -
  have "NetExecutionContext_consistent (NetExecutionContext_init\<lparr>ex_started := True\<rparr>)"
    by (simp add: NetExecutionContext_consistent_def NetExecutionContext_init_def NetStateSnapshot_init_def
        NetStateSnapshot_consistent_def)
  then show ?thesis
    using assms snapshot_parts(1) [OF assms(2,3)]
    by (simp add: sendable_simps NetResult_consistent_def NetResult_init_def NetError_init_def
        NetError_consistent_def NetExecutionContext_init_def)
qed

subsection \<open>The interface\<close>

text \<open>A snapshot of a probe is complete or absent, within its size limits, and an expected state
  is reported exactly when it is present.\<close>

locale completion_probe =
  fixes probe :: "'w CommandCompletionProbe"
  assumes expected_law:
      "cp_expected_snapshot probe NetStateSnapshot_init w = (provided, s) \<Longrightarrow>
         NetStateSnapshot_wf s \<and> NetStateSnapshot_consistent s \<and> (provided \<longleftrightarrow> ss_completeness s \<noteq> NOT_PROVIDED)"
    and observed_law:
      "cp_observed_snapshot probe NetStateSnapshot_init w = (provided, s) \<Longrightarrow>
         NetStateSnapshot_wf s \<and> NetStateSnapshot_consistent s"
begin

lemma progress_sendable:
  assumes "t \<noteq> 0" and "timeout \<noteq> 0"
  shows "sendable t (progress_result t timeout probe w)"
proof -
  obtain provided s where s: "cp_expected_snapshot probe NetStateSnapshot_init w = (provided, s)"
    by fastforce
  then show ?thesis using expected_law [OF s] progress_form_sendable [OF assms] by (simp add: progress_result_def)
qed

lemma success_sendable:
  assumes "t \<noteq> 0"
  shows "sendable t (success_result t latency (Some probe) w)"
proof -
  obtain provided s where s: "cp_observed_snapshot probe NetStateSnapshot_init w = (provided, s)"
    by fastforce
  then show ?thesis using observed_law [OF s] success_form_sendable [OF assms] by (simp add: success_result_def)
qed

end

lemma progress_status [simp]: "res_status (progress_result t timeout probe w) = IN_PROGRESS"
  by (simp add: progress_result_def split: prod.splits)

lemma success_status [simp]: "res_status (success_result t latency probe w) = SUCCEEDED"
  by (simp add: success_result_def)

lemma timeout_status [simp]: "res_status (timeout_result t latency) = FAILED"
  by (simp add: timeout_result_def)

lemma plain_success_sendable: "t \<noteq> 0 \<Longrightarrow> sendable t (success_result t latency None w)"
  by (simp add: success_result_def sendable_def message_inits consistency_defs NetResult_wf_def
      NetStateSnapshot_wf_def result_total_def expected_part_def remote_part_def error_part_def
      has_remote_def has_error_def)

lemma timeout_sendable: "t \<noteq> 0 \<Longrightarrow> sendable t (timeout_result t latency)"
proof -
  assume "t \<noteq> 0"
  moreover have "text_ok 95 (cstr ''declared completion state not observed'')"
    by (simp add: text_ok_def zero_notin_cstr)
  ultimately show ?thesis
    by (simp add: timeout_result_def sendable_def message_inits consistency_defs NetResult_wf_def
        NetStateSnapshot_wf_def result_total_def expected_part_def remote_part_def error_part_def
        has_remote_def has_error_def) (simp add: cstr_def)
qed

lemma fill_snapshot_eq:
  "fill_snapshot b = (True, \<lparr>ss_completeness = COMPLETE, ss_schema = cstr ''binary-state/v1'',
     ss_data = [if b then 1 else 0]\<rparr>)"
  by (simp add: fill_snapshot_def text_ok_def zero_notin_cstr bytes_assign_exact)

lemma fill_snapshot_ok:
  "NetStateSnapshot_wf (snd (fill_snapshot b))" "NetStateSnapshot_consistent (snd (fill_snapshot b))"
  by (simp_all add: fill_snapshot_eq NetStateSnapshot_wf_def NetStateSnapshot_consistent_def text_ok_def
      zero_notin_cstr) (simp add: cstr_def)

interpretation light_probe: completion_probe light_probe
proof (unfold_locales, goal_cases)
  case (1 w provided s)
  then show ?case using fill_snapshot_ok
    by (cases w) (auto simp: light_probe_def light_expected_snapshot_def fill_snapshot_eq)
next
  case (2 w provided s)
  then show ?case using fill_snapshot_ok
    by (cases w) (auto simp: light_probe_def light_observed_snapshot_def fill_snapshot_eq split: option.splits)
qed

end
