(* ===== verification/Declarative_Handler.thy ===== *)
theory Declarative_Handler
  imports Completion_Probe
begin

text \<open>
  \<open>declarative_command_handler.h\<close>: bindings of configured commands to automations, and the
  handler that runs one of them at a time and reports its progress and completion. The
  handler's state is paired with the world its automations and probes act on; an automation
  (\<open>Trigger<>::trigger\<close> of the framework) is an arbitrary change of that world. Bindings are
  configured before the first command and never changed, so a pointer to one is its value.
\<close>

record 'w DeclarativeCommandBinding =
  db_resource :: "cstring option"
  db_command :: "cstring option"
  db_probe :: "'w CommandCompletionProbe option"
  db_completion_timeout_ms :: u32
  db_trigger :: "'w \<Rightarrow> 'w"

definition binding_matches :: "NetCommand \<Rightarrow> 'w DeclarativeCommandBinding \<Rightarrow> bool" where
  "binding_matches request b \<longleftrightarrow>
     db_resource b = Some (cmd_resource request) \<and> db_command b = Some (cmd_name request)"

definition MAX_BINDINGS :: nat where "MAX_BINDINGS = 16"

record 'w DeclarativeCommandHandler =
  dh_device_id :: "cstring option"
  dh_bindings :: "'w DeclarativeCommandBinding list"
  dh_result :: NetResult
  dh_result_ready :: bool
  dh_active_binding :: "'w DeclarativeCommandBinding option"
  dh_transaction_id :: TransactionId
  dh_started_ms :: u32

definition declarative_init :: "'w DeclarativeCommandHandler" where
  "declarative_init =
     \<lparr>dh_device_id = None, dh_bindings = [], dh_result = NetResult_init, dh_result_ready = False,
      dh_active_binding = None, dh_transaction_id = 0, dh_started_ms = 0\<rparr>"

definition set_device_id :: "cstring option \<Rightarrow> 'w DeclarativeCommandHandler \<Rightarrow> 'w DeclarativeCommandHandler" where
  "set_device_id device_id h = h\<lparr>dh_device_id := device_id\<rparr>"

definition add_binding ::
    "'w DeclarativeCommandBinding option \<Rightarrow> 'w DeclarativeCommandHandler \<Rightarrow> bool \<times> 'w DeclarativeCommandHandler" where
  "add_binding binding h =
     (case binding of None \<Rightarrow> (False, h)
      | Some b \<Rightarrow>
          if length (dh_bindings h) \<ge> MAX_BINDINGS then (False, h)
          else (True, h\<lparr>dh_bindings := dh_bindings h @ [b]\<rparr>))"

definition complete_success :: "u32 \<Rightarrow> 'w \<Rightarrow> 'w DeclarativeCommandHandler \<Rightarrow> 'w DeclarativeCommandHandler" where
  "complete_success now_ms w h =
     h\<lparr>dh_result := success_result (dh_transaction_id h) (now_ms - dh_started_ms h)
          (case dh_active_binding h of None \<Rightarrow> None | Some b \<Rightarrow> db_probe b) w,
       dh_result_ready := True\<rparr>"

definition complete_timeout :: "u32 \<Rightarrow> 'w DeclarativeCommandHandler \<Rightarrow> 'w DeclarativeCommandHandler" where
  "complete_timeout now_ms h =
     h\<lparr>dh_result := timeout_result (dh_transaction_id h) (now_ms - dh_started_ms h), dh_result_ready := True\<rparr>"

definition declarative_reset :: "'w DeclarativeCommandHandler \<Rightarrow> 'w DeclarativeCommandHandler" where
  "declarative_reset h =
     h\<lparr>dh_result := NetResult_init, dh_result_ready := False, dh_active_binding := None,
       dh_transaction_id := 0, dh_started_ms := 0\<rparr>"

definition declarative_start ::
    "NetCommand \<Rightarrow> u32 \<Rightarrow> 'w DeclarativeCommandHandler \<times> 'w \<Rightarrow>
     NetCommandHandlerStartStatus \<times> 'w DeclarativeCommandHandler \<times> 'w" where
  "declarative_start request now_ms hw =
     (let (h, w) = hw in
      if dh_result_ready h \<or> dh_active_binding h \<noteq> None then (BUSY, h, w)
      else if dh_device_id h \<noteq> Some (cmd_device_id request) then (NetCommandHandlerStartStatus.REJECTED, h, w)
      else case List.find (binding_matches request) (dh_bindings h) of
        None \<Rightarrow> (INVALID_COMMAND, h, w)
      | Some binding \<Rightarrow>
          (let h1 = h\<lparr>dh_transaction_id := cmd_transaction_id request, dh_started_ms := now_ms,
                      dh_active_binding := Some binding\<rparr>;
               w1 = (case db_probe binding of None \<Rightarrow> w | Some p \<Rightarrow> cp_begin p w);
               w2 = db_trigger binding w1
           in case db_probe binding of
                None \<Rightarrow> (STARTED, complete_success now_ms w2 h1, w2)
              | Some p \<Rightarrow>
                  (STARTED,
                   h1\<lparr>dh_result := progress_result (dh_transaction_id h1) (db_completion_timeout_ms binding) p w2,
                      dh_result_ready := True\<rparr>, w2)))"

definition declarative_loop ::
    "u32 \<Rightarrow> 'w DeclarativeCommandHandler \<times> 'w \<Rightarrow> 'w DeclarativeCommandHandler \<times> 'w" where
  "declarative_loop now_ms hw =
     (let (h, w) = hw in
      case dh_active_binding h of None \<Rightarrow> (h, w)
      | Some binding \<Rightarrow>
          (if dh_result_ready h then (h, w)
           else case db_probe binding of None \<Rightarrow> (h, w)
             | Some p \<Rightarrow>
                 if cp_completed p w then (complete_success now_ms w h, w)
                 else if now_ms - dh_started_ms h \<ge> db_completion_timeout_ms binding
                 then (complete_timeout now_ms h, w)
                 else (h, w)))"

definition declarative_take_result ::
    "'w DeclarativeCommandHandler \<times> 'w \<Rightarrow> NetResult option \<times> 'w DeclarativeCommandHandler \<times> 'w" where
  "declarative_take_result hw =
     (let (h, w) = hw in
      if \<not> dh_result_ready h then (None, h, w)
      else
        (let h1 = h\<lparr>dh_result := NetResult_init, dh_result_ready := False\<rparr>
         in (Some (dh_result h),
             (if res_status (dh_result h) \<noteq> IN_PROGRESS then declarative_reset h1 else h1), w)))"

definition declarative_cancel ::
    "TransactionId \<Rightarrow> 'w DeclarativeCommandHandler \<times> 'w \<Rightarrow> bool \<times> 'w DeclarativeCommandHandler \<times> 'w" where
  "declarative_cancel transaction_id hw =
     (let (h, w) = hw in
      if dh_transaction_id h \<noteq> transaction_id then (False, h, w) else (True, declarative_reset h, w))"

text \<open>The class as a \<open>NetCommandHandler\<close>: the transaction-aware variants are inherited and ignore
  the transaction.\<close>

definition declarative_handler :: "('w DeclarativeCommandHandler \<times> 'w) NetCommandHandler" where
  "declarative_handler =
     \<lparr>nh_start = declarative_start, nh_loop = declarative_loop,
      nh_has_result = \<lambda>_ hw. dh_result_ready (fst hw),
      nh_take_result = \<lambda>_ hw. declarative_take_result hw,
      nh_cancel = declarative_cancel\<rparr>"

subsection \<open>The invariant\<close>

definition binding_ok :: "'w DeclarativeCommandBinding \<Rightarrow> bool" where
  "binding_ok b \<longleftrightarrow>
     (case db_probe b of None \<Rightarrow> True | Some p \<Rightarrow> completion_probe p \<and> db_completion_timeout_ms b \<noteq> 0)"

definition declarative_inv :: "'w DeclarativeCommandHandler \<times> 'w \<Rightarrow> bool" where
  "declarative_inv hw \<longleftrightarrow>
     (let h = fst hw in
      (\<forall>b\<in>set (dh_bindings h). binding_ok b) \<and>
      (case dh_active_binding h of
         None \<Rightarrow> \<not> dh_result_ready h \<and> dh_transaction_id h = 0
       | Some b \<Rightarrow> dh_transaction_id h \<noteq> 0 \<and> binding_ok b) \<and>
      (dh_result_ready h \<longrightarrow> sendable (dh_transaction_id h) (dh_result h)))"

definition declarative_serving :: "'w DeclarativeCommandHandler \<times> 'w \<Rightarrow> TransactionId" where
  "declarative_serving hw = dh_transaction_id (fst hw)"

text \<open>A handler as \<open>to_code\<close> configures it, before the first command.\<close>

definition configured :: "'w DeclarativeCommandHandler \<Rightarrow> bool" where
  "configured h \<longleftrightarrow>
     (\<forall>b\<in>set (dh_bindings h). binding_ok b) \<and> dh_active_binding h = None \<and> \<not> dh_result_ready h \<and>
     dh_transaction_id h = 0"

text \<open>The handler holds a binding while its dispatcher has nothing left to run.\<close>

definition blocked :: "InboundCommandDispatcher \<Rightarrow> 'w DeclarativeCommandHandler \<times> 'w \<Rightarrow> bool" where
  "blocked d hw \<longleftrightarrow> \<not> serves_command d \<and> dh_active_binding (fst hw) \<noteq> None"

text \<open>Handler and dispatcher while the completion of command \<open>c\<close> is awaited.\<close>

definition waiting :: "NetCommand \<Rightarrow> 'w DeclarativeCommandBinding \<Rightarrow> u32 \<Rightarrow> 'w DeclarativeCommandHandler \<Rightarrow> bool" where
  "waiting c b now h \<longleftrightarrow>
     dh_active_binding h = Some b \<and> dh_transaction_id h = cmd_transaction_id c \<and> dh_started_ms h = now \<and>
     \<not> dh_result_ready h"

definition running :: "NetCommand \<Rightarrow> u32 \<Rightarrow> InboundCommandDispatcher \<Rightarrow> bool" where
  "running c now d \<longleftrightarrow>
     cd_state d = ACTIVE \<and> cd_handler d \<and> cd_transaction_id d = cmd_transaction_id c \<and> cd_command d = c \<and>
     cd_started_ms d = now"

text \<open>A lamp that is toggled by the command \<open>B\<close> of device \<open>A\<close>.\<close>

definition example_binding :: "u32 \<Rightarrow> (bool LightCommandCompletionProbe \<times> bool) DeclarativeCommandBinding" where
  "example_binding timeout =
     \<lparr>db_resource = Some [], db_command = Some [66], db_probe = Some light_probe,
      db_completion_timeout_ms = timeout, db_trigger = \<lambda>(p, on). (p, \<not> on)\<rparr>"

definition example_lamp :: "u32 \<Rightarrow> (bool LightCommandCompletionProbe \<times> bool) DeclarativeCommandHandler" where
  "example_lamp timeout =
     snd (add_binding (Some (example_binding timeout)) (set_device_id (Some [65]) declarative_init))"

definition example_world :: "bool LightCommandCompletionProbe \<times> bool" where
  "example_world = (set_light (Some (\<lambda>on. on)) light_probe_init, False)"

lemmas declarative_ops = declarative_start_def declarative_loop_def declarative_take_result_def
  declarative_cancel_def declarative_reset_def complete_success_def complete_timeout_def

lemma configured_inv: "configured h \<Longrightarrow> declarative_inv (h, w) \<and> declarative_serving (h, w) = 0"
  by (simp add: configured_def declarative_inv_def declarative_serving_def)

lemma success_result_ok:
  "t \<noteq> 0 \<Longrightarrow> binding_ok b \<Longrightarrow> db_probe b = q \<Longrightarrow> sendable t (success_result t l q w)"
  by (cases q) (auto simp: binding_ok_def plain_success_sendable completion_probe.success_sendable)

lemma progress_result_ok:
  "t \<noteq> 0 \<Longrightarrow> binding_ok b \<Longrightarrow> db_probe b = Some p \<Longrightarrow>
     sendable t (progress_result t (db_completion_timeout_ms b) p w)"
  by (auto simp: binding_ok_def completion_probe.progress_sendable)

lemma find_set: "List.find P xs = Some x \<Longrightarrow> x \<in> set xs \<and> P x"
  by (auto simp: find_Some_iff)

lemma declarative_start_inv:
  assumes "declarative_inv hw" and "NetCommand_valid c" and "declarative_start c now hw = (s, hw')"
  shows "declarative_inv hw' \<and>
    declarative_serving hw' = (if s = STARTED then cmd_transaction_id c else declarative_serving hw)"
proof -
  obtain h w where hw: "hw = (h, w)" by fastforce
  have "cmd_transaction_id c \<noteq> 0" using assms(2) by (simp add: NetCommand_valid_def)
  then show ?thesis
    using assms(1,3)
    by (auto simp: success_result_ok progress_result_ok hw declarative_start_def declarative_inv_def declarative_serving_def complete_success_def Let_def
        split: if_splits option.splits dest!: find_set)
qed

lemma declarative_loop_inv:
  assumes "declarative_inv hw"
  shows "declarative_inv (declarative_loop now hw) \<and>
    declarative_serving (declarative_loop now hw) = declarative_serving hw"
  using assms
  by (cases hw)
    (auto simp: success_result_ok timeout_sendable declarative_loop_def declarative_inv_def declarative_serving_def complete_success_def
      complete_timeout_def Let_def split: option.splits)

interpretation declarative: net_command_handler declarative_handler declarative_inv declarative_serving
proof (unfold_locales, goal_cases)
  case (1 h c now s h')
  then show ?case using declarative_start_inv [of h c now s h'] by (simp add: declarative_handler_def)
next
  case (2 h now)
  then show ?case using declarative_loop_inv by (simp add: declarative_handler_def)
next
  case (3 h t)
  then show ?case
    by (cases h) (auto simp: declarative_handler_def declarative_inv_def declarative_serving_def
        declarative_take_result_def declarative_reset_def Let_def split: option.splits)
next
  case (4 h)
  then show ?case
    by (cases h) (auto simp: declarative_handler_def declarative_inv_def declarative_serving_def
        declarative_cancel_def declarative_reset_def Let_def split: option.splits)
qed


subsection \<open>A blocked handler stays blocked\<close>

lemma active_start_busy: "dh_active_binding (fst hw) \<noteq> None \<Longrightarrow> declarative_start c now hw = (BUSY, hw)"
  by (cases hw) (simp add: declarative_start_def)

lemma failure_not_serving:
  "cd_transaction_id d \<noteq> 0 \<Longrightarrow> failure_ok code s \<Longrightarrow> \<not> serves_command (complete_failure code s b now d)"
  by (simp add: complete_failure_eq serves_command_def)

lemma blocked_run:
  assumes "service_reach declarative_handler d0 hw0 d hw" and "blocked d0 hw0"
  shows "blocked d hw \<and> hw = hw0"
  using assms
proof (induction rule: service_reach.induct)
  case (service_accept d hw inbound now ok seen d' hw')
  then have blk: "blocked d hw" "hw = hw0" by auto
  then have busy: "nh_start declarative_handler c t hw = (BUSY, hw)" for c t
    by (simp add: declarative_handler_def blocked_def active_start_busy)
  from service_accept(2) show ?case
  proof (cases rule: dispatcher_accept_cases)
    case (failed d1 code s b)
    then show ?thesis using blk busy failure_not_serving by (auto simp: blocked_def)
  qed (use blk busy in auto)
next
  case (service_loop d hw now d' hw')
  then show ?case by (auto simp: blocked_def serves_command_def dispatcher_loop_def)
next
  case (service_take d hw p d')
  then show ?case
    by (auto simp: blocked_def serves_command_def dispatcher_take_result_def dispatcher_has_result_def
        dispatcher_reset_def Let_def split: if_splits)
qed simp

lemma zero_estimate_inconsistent: "\<not> NetResult_consistent (progress_result t 0 p w)"
  by (simp add: progress_result_def NetResult_consistent_def NetExecutionContext_consistent_def split: prod.splits)

lemma declarative_started:
  assumes "declarative_start c now (h, w) = (STARTED, h', w')"
  obtains b where "List.find (binding_matches c) (dh_bindings h) = Some b" "dh_active_binding h' = Some b"
    "dh_transaction_id h' = cmd_transaction_id c" "dh_started_ms h' = now" "dh_result_ready h'"
    "dh_result h' = (case db_probe b of None \<Rightarrow> success_result (cmd_transaction_id c) 0 None w'
       | Some p \<Rightarrow> progress_result (cmd_transaction_id c) (db_completion_timeout_ms b) p w')"
  using assms
  by (auto simp: declarative_start_def complete_success_def Let_def split: if_splits option.splits)

lemma ready_loop [simp]: "dh_result_ready h \<Longrightarrow> declarative_loop now (h, w) = (h, w)"
  by (simp add: declarative_loop_def split: option.splits)

subsection \<open>The phases of a command\<close>

lemma forward_result:
  assumes "running c now d" and "now1 - now < cmd_timeout_ms c"
    and "dh_result_ready h'" and "declarative_loop now1 (h, w) = (h', w)"
    and "sendable (cmd_transaction_id c) (dh_result h')"
  shows "dispatcher_loop declarative_handler now1 d (h, w) =
    Some (staged (dh_result h') d, snd (declarative_take_result (h', w)))"
  using assms complete_result_sendable [OF assms(5), of d]
  by (simp add: dispatcher_loop_def running_def declarative_handler_def declarative_take_result_def sendable_def
      Let_def not_le [symmetric])

lemma accept_probed:
  fixes w :: 'w
  assumes "configured h" and "dh_device_id h = Some (cmd_device_id c)"
    and "List.find (binding_matches c) (dh_bindings h) = Some b" and "db_probe b = Some p"
    and "im_peer_index inbound \<noteq> INVALID_PEER_INDEX"
    and "rm_envelope (im_message inbound) = env" and "env_kind env = EspNowFrameKind.COMMAND"
    and "command_decode (env_transaction_id env) (Some (rm_data (im_message inbound))) = Inr c"
  defines "w2 \<equiv> db_trigger b (cp_begin p w)"
  shows "\<exists>seen d1 h1. dispatcher_accept declarative_handler inbound now (ready_dispatcher observed) (h, w) =
      (True, seen, d1, h1, w2) \<and> running c now d1 \<and> dh_result_ready h1 \<and>
    dh_result h1 = progress_result (cmd_transaction_id c) (db_completion_timeout_ms b) p w2 \<and>
    waiting c b now (h1\<lparr>dh_result := NetResult_init, dh_result_ready := False\<rparr>)"
proof -
  note c = command_decode_Inr [OF assms(8)]
  have "env_transaction_id env \<noteq> 0" using c by (auto simp: NetCommand_valid_def)
  moreover obtain h1 where "declarative_start c now (h, w) = (STARTED, h1, w2)" "dh_result_ready h1"
      "dh_result h1 = progress_result (cmd_transaction_id c) (db_completion_timeout_ms b) p w2"
      "waiting c b now (h1\<lparr>dh_result := NetResult_init, dh_result_ready := False\<rparr>)"
    using assms(1-4) by (simp add: declarative_start_def configured_def waiting_def w2_def Let_def)
  ultimately show ?thesis
    using assms(5-8) c
    by (auto simp: dispatcher_accept_def ready_dispatcher_def set_identity_observer_def set_handler_def
        dispatcher_init_def declarative_handler_def running_def Let_def)
qed

lemma progress_taken:
  assumes "running c now d" and "sendable (cmd_transaction_id c) r" and "res_status r = IN_PROGRESS"
  shows "\<exists>pending d'. dispatcher_take_result (staged r d) = (Some pending, d') \<and> running c now d' \<and>
    result_decode (cmd_transaction_id c) (Some (pn_payload pending)) latency = Inr (result_carried latency r)"
  using assms result_decode_encoded [of r latency]
  by (auto simp: running_def dispatcher_take_result_def dispatcher_has_result_def staged_def sendable_def Let_def)

lemma completion_taken:
  assumes "running c now d" and "waiting c b now h" and "cmd_transaction_id c \<noteq> 0" and "binding_ok b"
    and "db_probe b = Some p" and "cp_completed p w" and "now2 - now < cmd_timeout_ms c"
  shows "\<exists>d' h' pending d''. dispatcher_loop declarative_handler now2 d (h, w) = Some (d', h', w) \<and>
    dispatcher_take_result d' = (Some pending, d'') \<and>
    result_decode (cmd_transaction_id c) (Some (pn_payload pending)) latency =
      Inr (result_carried latency (success_result (cmd_transaction_id c) (now2 - now) (Some p) w)) \<and>
    cd_state d'' = InboundCommandDispatcherState.IDLE \<and> dh_active_binding h' = None \<and> \<not> dh_result_ready h'"
proof -
  define s where "s = success_result (cmd_transaction_id c) (now2 - now) (Some p) w"
  have s: "sendable (cmd_transaction_id c) s" "res_status s = SUCCEEDED"
    unfolding s_def using success_result_ok [OF assms(3,4,5)] by auto
  have l: "declarative_loop now2 (h, w) = (complete_success now2 w h, w)" "dh_result_ready (complete_success now2 w h)"
      "dh_result (complete_success now2 w h) = s"
    using assms(2,5,6) by (auto simp: declarative_loop_def waiting_def complete_success_def s_def)
  have "dispatcher_loop declarative_handler now2 d (h, w) =
      Some (staged s d, snd (declarative_take_result (complete_success now2 w h, w)))"
    using forward_result [OF assms(1,7) l(2,1)] l(3) s(1) by simp
  moreover have "\<exists>h'. snd (declarative_take_result (complete_success now2 w h, w)) = (h', w) \<and>
      dh_active_binding h' = None \<and> \<not> dh_result_ready h'"
    using l s(2) by (simp add: declarative_take_result_def declarative_reset_def)
  moreover have "cd_transaction_id d = cmd_transaction_id c" using assms(1) by (simp add: running_def)
  ultimately show ?thesis using staged_answer [of d s latency] s by (fastforce simp: s_def [symmetric])
qed

subsection \<open>Properties\<close>

text \<open>C25 (functional): the life of a command with a declared completion. An idle dispatcher with a
  handler that is free and whose probed bindings have a completion timeout other than zero
  accepts a command that matches a probed binding. Its next loop, if it runs before the
  command's deadline, offers a progress report that the requester decodes with the binding's
  completion timeout as estimate and the state the probe expects. If then the next loop after
  that report also runs before the command's deadline and the probe has seen the expected
  state, the requester decodes a success with the observed state, and the dispatcher and the
  handler are free again. Loops at which the probe has not yet seen the state are not
  covered.\<close>

theorem declarative_command_lifecycle:
  assumes "configured h" and "dh_device_id h = Some (cmd_device_id c)"
    and "List.find (binding_matches c) (dh_bindings h) = Some b" and "db_probe b = Some p"
    and "im_peer_index inbound \<noteq> INVALID_PEER_INDEX"
    and "rm_envelope (im_message inbound) = env" and "env_kind env = EspNowFrameKind.COMMAND"
    and "command_decode (env_transaction_id env) (Some (rm_data (im_message inbound))) = Inr c"
    and "now1 - now < cmd_timeout_ms c"
  shows "\<exists>seen d1 hw1 d2 h2 w2 pending d3.
    dispatcher_accept declarative_handler inbound now (ready_dispatcher observed) (h, w) = (True, seen, d1, hw1) \<and>
    dispatcher_loop declarative_handler now1 d1 hw1 = Some (d2, h2, w2) \<and>
    dispatcher_take_result d2 = (Some pending, d3) \<and> w2 = db_trigger b (cp_begin p w) \<and>
    result_decode (env_transaction_id env) (Some (pn_payload pending)) latency =
      Inr (result_carried latency (progress_result (cmd_transaction_id c) (db_completion_timeout_ms b) p w2)) \<and>
    (\<forall>w3 now2. cp_completed p w3 \<longrightarrow> now2 - now < cmd_timeout_ms c \<longrightarrow>
      (\<exists>d4 h4 pending2 d5. dispatcher_loop declarative_handler now2 d3 (h2, w3) = Some (d4, h4, w3) \<and>
         dispatcher_take_result d4 = (Some pending2, d5) \<and>
         result_decode (env_transaction_id env) (Some (pn_payload pending2)) latency =
           Inr (result_carried latency (success_result (cmd_transaction_id c) (now2 - now) (Some p) w3)) \<and>
         cd_state d5 = InboundCommandDispatcherState.IDLE \<and> dh_active_binding h4 = None \<and> \<not> dh_result_ready h4))"
proof -
  note c = command_decode_Inr [OF assms(8)]
  have t: "env_transaction_id env = cmd_transaction_id c" "cmd_transaction_id c \<noteq> 0"
    using c by (auto simp: NetCommand_valid_def)
  have ok: "binding_ok b" using assms(1,3) find_set by (fastforce simp: configured_def)
  define w2 where "w2 = db_trigger b (cp_begin p w)"
  define r where "r = progress_result (cmd_transaction_id c) (db_completion_timeout_ms b) p w2"
  have r: "sendable (cmd_transaction_id c) r" "res_status r = IN_PROGRESS"
    unfolding r_def using progress_result_ok [OF t(2) ok assms(4)] by auto
  obtain seen d1 h1 where acc: "dispatcher_accept declarative_handler inbound now (ready_dispatcher observed) (h, w) =
      (True, seen, d1, h1, w2)" and d1: "running c now d1" and h1: "dh_result_ready h1" "dh_result h1 = r"
      "waiting c b now (h1\<lparr>dh_result := NetResult_init, dh_result_ready := False\<rparr>)"
    using accept_probed [OF assms(1-8)] unfolding w2_def r_def by blast
  let ?h2 = "h1\<lparr>dh_result := NetResult_init, dh_result_ready := False\<rparr>"
  have loop1: "dispatcher_loop declarative_handler now1 d1 (h1, w2) = Some (staged r d1, ?h2, w2)"
    using forward_result [OF d1 assms(9) h1(1) ready_loop [OF h1(1)], of w2] h1 r
    by (simp add: declarative_take_result_def)
  obtain pending d3 where take1: "dispatcher_take_result (staged r d1) = (Some pending, d3)" and d3: "running c now d3"
      and dec: "result_decode (cmd_transaction_id c) (Some (pn_payload pending)) latency = Inr (result_carried latency r)"
    using progress_taken [OF d1 r] by blast
  show ?thesis
    using acc loop1 take1 dec completion_taken [OF d3 h1(3) t(2) ok assms(4), of _ _ latency]
    unfolding t(1) r_def w2_def by blast
qed

text \<open>A dispatcher with a declarative handler whose probed bindings have a non-zero
  completion timeout never reaches the null-handler dereference, and whenever the dispatcher
  is idle its handler is free: the next command is started or refused on its merits, never
  answered BUSY.\<close>

theorem declarative_service_stays_available:
  assumes "service_reach declarative_handler (ready_dispatcher observed) (h0, w0) d (h, w)" and "configured h0"
  shows "dispatcher_loop declarative_handler now d (h, w) \<noteq> None \<and>
    (cd_state d = InboundCommandDispatcherState.IDLE \<longrightarrow> fst (declarative_start c t (h, w)) \<noteq> BUSY)"
proof -
  note init = configured_inv [OF assms(2), of w0]
  have "dispatcher_loop declarative_handler now d (h, w) \<noteq> None"
    using declarative.service_never_stuck [OF assms(1)] init by blast
  moreover have "declarative_inv (h, w) \<and> declarative_serving (h, w) = 0" if "cd_state d = InboundCommandDispatcherState.IDLE"
    using declarative.service_idle_free [OF assms(1)] init that by (simp add: serves_command_def)
  ultimately show ?thesis
    by (auto simp: declarative_inv_def declarative_serving_def declarative_start_def Let_def split: option.splits)
qed

text \<open>C28 (error): a probed binding with completion timeout 0 disables its handler for good. The
  first command of the binding is answered with an internal error although its automation
  ran, because the progress report with estimate 0 is not consistent; the handler keeps the
  binding, and however long the dispatcher runs afterwards it never executes a command
  again: every start is refused as BUSY.\<close>

theorem zero_completion_timeout_blocks:
  assumes "dispatcher_accept declarative_handler inbound now (ready_dispatcher observed) (h, w) = (True, seen, d1, h1, w1)"
    and "cd_state d1 = ACTIVE"
    and "dh_active_binding h1 = Some b" and "db_probe b = Some p" and "db_completion_timeout_ms b = 0"
    and "dispatcher_loop declarative_handler now1 d1 (h1, w1) = Some (d2, hw2)"
    and "now1 - now < cmd_timeout_ms (cd_command d1)"
    and "service_reach declarative_handler d2 hw2 d hw"
  shows "d2 = complete_failure INTERNAL_ERROR ''command handler returned invalid result'' False now1 d1 \<and>
    cd_state d \<noteq> ACTIVE \<and> (\<forall>c t. declarative_start c t hw = (BUSY, hw))"
  using assms(1)
proof (cases rule: dispatcher_accept_cases)
  case (failed dx code s bb)
  then have "cd_state d1 = RESULT_READY" by (simp add: complete_failure_eq)
  with assms(2) show ?thesis by simp
next
  case (started c)
  have st: "declarative_start c now (h, w) = (STARTED, h1, w1)"
    using started(4) by (simp add: declarative_handler_def)
  then have h1: "dh_result_ready h1" "dh_result h1 = progress_result (cmd_transaction_id c) 0 p w1"
    using assms(3-5) by (auto elim!: declarative_started)
  have d1: "cd_state d1 = ACTIVE" "cd_handler d1" "cd_started_ms d1 = now" "cd_transaction_id d1 \<noteq> 0"
    using started by (auto simp: ready_dispatcher_def set_identity_observer_def set_handler_def)
  have run: "d2 = complete_failure INTERNAL_ERROR ''command handler returned invalid result'' False now1 d1"
      "dh_active_binding (fst hw2) = Some b"
    using assms(3,6,7) d1 h1
    by (auto simp: zero_estimate_inconsistent dispatcher_loop_def declarative_handler_def declarative_take_result_def Let_def not_le [symmetric])
  then have "blocked d2 hw2"
    using failure_not_serving [OF d1(4) dispatcher_failures_ok(2)] by (simp add: blocked_def)
  from blocked_run [OF assms(8) this] run(1) show ?thesis
    by (auto simp: blocked_def serves_command_def active_start_busy)
qed simp


subsection \<open>Witnesses\<close>

lemma example_lamp_configured: "timeout \<noteq> 0 \<Longrightarrow> configured (example_lamp timeout)"
  using light_probe.completion_probe_axioms
  by (simp add: configured_def example_lamp_def add_binding_def set_device_id_def declarative_init_def
      MAX_BINDINGS_def binding_ok_def example_binding_def)

lemma declarative_service_stays_available_witness:
  "fst (declarative_start NetCommand_init 7 (example_lamp 2000, example_world)) \<noteq> BUSY"
  using declarative_service_stays_available [OF service_start example_lamp_configured, of 2000]
  by (simp add: ready_dispatcher_def set_identity_observer_def set_handler_def dispatcher_init_def)


lemma example_lamp_find:
  "List.find (binding_matches \<lparr>cmd_transaction_id = 5, cmd_device_id = [65], cmd_resource = [], cmd_name = [66],
      cmd_payload = [], cmd_source_device_id = [], cmd_source_boot_id = 0, cmd_timeout_ms = 1\<rparr>)
    (dh_bindings (example_lamp timeout)) = Some (example_binding timeout)"
  "dh_device_id (example_lamp timeout) = Some [65]"
  by (simp_all add: example_lamp_def add_binding_def set_device_id_def declarative_init_def
      MAX_BINDINGS_def example_binding_def binding_matches_def)

lemma example_inbound_fields:
  "im_peer_index example_inbound \<noteq> INVALID_PEER_INDEX"
  "env_kind (rm_envelope (im_message example_inbound)) = EspNowFrameKind.COMMAND"
  "command_decode (env_transaction_id (rm_envelope (im_message example_inbound)))
     (Some (rm_data (im_message example_inbound))) =
   Inr \<lparr>cmd_transaction_id = 5, cmd_device_id = [65], cmd_resource = [], cmd_name = [66],
      cmd_payload = [], cmd_source_device_id = [], cmd_source_boot_id = 0, cmd_timeout_ms = 1\<rparr>"
  "env_transaction_id (rm_envelope (im_message example_inbound)) = 5"
  using example_command_decode by (simp_all add: example_inbound_def INVALID_PEER_INDEX_def)

lemma declarative_command_lifecycle_witness:
  "\<exists>seen d1 hw1 d2 hw2. dispatcher_accept declarative_handler example_inbound 10 (ready_dispatcher False)
      (example_lamp 2000, example_world) = (True, seen, d1, hw1) \<and>
    dispatcher_loop declarative_handler 10 d1 hw1 = Some (d2, hw2)"
proof -
  let ?c = "\<lparr>cmd_transaction_id = 5, cmd_device_id = [65], cmd_resource = [], cmd_name = [66],
      cmd_payload = [], cmd_source_device_id = [], cmd_source_boot_id = 0, cmd_timeout_ms = 1\<rparr>"
  have "(2000 :: u32) \<noteq> 0" and "dh_device_id (example_lamp 2000) = Some (cmd_device_id ?c)"
    and "db_probe (example_binding 2000) = Some light_probe" and "(10 :: u32) - 10 < cmd_timeout_ms ?c"
    by (simp_all add: example_lamp_find example_binding_def)
  note declarative_command_lifecycle [where observed = False and w = example_world and latency = 0,
      OF example_lamp_configured [OF this(1)] this(2) example_lamp_find(1) this(3) example_inbound_fields(1) refl
        example_inbound_fields(2,3) this(4)]
  then show ?thesis by blast
qed

lemma zero_completion_timeout_blocks_witness:
  "\<exists>d1 h1 w1 d2 hw2. dispatcher_accept declarative_handler example_inbound 10 (ready_dispatcher False)
      (example_lamp 0, example_world) = (True, None, d1, h1, w1) \<and>
    dispatcher_loop declarative_handler 10 d1 (h1, w1) = Some (d2, hw2) \<and>
    declarative_start NetCommand_init 11 hw2 = (BUSY, hw2)"
proof -
  let ?c = "\<lparr>cmd_transaction_id = 5, cmd_device_id = [65], cmd_resource = [], cmd_name = [66],
      cmd_payload = [], cmd_source_device_id = [], cmd_source_boot_id = 0, cmd_timeout_ms = 1\<rparr>"
  have "\<not> dh_result_ready (example_lamp 0)" "dh_active_binding (example_lamp 0) = None"
    by (simp_all add: example_lamp_def add_binding_def set_device_id_def declarative_init_def MAX_BINDINGS_def)
  then obtain h1 w1 where st: "declarative_start ?c 10 (example_lamp 0, example_world) = (STARTED, h1, w1)"
    by (simp add: declarative_start_def example_lamp_find Let_def example_binding_def)
  then have h1: "dh_active_binding h1 = Some (example_binding 0)"
    by (elim declarative_started) (simp add: example_lamp_find)
  obtain d1 where acc: "dispatcher_accept declarative_handler example_inbound 10 (ready_dispatcher False)
      (example_lamp 0, example_world) = (True, None, d1, h1, w1)" and d1: "running ?c 10 d1"
    using st example_inbound_fields
    by (simp add: dispatcher_accept_def ready_dispatcher_def set_identity_observer_def set_handler_def
        dispatcher_init_def declarative_handler_def running_def Let_def)
  obtain d2 hw2 where l: "dispatcher_loop declarative_handler 10 d1 (h1, w1) = Some (d2, hw2)"
    using d1 by (cases "dispatcher_loop declarative_handler 10 d1 (h1, w1)")
      (auto simp: dispatcher_loop_def running_def Let_def split: if_splits option.splits prod.splits)
  have "declarative_start NetCommand_init 11 hw2 = (BUSY, hw2)"
    using zero_completion_timeout_blocks [OF acc _ h1 _ _ l _ service_start] d1
    by (simp add: running_def example_binding_def)
  then show ?thesis using acc l by blast
qed

end
