(* ===== verification/Key_Parser.thy ===== *)
theory Key_Parser
  imports Protocol_Identity
begin

text \<open>
  The parsers of \<open>espidf_espnow_encrypted_radio.cpp\<close> for the configured keys (32 hexadecimal
  digits) and radio addresses (six pairs separated by colons). Both write their output
  array as they go, so a refused text leaves it partly overwritten.
\<close>

definition nibble :: "u8 \<Rightarrow> u8 option" where
  "nibble value =
     (if 48 \<le> value \<and> value \<le> 57 then Some (value - 48)
      else if 97 \<le> value \<and> value \<le> 102 then Some (value - 97 + 10)
      else if 65 \<le> value \<and> value \<le> 70 then Some (value - 65 + 10)
      else None)"

function parse_key_from :: "cstring \<Rightarrow> nat \<Rightarrow> bytes \<Rightarrow> bool \<times> bytes" where
  "parse_key_from hex index out =
     (if index < KEY_SIZE then
        (case (nibble (c_char hex (index * 2)), nibble (c_char hex (index * 2 + 1))) of
           (Some high, Some low) \<Rightarrow>
             parse_key_from hex (Suc index) (out[index := push_bit 4 high OR low])
         | _ \<Rightarrow> (False, out))
      else (True, out))"
  by pat_completeness auto
termination
  by (relation "measure (\<lambda>(hex, index, out). KEY_SIZE - index)") auto

declare parse_key_from.simps [simp del]

definition parse_key :: "cstring option \<Rightarrow> bytes \<Rightarrow> bool \<times> bytes" where
  "parse_key hex out =
     (case hex of None \<Rightarrow> (False, out)
      | Some s \<Rightarrow> if length s \<noteq> KEY_SIZE * 2 then (False, out) else parse_key_from s 0 out)"

function parse_address_from :: "cstring \<Rightarrow> nat \<Rightarrow> bytes \<Rightarrow> bool \<times> bytes" where
  "parse_address_from value index out =
     (if index < MAC_SIZE then
        (if index \<noteq> 0 \<and> c_char value (index * 3 - 1) \<noteq> 58 then (False, out)
         else
           (let expanded = [c_char value (index * 3), c_char value (index * 3 + 1)] @ replicate (KEY_SIZE * 2 - 2) 48
            in case parse_key (Some expanded) (replicate KEY_SIZE 0) of
                 (False, _) \<Rightarrow> (False, out)
               | (True, decoded) \<Rightarrow> parse_address_from value (Suc index) (out[index := decoded ! 0])))
      else (True, out))"
  by pat_completeness auto
termination
  by (relation "measure (\<lambda>(value, index, out). MAC_SIZE - index)") auto

declare parse_address_from.simps [simp del]

definition parse_address :: "cstring option \<Rightarrow> bytes \<Rightarrow> bool \<times> bytes" where
  "parse_address value out =
     (case value of None \<Rightarrow> (False, out)
      | Some s \<Rightarrow> if length s \<noteq> 17 then (False, out) else parse_address_from s 0 out)"

text \<open>How a key and an address are written.\<close>

definition hex_digit :: "u8 \<Rightarrow> u8" where
  "hex_digit n = (if n < 10 then 48 + n else 87 + n)"

definition hex_pair :: "u8 \<Rightarrow> bytes" where
  "hex_pair b = [hex_digit (drop_bit 4 b), hex_digit (b AND 15)]"

definition key_text :: "bytes \<Rightarrow> cstring" where
  "key_text bs = concat (map hex_pair bs)"

definition address_text :: "bytes \<Rightarrow> cstring" where
  "address_text bs = tl (concat (map (\<lambda>b. 58 # hex_pair b) bs))"

subsection \<open>Round trips\<close>

lemma nibble_hex_digit: "n < 16 \<Longrightarrow> nibble (hex_digit n) = Some n"
proof -
  assume "n < 16"
  then have "unat n < 16" by (simp add: word_less_nat_alt)
  then have "unat n \<in> {0, 1, 2, 3, 4, 5, 6, 7, 8, 9, 10, 11, 12, 13, 14, 15}"
    by (simp only: insert_iff empty_iff) presburger
  moreover have "n = of_nat (unat n)" by simp
  ultimately show ?thesis
    by (elim insertE emptyE) (simp_all add: nibble_def hex_digit_def)
qed

lemma nibbles_join: "push_bit 4 (drop_bit 4 b) OR (b AND 15) = (b::u8)"
proof (rule bit_word_eqI)
  fix n assume "n < LENGTH(8)"
  then have "bit (15::u8) n \<longleftrightarrow> n < 4"
    using bit_mask_iff [of 4 n, where 'a = "8 word"] by (auto simp: mask_eq_exp_minus_1)
  then show "bit (push_bit 4 (drop_bit 4 b) OR (b AND 15)) n = bit b n"
    using \<open>n < LENGTH(8)\<close> by (auto simp: bit_simps)
qed

lemma nibble_bounds: "drop_bit 4 b < (16::u8)" "b AND 15 < (16::u8)"
proof -
  have "unat (drop_bit 4 b) = unat b div 16" by (simp add: drop_bit_eq_div unat_div)
  then have "unat (drop_bit 4 b) < 16" using unat_less_256 [of b] by linarith
  then show "drop_bit 4 b < 16" by (simp add: word_less_nat_alt)
  have "b AND 15 \<le> 15" by (rule word_and_le1)
  also have "(15::u8) < 16" by simp
  finally show "b AND 15 < 16" .
qed

lemma nibble_pair [simp]:
  "nibble (hex_digit (drop_bit 4 b)) = Some (drop_bit 4 b)" "nibble (hex_digit (b AND 15)) = Some (b AND 15)"
  by (simp_all add: nibble_hex_digit nibble_bounds)

lemma length_key_text [simp]: "length (key_text bs) = 2 * length bs"
  by (induction bs) (auto simp: key_text_def hex_pair_def)

lemma key_text_nth:
  "i < length bs \<Longrightarrow> key_text bs ! (i * 2) = hex_digit (drop_bit 4 (bs ! i)) \<and>
     key_text bs ! (i * 2 + 1) = hex_digit (bs ! i AND 15)"
proof (induction bs arbitrary: i)
  case (Cons b bs)
  have "key_text (b # bs) = hex_digit (drop_bit 4 b) # hex_digit (b AND 15) # key_text bs"
    by (simp add: key_text_def hex_pair_def)
  with Cons show ?case by (cases i) auto
qed simp

lemma parse_key_from_text:
  assumes "length bs = KEY_SIZE" and "i \<le> KEY_SIZE" and "length out = KEY_SIZE" and "take i out = take i bs"
  shows "parse_key_from (key_text bs) i out = (True, bs)"
  using assms(2-4)
proof (induction "KEY_SIZE - i" arbitrary: i out)
  case 0
  then show ?case using assms(1) by (simp add: parse_key_from.simps)
next
  case (Suc n)
  then have i: "i < KEY_SIZE" by simp
  have "c_char (key_text bs) (i * 2) = hex_digit (drop_bit 4 (bs ! i))"
      "c_char (key_text bs) (i * 2 + 1) = hex_digit (bs ! i AND 15)"
    using key_text_nth [of i bs] i assms(1) by (auto simp: c_char_def)
  then have "parse_key_from (key_text bs) i out = parse_key_from (key_text bs) (Suc i) (out[i := bs ! i])"
    using i by (subst parse_key_from.simps) (simp add: nibbles_join)
  also have "\<dots> = (True, bs)"
    using Suc.hyps(2) Suc.prems i assms(1) by (intro Suc.hyps(1)) (auto simp: take_Suc_conv_app_nth)
  finally show ?case .
qed

lemma parse_key_text:
  "length bs = KEY_SIZE \<Longrightarrow> length out = KEY_SIZE \<Longrightarrow> parse_key (Some (key_text bs)) out = (True, bs)"
  by (simp add: parse_key_def parse_key_from_text)

lemma parse_key_length [simp]: "length (snd (parse_key_from s i out)) = length out"
proof (induction s i out rule: parse_key_from.induct)
  case (1 s i out)
  then show ?case by (subst parse_key_from.simps) (auto split: option.splits)
qed


lemma parse_key_snd_length [simp]: "length (snd (parse_key k out)) = length out"
  by (simp add: parse_key_def split: option.splits)

lemma parse_address_from_length: "length (snd (parse_address_from v i out)) = length out"
proof (induction v i out rule: parse_address_from.induct)
  case (1 v i out)
  then show ?case by (subst parse_address_from.simps) (auto simp: Let_def split: prod.splits bool.splits)
qed

lemma parse_address_length [simp]: "length (snd (parse_address a out)) = length out"
  by (simp add: parse_address_def parse_address_from_length split: option.splits)

lemma parse_pair:
  "parse_key (Some (hex_pair b @ replicate (KEY_SIZE * 2 - 2) 48)) (replicate KEY_SIZE 0) =
     (True, b # replicate (KEY_SIZE - 1) 0)"
proof -
  have pair0: "hex_pair 0 = [48, 48]" by (simp add: hex_pair_def hex_digit_def)
  have "concat (replicate n (hex_pair 0)) = replicate (n * 2) 48" for n
    by (induction n) (simp_all add: pair0)
  then have "hex_pair b @ replicate (KEY_SIZE * 2 - 2) 48 = key_text (b # replicate (KEY_SIZE - 1) 0)"
    by (simp add: key_text_def KEY_SIZE_def)
  then show ?thesis by (simp add: parse_key_text KEY_SIZE_def)
qed

lemma address_chars:
  assumes "i < length bs"
  shows "concat (map (\<lambda>b. 58 # hex_pair b) bs) ! (i * 3) = 58"
    and "concat (map (\<lambda>b. 58 # hex_pair b) bs) ! (i * 3 + 1) = hex_digit (drop_bit 4 (bs ! i))"
    and "concat (map (\<lambda>b. 58 # hex_pair b) bs) ! (i * 3 + 2) = hex_digit (bs ! i AND 15)"
  using assms
proof (induction bs arbitrary: i)
  case (Cons b bs)
  {
    case 1
    with Cons(1) [of "i - 1"] show ?case by (cases i) (auto simp: hex_pair_def)
  next
    case 2
    with Cons(2) [of "i - 1"] show ?case by (cases i) (auto simp: hex_pair_def)
  next
    case 3
    with Cons(3) [of "i - 1"] show ?case by (cases i) (auto simp: hex_pair_def)
  }
qed simp_all

lemma length_coloned: "length (concat (map (\<lambda>b. 58 # hex_pair b) bs)) = 3 * length bs"
  by (induction bs) (auto simp: hex_pair_def)

lemma address_text_nth:
  assumes "i < length bs"
  shows "i \<noteq> 0 \<Longrightarrow> c_char (address_text bs) (i * 3 - 1) = 58"
    and "[c_char (address_text bs) (i * 3), c_char (address_text bs) (i * 3 + 1)] = hex_pair (bs ! i)"
proof -
  have tl: "c_char (address_text bs) k = concat (map (\<lambda>b. 58 # hex_pair b) bs) ! Suc k"
    if "Suc k < 3 * length bs" for k
    using that by (auto simp: c_char_def address_text_def length_coloned nth_tl)
  note ch = address_chars [OF assms]
  show "c_char (address_text bs) (i * 3 - 1) = 58" if "i \<noteq> 0"
    using tl [of "i * 3 - 1"] ch(1) assms that by simp
  have "Suc (i * 3) < 3 * length bs" "Suc (i * 3 + 1) < 3 * length bs" using assms by auto
  then show "[c_char (address_text bs) (i * 3), c_char (address_text bs) (i * 3 + 1)] = hex_pair (bs ! i)"
    using tl [of "i * 3"] tl [of "i * 3 + 1"] ch(2,3) by (simp add: hex_pair_def)
qed

lemma parse_address_from_text:
  assumes "length bs = MAC_SIZE" and "i \<le> MAC_SIZE" and "length out = MAC_SIZE" and "take i out = take i bs"
  shows "parse_address_from (address_text bs) i out = (True, bs)"
  using assms(2-4)
proof (induction "MAC_SIZE - i" arbitrary: i out)
  case 0
  then show ?case using assms(1) by (simp add: parse_address_from.simps)
next
  case (Suc n)
  then have i: "i < MAC_SIZE" by simp
  have "parse_address_from (address_text bs) i out =
      parse_address_from (address_text bs) (Suc i) (out[i := bs ! i])"
    using i address_text_nth [of i bs] assms(1) parse_pair [of "bs ! i"]
    by (subst parse_address_from.simps) (auto simp del: append.simps replicate.simps simp flip: append_Cons)
  also have "\<dots> = (True, bs)"
    using Suc.hyps(2) Suc.prems i assms(1) by (intro Suc.hyps(1)) (auto simp: take_Suc_conv_app_nth)
  finally show ?case .
qed

lemma length_address_text: "length bs = MAC_SIZE \<Longrightarrow> length (address_text bs) = 17"
  by (simp add: address_text_def length_coloned MAC_SIZE_def)

lemma parse_key_from_digits:
  "fst (parse_key_from s i out) \<longleftrightarrow>
     (\<forall>k. i \<le> k \<and> k < KEY_SIZE \<longrightarrow> nibble (c_char s (k * 2)) \<noteq> None \<and> nibble (c_char s (k * 2 + 1)) \<noteq> None)"
proof (induction s i out rule: parse_key_from.induct)
  case (1 s i out)
  have split: "(\<forall>k. i \<le> k \<and> k < KEY_SIZE \<longrightarrow> P k) \<longleftrightarrow> P i \<and> (\<forall>k. Suc i \<le> k \<and> k < KEY_SIZE \<longrightarrow> P k)"
    if "i < KEY_SIZE" for P
    using that le_eq_less_or_eq [of i] Suc_le_eq [of i] by blast
  show ?case
  proof (cases "i < KEY_SIZE")
    case True
    then show ?thesis
      using 1 by (subst parse_key_from.simps, subst split) (auto split: option.splits)
  qed (auto simp: parse_key_from.simps)
qed

subsection \<open>Properties\<close>

text \<open>Every 16-byte key written as 32 hexadecimal digits and every 6-byte address
  written as colon-separated pairs is parsed back to its bytes, whatever the output array
  held; and a key text is accepted exactly when it has 32 characters that are all
  hexadecimal digits.\<close>

theorem key_and_address_roundtrip:
  assumes "length key = KEY_SIZE" and "length address = MAC_SIZE"
    and "length out = KEY_SIZE" and "length out2 = MAC_SIZE"
  shows "parse_key (Some (key_text key)) out = (True, key) \<and>
    parse_address (Some (address_text address)) out2 = (True, address) \<and>
    (fst (parse_key (Some s) out) \<longleftrightarrow> length s = 32 \<and> (\<forall>i<16. nibble (c_char s (i * 2)) \<noteq> None \<and>
       nibble (c_char s (i * 2 + 1)) \<noteq> None))"
  using assms parse_key_text parse_address_from_text [of address 0 out2] length_address_text [of address]
    parse_key_from_digits [of s 0 out]
  by (simp add: parse_address_def) (simp add: parse_key_def KEY_SIZE_def)

lemma key_and_address_roundtrip_witness:
  "parse_address (Some (address_text [1, 2, 3, 250, 5, 6])) (replicate MAC_SIZE 0) = (True, [1, 2, 3, 250, 5, 6])"
  using key_and_address_roundtrip [of "replicate KEY_SIZE 7" "[1, 2, 3, 250, 5, 6]" "replicate KEY_SIZE 0"
      "replicate MAC_SIZE 0" "[]"]
  by (simp add: MAC_SIZE_def)

end
