(* ===== verification/Peer_Registry.thy ===== *)
theory Peer_Registry
  imports Bounded_Value Protocol_Identity
begin

text \<open>
  \<open>peer_registry.h\<close>, the table of configured peers with its lookups by identifier and by
  radio address, and \<open>peer_application_identity.h\<close>, the table of the application
  identifiers each peer is expected to announce. Both lookups of the registry are
  instances of the interface \<open>keyed_directory\<close>.
\<close>

abbreviation (input) PEER_CAPACITY :: nat where "PEER_CAPACITY \<equiv> 16"

record PeerRegistry =
  pr_peers :: "PeerIdentity list"
  pr_size :: nat

definition PeerRegistry_init :: PeerRegistry where
  "PeerRegistry_init = \<lparr>pr_peers = replicate PEER_CAPACITY PeerIdentity_init, pr_size = 0\<rparr>"

text \<open>The search loop shared by the two lookups.\<close>

function scan_peers :: "(PeerIdentity \<Rightarrow> bool) \<Rightarrow> PeerRegistry \<Rightarrow> nat \<Rightarrow> PeerIndex" where
  "scan_peers hit r index =
     (if index < pr_size r then
        (if hit (pr_peers r ! index) then of_nat index else scan_peers hit r (Suc index))
      else INVALID_PEER_INDEX)"
  by pat_completeness auto
termination
  by (relation "measure (\<lambda>(hit, r, index). pr_size r - index)") auto

declare scan_peers.simps [simp del]

definition index_for_id :: "cstring option \<Rightarrow> PeerRegistry \<Rightarrow> PeerIndex" where
  "index_for_id v r =
     (case v of None \<Rightarrow> INVALID_PEER_INDEX
      | Some s \<Rightarrow> scan_peers (\<lambda>p. peer_id p = c_str_of s) r 0)"

definition index_for_address :: "span \<Rightarrow> PeerRegistry \<Rightarrow> PeerIndex" where
  "index_for_address v r =
     (case v of None \<Rightarrow> INVALID_PEER_INDEX
      | Some a \<Rightarrow> scan_peers (\<lambda>p. peer_address p = take MAC_SIZE a) r 0)"

definition registry_peer :: "PeerIndex \<Rightarrow> PeerRegistry \<Rightarrow> PeerIdentity option" where
  "registry_peer i r = (if unat i < pr_size r then Some (pr_peers r ! unat i) else None)"

definition registry_add :: "PeerIdentity \<Rightarrow> PeerRegistry \<Rightarrow> bool \<times> PeerRegistry" where
  "registry_add p r =
     (if peer_id p = [] \<or> pr_size r \<ge> PEER_CAPACITY \<or>
         index_for_id (Some (peer_id p)) r \<noteq> INVALID_PEER_INDEX \<or>
         index_for_address (Some (peer_address p)) r \<noteq> INVALID_PEER_INDEX
      then (False, r)
      else (True, r\<lparr>pr_peers := (pr_peers r)[pr_size r := p], pr_size := Suc (pr_size r)\<rparr>))"

subsection \<open>Expected application identifiers\<close>

datatype PeerApplicationIdentityMatch = MATCH | UNCONFIGURED | LEGACY | MISMATCH

record PeerApplicationIdentity =
  ai_expected :: "cstring option list"

definition PeerApplicationIdentity_init :: PeerApplicationIdentity where
  "PeerApplicationIdentity_init = \<lparr>ai_expected = replicate PEER_CAPACITY None\<rparr>"

text \<open>The length loop stops at the terminator or at 64 bytes, as \<open>text_scan\<close> does.\<close>

definition identity_set ::
    "PeerIndex \<Rightarrow> cstring option \<Rightarrow> PeerApplicationIdentity \<Rightarrow> bool \<times> PeerApplicationIdentity" where
  "identity_set peer v a =
     (case v of None \<Rightarrow> (False, a)
      | Some s \<Rightarrow>
          (if unat peer \<ge> PEER_CAPACITY \<or> c_char s 0 = 0 \<or> ai_expected a ! unat peer \<noteq> None
           then (False, a)
           else if text_scan 63 s 0 > 63 then (False, a)
           else (True, a\<lparr>ai_expected := (ai_expected a)[unat peer := Some (c_str_of s)]\<rparr>)))"

definition identity_check ::
    "PeerIndex \<Rightarrow> cstring option \<Rightarrow> u64 \<Rightarrow> PeerApplicationIdentity \<Rightarrow> PeerApplicationIdentityMatch" where
  "identity_check peer v boot a =
     (if unat peer \<ge> PEER_CAPACITY then UNCONFIGURED
      else case ai_expected a ! unat peer of
        None \<Rightarrow> UNCONFIGURED
      | Some e \<Rightarrow>
          (case v of None \<Rightarrow> LEGACY
           | Some s \<Rightarrow>
               (if c_char s 0 = 0 \<or> boot = 0 then LEGACY
                else if e = c_str_of s then MATCH else MISMATCH)))"

subsection \<open>Well-formedness\<close>

definition registered :: "PeerRegistry \<Rightarrow> PeerIdentity list" where
  "registered r = take (pr_size r) (pr_peers r)"

definition registry_wf :: "PeerRegistry \<Rightarrow> bool" where
  "registry_wf r \<longleftrightarrow>
     length (pr_peers r) = PEER_CAPACITY \<and> pr_size r \<le> PEER_CAPACITY \<and>
     (\<forall>p \<in> set (registered r). PeerIdentity_wf p \<and> peer_id p \<noteq> []) \<and>
     distinct (map peer_id (registered r)) \<and> distinct (map peer_address (registered r))"

definition identity_wf :: "PeerApplicationIdentity \<Rightarrow> bool" where
  "identity_wf a \<longleftrightarrow>
     length (ai_expected a) = PEER_CAPACITY \<and>
     (\<forall>e. Some e \<in> set (ai_expected a) \<longrightarrow> e \<noteq> [] \<and> text_ok 63 e)"

definition example_peer :: "string \<Rightarrow> u8 \<Rightarrow> PeerIdentity" where
  "example_peer n a = \<lparr>peer_id = cstr n, peer_address = replicate 6 a, peer_lmk = replicate 16 0\<rparr>"

subsection \<open>The interface of a lookup\<close>

text \<open>A directory numbers its entries and finds the number of an entry by a key that no two
  entries share.\<close>

locale keyed_directory =
  fixes key :: "'p \<Rightarrow> 'k"
    and entries :: "'r \<Rightarrow> 'p list"
    and index :: "'k \<Rightarrow> 'r \<Rightarrow> PeerIndex"
    and wf :: "'r \<Rightarrow> bool"
  assumes wf_bounded: "wf r \<Longrightarrow> length (entries r) \<le> PEER_CAPACITY"
    and wf_distinct: "wf r \<Longrightarrow> distinct (map key (entries r))"
    and index_first: "wf r \<Longrightarrow> i < length (entries r) \<Longrightarrow> index (key (entries r ! i)) r = of_nat i"
    and index_absent: "wf r \<Longrightarrow> k \<notin> key ` set (entries r) \<Longrightarrow> index k r = INVALID_PEER_INDEX"
begin

lemma index_valid_iff: "wf r \<Longrightarrow> index k r \<noteq> INVALID_PEER_INDEX \<longleftrightarrow> k \<in> key ` set (entries r)"
proof -
  assume wf: "wf r"
  have "index k r \<noteq> INVALID_PEER_INDEX" if "k \<in> key ` set (entries r)"
  proof -
    from that obtain i where i: "i < length (entries r)" "k = key (entries r ! i)"
      by (auto simp: in_set_conv_nth)
    then have "i < 16" using wf_bounded [OF wf] by simp
    then have "unat (of_nat i :: PeerIndex) < 16" by simp
    then show ?thesis using index_first [OF wf i(1)] i(2) by (auto simp: INVALID_PEER_INDEX_def)
  qed
  with index_absent [OF wf] show ?thesis by blast
qed

lemma index_sound:
  assumes wf: "wf r" and ne: "index k r \<noteq> INVALID_PEER_INDEX"
  shows "unat (index k r) < length (entries r) \<and> key (entries r ! unat (index k r)) = k"
proof -
  from ne obtain i where i: "i < length (entries r)" "k = key (entries r ! i)"
    using index_valid_iff [OF wf] by (auto simp: in_set_conv_nth)
  moreover have "unat (index k r) = i"
    using index_first [OF wf i(1)] i wf_bounded [OF wf] by simp
  ultimately show ?thesis by simp
qed

lemma index_inj:
  "\<lbrakk>wf r; index k r \<noteq> INVALID_PEER_INDEX; index k r = index k' r\<rbrakk> \<Longrightarrow> k = k'"
  by (metis index_sound)

end

subsection \<open>The registry implements it\<close>

lemma scan_peers_hit:
  "\<lbrakk>i \<le> n; n < pr_size r; hit (pr_peers r ! n); \<forall>j. i \<le> j \<and> j < n \<longrightarrow> \<not> hit (pr_peers r ! j)\<rbrakk> \<Longrightarrow>
     scan_peers hit r i = of_nat n"
proof (induction hit r i rule: scan_peers.induct)
  case (1 hit r i)
  show ?case
  proof (cases "i = n")
    case True
    then show ?thesis using 1 by (subst scan_peers.simps) simp
  next
    case False
    then have "i < n" and "\<not> hit (pr_peers r ! i)" using 1 by auto
    then show ?thesis using 1 by (subst scan_peers.simps) simp
  qed
qed

lemma scan_peers_miss:
  "\<forall>j. i \<le> j \<and> j < pr_size r \<longrightarrow> \<not> hit (pr_peers r ! j) \<Longrightarrow> scan_peers hit r i = INVALID_PEER_INDEX"
proof (induction hit r i rule: scan_peers.induct)
  case (1 hit r i)
  then show ?case by (cases "i < pr_size r") (simp_all add: scan_peers.simps [of hit r i])
qed

lemma registered_nth [simp]:
  "registry_wf r \<Longrightarrow> i < pr_size r \<Longrightarrow> registered r ! i = pr_peers r ! i"
  by (simp add: registered_def)

lemma length_registered [simp]: "registry_wf r \<Longrightarrow> length (registered r) = pr_size r"
  by (simp add: registered_def registry_wf_def)

lemma registered_keys_differ:
  assumes "registry_wf r" and "distinct (map f (registered r))" and "j < i" and "i < pr_size r"
  shows "f (pr_peers r ! j) \<noteq> f (pr_peers r ! i)"
  using assms nth_eq_iff_index_eq [OF assms(2), of j i] by auto

lemma registered_peer_wf:
  "registry_wf r \<Longrightarrow> i < pr_size r \<Longrightarrow>
     text_ok 63 (peer_id (pr_peers r ! i)) \<and> length (peer_address (pr_peers r ! i)) = MAC_SIZE"
  using nth_mem [of i "registered r"]
  by (simp add: registry_wf_def registered_def PeerIdentity_wf_def MAX_ID_SIZE_def)

interpretation peers_by_id: keyed_directory peer_id registered
    "\<lambda>k r. if 0 \<in> set k then INVALID_PEER_INDEX else index_for_id (Some k) r" registry_wf
proof (unfold_locales, goal_cases)
  case (3 r i)
  then have i: "i < pr_size r" by simp
  have "scan_peers (\<lambda>p. peer_id p = peer_id (pr_peers r ! i)) r 0 = of_nat i"
    using registered_keys_differ [OF 3(1), of peer_id] 3(1) i
    by (intro scan_peers_hit) (auto simp: registry_wf_def)
  then show ?case
    using registered_peer_wf [OF 3(1) i] 3(1) i by (simp add: index_for_id_def text_ok_def c_str_of_def)
next
  case (4 r k)
  then have "\<forall>j. 0 \<le> j \<and> j < pr_size r \<longrightarrow> peer_id (pr_peers r ! j) \<noteq> k"
    by (metis imageI length_registered nth_mem registered_nth)
  then show ?case by (auto simp: index_for_id_def c_str_of_def intro!: scan_peers_miss)
qed (auto simp: registry_wf_def registered_def)

interpretation peers_by_address: keyed_directory peer_address registered
    "\<lambda>k r. if length k \<noteq> MAC_SIZE then INVALID_PEER_INDEX else index_for_address (Some k) r" registry_wf
proof (unfold_locales, goal_cases)
  case (3 r i)
  then have i: "i < pr_size r" by simp
  have "scan_peers (\<lambda>p. peer_address p = peer_address (pr_peers r ! i)) r 0 = of_nat i"
    using registered_keys_differ [OF 3(1), of peer_address] 3(1) i
    by (intro scan_peers_hit) (auto simp: registry_wf_def)
  then show ?case
    using registered_peer_wf [OF 3(1) i] 3(1) i by (simp add: index_for_address_def)
next
  case (4 r k)
  then have "\<forall>j. 0 \<le> j \<and> j < pr_size r \<longrightarrow> peer_address (pr_peers r ! j) \<noteq> k"
    by (metis imageI length_registered nth_mem registered_nth)
  then show ?case by (auto simp: index_for_address_def intro!: scan_peers_miss)
qed (auto simp: registry_wf_def registered_def)

lemma registry_wf_init: "registry_wf PeerRegistry_init"
  by (simp add: registry_wf_def PeerRegistry_init_def registered_def)

text \<open>A well-formed peer is added exactly when it is named, there is room and neither its
  identifier nor its address is taken.\<close>

lemma registry_add_iff:
  assumes "registry_wf r" and "PeerIdentity_wf p"
  shows "fst (registry_add p r) \<longleftrightarrow>
    peer_id p \<noteq> [] \<and> pr_size r < PEER_CAPACITY \<and>
    peer_id p \<notin> peer_id ` set (registered r) \<and> peer_address p \<notin> peer_address ` set (registered r)"
  using peers_by_id.index_valid_iff [OF assms(1), of "peer_id p"]
    peers_by_address.index_valid_iff [OF assms(1), of "peer_address p"] assms(2)
  by (auto simp: registry_add_def PeerIdentity_wf_def text_ok_def)

lemma registry_add_registered:
  assumes "registry_wf r" and "fst (registry_add p r)"
  shows "registered (snd (registry_add p r)) = registered r @ [p]"
  using assms by (auto simp: registry_add_def registered_def registry_wf_def take_Suc_conv_app_nth
      split: if_splits)

lemma registry_wf_add:
  assumes "registry_wf r" and "PeerIdentity_wf p"
  shows "registry_wf (snd (registry_add p r))"
proof (cases "fst (registry_add p r)")
  case True
  note add = registry_add_registered [OF assms(1) True] registry_add_iff [OF assms, THEN iffD1, OF True]
  have "pr_size (snd (registry_add p r)) = Suc (pr_size r)"
    and "length (pr_peers (snd (registry_add p r))) = length (pr_peers r)"
    using True by (auto simp: registry_add_def split: if_splits)
  then show ?thesis
    using assms add unfolding registry_wf_def by auto
next
  case False
  then have "snd (registry_add p r) = r" by (auto simp: registry_add_def split: if_splits)
  then show ?thesis using assms(1) by simp
qed

text \<open>C40 (invariant): however peers are added, the registry never holds more than 16 of them,
  and every registered peer is found again, by identifier and by address, at the index it
  was given.\<close>

theorem registry_finds_every_peer:
  assumes "\<forall>p \<in> set ps. PeerIdentity_wf p"
  shows "let r = run_events (\<lambda>p r. snd (registry_add p r)) ps PeerRegistry_init in
    pr_size r \<le> PEER_CAPACITY \<and>
    (\<forall>i < pr_size r. \<exists>p. registry_peer (of_nat i) r = Some p \<and>
       index_for_id (Some (peer_id p)) r = of_nat i \<and> index_for_address (Some (peer_address p)) r = of_nat i)"
proof -
  have "registry_wf (run_events (\<lambda>p r. snd (registry_add p r)) ps r0)" if "registry_wf r0" for r0
    using assms that by (induction ps arbitrary: r0) (auto intro: registry_wf_add)
  note wf = this [OF registry_wf_init]
  then have size: "pr_size (run_events (\<lambda>p r. snd (registry_add p r)) ps PeerRegistry_init) \<le> 16"
    by (simp add: registry_wf_def)
  show ?thesis
    using size wf peers_by_id.index_first [OF wf] peers_by_address.index_first [OF wf]
      registered_peer_wf [OF wf]
    by (auto simp: registry_peer_def text_ok_def Let_def)
qed

lemma registry_finds_every_peer_witness:
  "let r = run_events (\<lambda>p r. snd (registry_add p r)) [example_peer ''A'' 1, example_peer ''B'' 2]
     PeerRegistry_init
   in pr_size r \<le> PEER_CAPACITY"
  using registry_finds_every_peer [of "[example_peer ''A'' 1, example_peer ''B'' 2]"]
  by (simp add: example_peer_def PeerIdentity_wf_def text_ok_def cstr_def MAX_ID_SIZE_def
      MAC_SIZE_def KEY_SIZE_def Let_def)

subsection \<open>Application identifiers\<close>

lemma identity_wf_init: "identity_wf PeerApplicationIdentity_init"
  by (auto simp: identity_wf_def PeerApplicationIdentity_init_def)

lemma identity_set_wf:
  assumes "identity_wf a"
  shows "identity_wf (snd (identity_set peer v a))"
proof (cases v)
  case (Some s)
  have "text_scan 63 s 0 = min 64 (length (c_str_of s))" using text_scan_eq [of 0 63 s] by simp
  moreover have "c_str_of s \<noteq> []" if "c_char s 0 \<noteq> 0"
    using that by (cases s) (auto simp: c_char_def c_str_of_def)
  ultimately show ?thesis
    using assms Some
    by (auto simp: identity_set_def identity_wf_def text_ok_def dest!: set_update_subset_insert [THEN subsetD])
qed (use assms in \<open>simp add: identity_set_def\<close>)

text \<open>Once an expected identifier is stored for a peer it can never be
  replaced, and afterwards a full announcement from that peer matches exactly when it carries
  that identifier.\<close>

theorem identity_set_once:
  assumes "identity_wf a" and "identity_set peer (Some s) a = (True, b)"
  shows "(\<forall>v. \<not> fst (identity_set peer v b)) \<and>
    (\<forall>t boot. boot \<noteq> 0 \<longrightarrow> c_char t 0 \<noteq> 0 \<longrightarrow>
       identity_check peer (Some t) boot b = (if c_str_of t = c_str_of s then MATCH else MISMATCH))"
  using assms
  by (auto simp: identity_set_def identity_check_def identity_wf_def split: if_splits option.splits)

lemma identity_set_once_witness:
  "let b = snd (identity_set 3 (Some (cstr ''lamp'')) PeerApplicationIdentity_init) in
   identity_check 3 (Some (cstr ''lamp'')) 9 b = MATCH \<and>
   identity_check 3 (Some (cstr ''fan'')) 9 b = MISMATCH"
proof -
  let ?r = "identity_set 3 (Some (cstr ''lamp'')) PeerApplicationIdentity_init"
  have ok: "?r = (True, snd ?r)"
    by (simp add: identity_set_def PeerApplicationIdentity_init_def cstr_def c_char_def text_scan.simps)
  show ?thesis
    using identity_set_once [OF identity_wf_init ok]
    by (simp add: Let_def cstr_def c_char_def c_str_of_def)
qed

end
