(* ===== verification/Encrypted_Radio.thy ===== *)
theory Encrypted_Radio
  imports Key_Parser Peer_Registry Radio_Queue
begin

text \<open>
  \<open>espidf_espnow_encrypted_radio.h\<close> and \<open>.cpp\<close>: the driver of the encrypted ESP-NOW radio. Its
  state machine (channel supervision, initialization with rollback, peer refresh, radio
  recovery, arbitration with the Wi-Fi component) and its two callbacks are modelled on the
  driver's fields. The answers of the ESP-IDF and of the Wi-Fi component during one call are
  the argument \<open>idf\<close>, so every theorem holds for every behaviour of theirs. Log output and
  the measurements of callback stacks and cores are left out.
\<close>

datatype esp_err =
    ESP_OK | ESP_ERR_INVALID_STATE | ESP_ERR_ESPNOW_NOT_FOUND | ESP_ERR_ESPNOW_NOT_INIT | ESP_ERR_ESPNOW_ARG
  | ESP_ERR_OTHER int

text \<open>One call's view of the platform: the channel, the association and the address read from the
  Wi-Fi driver, the results of the ESP-NOW calls, and the Wi-Fi component (absent, or with
  its two queries). \<open>idf_fixed_channel\<close> is the build flag \<open>USE_WIFI_FIXED_CHANNEL\<close>.\<close>

record EspIdf =
  idf_channel :: "u8 option"
  idf_associated :: bool
  idf_mac :: "bytes option"
  idf_init :: esp_err
  idf_set_pmk :: esp_err
  idf_register_recv :: esp_err
  idf_register_send :: esp_err
  idf_add_peer :: "PeerIdentity \<Rightarrow> esp_err"
  idf_del_peer :: "bytes \<Rightarrow> esp_err"
  idf_get_peer :: "bytes \<Rightarrow> esp_err"
  idf_mod_peer :: "PeerIdentity \<Rightarrow> esp_err"
  idf_deinit :: esp_err
  idf_send :: "bytes \<Rightarrow> bytes \<Rightarrow> esp_err"
  idf_fixed_channel :: bool
  idf_wifi_present :: bool
  idf_wifi_fixed_operation :: bool
  idf_wifi_suppression_active :: bool
  idf_wifi_request_suppression :: "u8 \<Rightarrow> bool"

datatype WiFiArbitrationState = MONITORING | GRACE | REQUESTING | SUPPRESSED | RECONNECT_WINDOW

text \<open>The static \<open>instance_\<close>, as this object sees it.\<close>

datatype radio_instance = NoInstance | ThisInstance | OtherInstance

record EspIdfEspNowEncryptedRadio =
  nr_instance :: radio_instance
  nr_peers :: PeerRegistry
  nr_pmk :: bytes
  nr_last_channel_poll_ms :: u32
  nr_channel_stable_since_ms :: u32
  nr_last_initialization_attempt_ms :: u32
  nr_peer_refresh_last_ms :: "u32 list"
  nr_peer_refresh_pending_mask :: u16
  nr_peer_refresh_attempted_mask :: u16
  nr_peer_refresh_success_count :: u32
  nr_peer_refresh_failure_count :: u32
  nr_radio_recovery_due_ms :: u32
  nr_radio_recovery_last_ms :: u32
  nr_radio_recovery_success_count :: u32
  nr_radio_recovery_failure_count :: u32
  nr_wifi_arbitration_due_ms :: u32
  nr_last_initialization_error :: esp_err
  nr_received_frame_count :: u32
  nr_dropped_frame_count :: u32
  nr_sent_frame_count :: u32
  nr_failed_send_count :: u32
  nr_dropped_completion_count :: u32
  nr_received_frames :: "EspNowReceivedFrame EspNowSpscQueue"
  nr_send_completions :: "EspNowSendCompletion EspNowSpscQueue"
  nr_expected_channel :: u8
  nr_current_channel :: u8
  nr_configured :: bool
  nr_initialized :: bool
  nr_channel_matches :: bool
  nr_channel_stable :: bool
  nr_channel_mismatch_reported :: bool
  nr_wifi_association_known :: bool
  nr_wifi_associated :: bool
  nr_radio_recovery_pending :: bool
  nr_radio_recovery_in_progress :: bool
  nr_recovery_permitted :: bool
  nr_wifi_reconnect_suppression_held :: bool
  nr_wifi_arbitration_state :: WiFiArbitrationState

abbreviation (input) CHANNEL_POLL_INTERVAL_MS :: u32 where "CHANNEL_POLL_INTERVAL_MS \<equiv> 250"
abbreviation (input) CHANNEL_STABILIZATION_MS :: u32 where "CHANNEL_STABILIZATION_MS \<equiv> 5000"
abbreviation (input) INITIALIZATION_RETRY_MS :: u32 where "INITIALIZATION_RETRY_MS \<equiv> 5000"
abbreviation (input) PEER_REFRESH_COOLDOWN_MS :: u32 where "PEER_REFRESH_COOLDOWN_MS \<equiv> 30000"
abbreviation (input) RADIO_RECOVERY_BASE_DELAY_MS :: u32 where "RADIO_RECOVERY_BASE_DELAY_MS \<equiv> 3000"
abbreviation (input) RADIO_RECOVERY_JITTER_MS :: u32 where "RADIO_RECOVERY_JITTER_MS \<equiv> 7000"
abbreviation (input) RADIO_RECOVERY_COOLDOWN_MS :: u32 where "RADIO_RECOVERY_COOLDOWN_MS \<equiv> 30000"
abbreviation (input) WIFI_RECONNECT_GRACE_BASE_MS :: u32 where "WIFI_RECONNECT_GRACE_BASE_MS \<equiv> 10000"
abbreviation (input) WIFI_RECONNECT_GRACE_JITTER_MS :: u32 where "WIFI_RECONNECT_GRACE_JITTER_MS \<equiv> 20000"
abbreviation (input) WIFI_RECONNECT_HOLD_BASE_MS :: u32 where "WIFI_RECONNECT_HOLD_BASE_MS \<equiv> 30000"
abbreviation (input) WIFI_RECONNECT_HOLD_JITTER_MS :: u32 where "WIFI_RECONNECT_HOLD_JITTER_MS \<equiv> 30000"
abbreviation (input) WIFI_RECONNECT_WINDOW_MS :: u32 where "WIFI_RECONNECT_WINDOW_MS \<equiv> 8000"
abbreviation (input) WIFI_RECONNECT_REQUEST_RETRY_MS :: u32 where "WIFI_RECONNECT_REQUEST_RETRY_MS \<equiv> 5000"

definition EspNowReceivedFrame_init :: EspNowReceivedFrame where
  "EspNowReceivedFrame_init = \<lparr>rf_peer_index = 0, rf_frame = [], rf_rssi = 127, rf_channel = 0\<rparr>"

definition EspNowSendCompletion_init :: EspNowSendCompletion where
  "EspNowSendCompletion_init = \<lparr>sc_peer_index = 0, sc_succeeded = False\<rparr>"

definition radio_init :: EspIdfEspNowEncryptedRadio where
  "radio_init =
     \<lparr>nr_instance = NoInstance, nr_peers = PeerRegistry_init, nr_pmk = replicate KEY_SIZE 0,
      nr_last_channel_poll_ms = 0, nr_channel_stable_since_ms = 0, nr_last_initialization_attempt_ms = 0,
      nr_peer_refresh_last_ms = replicate PEER_CAPACITY 0, nr_peer_refresh_pending_mask = 0,
      nr_peer_refresh_attempted_mask = 0, nr_peer_refresh_success_count = 0, nr_peer_refresh_failure_count = 0,
      nr_radio_recovery_due_ms = 0, nr_radio_recovery_last_ms = 0, nr_radio_recovery_success_count = 0,
      nr_radio_recovery_failure_count = 0, nr_wifi_arbitration_due_ms = 0, nr_last_initialization_error = ESP_OK,
      nr_received_frame_count = 0, nr_dropped_frame_count = 0, nr_sent_frame_count = 0, nr_failed_send_count = 0,
      nr_dropped_completion_count = 0,
      nr_received_frames = queue_init RX_QUEUE_CAPACITY EspNowReceivedFrame_init,
      nr_send_completions = queue_init SEND_COMPLETION_QUEUE_CAPACITY EspNowSendCompletion_init,
      nr_expected_channel = 1, nr_current_channel = 0, nr_configured = False, nr_initialized = False,
      nr_channel_matches = False, nr_channel_stable = False, nr_channel_mismatch_reported = False,
      nr_wifi_association_known = False, nr_wifi_associated = False, nr_radio_recovery_pending = False,
      nr_radio_recovery_in_progress = False, nr_recovery_permitted = True,
      nr_wifi_reconnect_suppression_held = False, nr_wifi_arbitration_state = MONITORING\<rparr>"

subsection \<open>Configuration and sending\<close>

definition radio_configure :: "u8 \<Rightarrow> cstring option \<Rightarrow> EspIdfEspNowEncryptedRadio \<Rightarrow> bool \<times> EspIdfEspNowEncryptedRadio" where
  "radio_configure expected_channel pmk_hex r =
     (if nr_configured r \<or> expected_channel = 0 \<or> expected_channel > 14 then (False, r)
      else case parse_key pmk_hex (nr_pmk r) of
        (False, pmk) \<Rightarrow> (False, r\<lparr>nr_pmk := pmk\<rparr>)
      | (True, pmk) \<Rightarrow> (True, r\<lparr>nr_pmk := pmk, nr_expected_channel := expected_channel, nr_configured := True\<rparr>))"

definition radio_peer_index :: "cstring option \<Rightarrow> EspIdfEspNowEncryptedRadio \<Rightarrow> PeerIndex" where
  "radio_peer_index destination_id r = index_for_id destination_id (nr_peers r)"

definition find_peer :: "cstring option \<Rightarrow> EspIdfEspNowEncryptedRadio \<Rightarrow> PeerIdentity option" where
  "find_peer destination_id r = registry_peer (radio_peer_index destination_id r) (nr_peers r)"

definition find_peer_index_by_address :: "bytes \<Rightarrow> EspIdfEspNowEncryptedRadio \<Rightarrow> PeerIndex option" where
  "find_peer_index_by_address address r =
     (let index = index_for_address (Some address) (nr_peers r)
      in if index = INVALID_PEER_INDEX then None else Some index)"

definition known_address :: "bytes \<Rightarrow> EspIdfEspNowEncryptedRadio \<Rightarrow> bool" where
  "known_address address r \<longleftrightarrow> find_peer_index_by_address address r \<noteq> None"

definition radio_add_peer ::
    "cstring option \<Rightarrow> cstring option \<Rightarrow> cstring option \<Rightarrow> EspIdfEspNowEncryptedRadio \<Rightarrow>
     bool \<times> EspIdfEspNowEncryptedRadio" where
  "radio_add_peer destination_id address lmk_hex r =
     (if \<not> nr_configured r \<or> nr_initialized r \<or> pr_size (nr_peers r) \<ge> PEER_CAPACITY \<or>
         destination_id = None \<or> c_char (the destination_id) 0 = 0 \<or> find_peer destination_id r \<noteq> None
      then (False, r)
      else
        (let (ok1, pid) = text_assign MAX_ID_SIZE destination_id;
             (ok2, mac) = parse_address address (peer_address PeerIdentity_init);
             (ok3, lmk) = parse_key lmk_hex (peer_lmk PeerIdentity_init)
         in if \<not> ok1 \<or> \<not> ok2 \<or> \<not> ok3 \<or> known_address mac r then (False, r)
            else
              (let (added, peers) = registry_add \<lparr>peer_id = pid, peer_address = mac, peer_lmk = lmk\<rparr> (nr_peers r)
               in (added, r\<lparr>nr_peers := peers\<rparr>))))"

definition radio_send_frame ::
    "EspIdf \<Rightarrow> PeerIndex \<Rightarrow> span \<Rightarrow> EspIdfEspNowEncryptedRadio \<Rightarrow> bool \<times> EspIdfEspNowEncryptedRadio" where
  "radio_send_frame idf peer_index data r =
     (case (registry_peer peer_index (nr_peers r), data) of
        (Some selected, Some d) \<Rightarrow>
          if \<not> nr_initialized r \<or> d = [] \<or> length d > RADIO_FRAME_MAX_SIZE then (False, r)
          else if idf_send idf (peer_address selected) d \<noteq> ESP_OK
          then (False, r\<lparr>nr_failed_send_count := nr_failed_send_count r + 1\<rparr>)
          else (True, r)
      | _ \<Rightarrow> (False, r))"

definition radio_send_frame_to ::
    "EspIdf \<Rightarrow> cstring option \<Rightarrow> span \<Rightarrow> EspIdfEspNowEncryptedRadio \<Rightarrow> bool \<times> EspIdfEspNowEncryptedRadio" where
  "radio_send_frame_to idf destination_id data r = radio_send_frame idf (radio_peer_index destination_id r) data r"

definition request_peer_refresh :: "PeerIndex \<Rightarrow> EspIdfEspNowEncryptedRadio \<Rightarrow> bool \<times> EspIdfEspNowEncryptedRadio" where
  "request_peer_refresh peer_index r =
     (if unat peer_index \<ge> pr_size (nr_peers r) \<or> peer_index \<ge> 16 then (False, r)
      else (True, r\<lparr>nr_peer_refresh_pending_mask :=
              nr_peer_refresh_pending_mask r OR push_bit (unat peer_index) 1\<rparr>))"

subsection \<open>Recovery\<close>

text \<open>The FNV hash of the station address spreads the recoveries of several devices.\<close>

definition address_hash :: "u32 \<Rightarrow> bytes \<Rightarrow> u32" where
  "address_hash seed address = fold (\<lambda>value hash. (hash XOR ucast value) * 16777619) address seed"

definition recovery_jitter_ms :: "EspIdf \<Rightarrow> u32" where
  "recovery_jitter_ms idf =
     (case idf_mac idf of None \<Rightarrow> RADIO_RECOVERY_JITTER_MS div 2
      | Some address \<Rightarrow> address_hash 2166136261 address mod (RADIO_RECOVERY_JITTER_MS + 1))"

definition wifi_arbitration_jitter_ms :: "EspIdf \<Rightarrow> u32 \<Rightarrow> u32 \<Rightarrow> u32" where
  "wifi_arbitration_jitter_ms idf span_ms salt =
     (if span_ms = 0 then 0
      else case idf_mac idf of None \<Rightarrow> span_ms div 2
        | Some address \<Rightarrow> address_hash (2166136261 XOR salt) address mod (span_ms + 1))"

definition schedule_radio_recovery :: "EspIdf \<Rightarrow> u32 \<Rightarrow> EspIdfEspNowEncryptedRadio \<Rightarrow> EspIdfEspNowEncryptedRadio" where
  "schedule_radio_recovery idf now_ms r =
     (if nr_radio_recovery_pending r \<or> nr_radio_recovery_in_progress r then r
      else r\<lparr>nr_radio_recovery_due_ms := now_ms + RADIO_RECOVERY_BASE_DELAY_MS + recovery_jitter_ms idf,
             nr_radio_recovery_pending := True\<rparr>)"

definition request_radio_recovery :: "EspIdf \<Rightarrow> u32 \<Rightarrow> EspIdfEspNowEncryptedRadio \<Rightarrow> bool \<times> EspIdfEspNowEncryptedRadio" where
  "request_radio_recovery idf now_ms r =
     (if \<not> nr_configured r \<or> pr_size (nr_peers r) = 0 then (False, r)
      else (True, schedule_radio_recovery idf now_ms r))"

text \<open>\<open>while (queue.pop(x)) {}\<close>\<close>

function queue_drain :: "nat \<Rightarrow> 'a EspNowSpscQueue \<Rightarrow> 'a EspNowSpscQueue" where
  "queue_drain cap q =
     (case queue_pop cap q of (None, q1) \<Rightarrow> q1 | (Some _, q1) \<Rightarrow> queue_drain cap q1)"
  by pat_completeness auto
termination
proof (relation "measure (\<lambda>(cap, q). queue_size q)")
  fix cap :: nat and q q1 :: "'a EspNowSpscQueue" and x y
  assume "(y, q1) = queue_pop cap q" and "y = Some x"
  then have "q_head q - q_tail q \<noteq> 0" and "q1 = q\<lparr>q_tail := q_tail q + 1\<rparr>"
    by (auto simp: queue_pop_def split: if_splits)
  moreover from this have "0 < unat (q_head q - q_tail q)" using unat_gt_0 by blast
  ultimately show "((cap, q1), cap, q) \<in> measure (\<lambda>(cap, q). queue_size q)"
    by (simp add: queue_size_def unat_minus_one diff_diff_eq [symmetric])
qed simp

declare queue_drain.simps [simp del]

definition shutdown_radio :: "EspIdf \<Rightarrow> EspIdfEspNowEncryptedRadio \<Rightarrow> EspIdfEspNowEncryptedRadio" where
  "shutdown_radio idf r =
     (let result = (if nr_initialized r \<or> nr_instance r = ThisInstance then idf_deinit idf else ESP_OK);
          r1 = (if result \<noteq> ESP_OK
                then r\<lparr>nr_last_initialization_error := result,
                       nr_radio_recovery_failure_count := nr_radio_recovery_failure_count r + 1\<rparr> else r);
          r2 = (if nr_instance r1 = ThisInstance then r1\<lparr>nr_instance := NoInstance\<rparr> else r1)
      in r2\<lparr>nr_initialized := False,
            nr_received_frames := queue_drain RX_QUEUE_CAPACITY (nr_received_frames r2),
            nr_send_completions := queue_drain SEND_COMPLETION_QUEUE_CAPACITY (nr_send_completions r2)\<rparr>)"

definition process_radio_recovery :: "EspIdf \<Rightarrow> u32 \<Rightarrow> EspIdfEspNowEncryptedRadio \<Rightarrow> bool \<times> EspIdfEspNowEncryptedRadio" where
  "process_radio_recovery idf now_ms r =
     (if \<not> nr_radio_recovery_pending r \<or> \<not> nr_recovery_permitted r \<or>
         sint (now_ms - nr_radio_recovery_due_ms r) < 0 then (False, r)
      else if nr_radio_recovery_last_ms r \<noteq> 0 \<and>
              now_ms - nr_radio_recovery_last_ms r < RADIO_RECOVERY_COOLDOWN_MS then (False, r)
      else
        (let r1 = shutdown_radio idf
               (r\<lparr>nr_radio_recovery_pending := False, nr_radio_recovery_in_progress := True,
                  nr_radio_recovery_last_ms := now_ms, nr_peer_refresh_pending_mask := 0,
                  nr_peer_refresh_attempted_mask := 0\<rparr>)
         in (True, r1\<lparr>nr_channel_stable := False, nr_channel_stable_since_ms := now_ms,
                      nr_last_initialization_attempt_ms := 0\<rparr>)))"

subsection \<open>Initialization\<close>

definition rollback_initialization :: "EspIdfEspNowEncryptedRadio \<Rightarrow> EspIdfEspNowEncryptedRadio" where
  "rollback_initialization r =
     r\<lparr>nr_instance := (if nr_instance r = ThisInstance then NoInstance else nr_instance r),
       nr_initialized := False\<rparr>"

definition add_configured_peer :: "EspIdf \<Rightarrow> PeerIndex \<Rightarrow> EspIdfEspNowEncryptedRadio \<Rightarrow> bool \<times> EspIdfEspNowEncryptedRadio" where
  "add_configured_peer idf peer_index r =
     (case registry_peer peer_index (nr_peers r) of None \<Rightarrow> (False, r)
      | Some configured_peer \<Rightarrow>
          (let result = idf_add_peer idf configured_peer
           in (result = ESP_OK, r\<lparr>nr_last_initialization_error := result\<rparr>)))"

function add_all_peers :: "EspIdf \<Rightarrow> nat \<Rightarrow> EspIdfEspNowEncryptedRadio \<Rightarrow> bool \<times> EspIdfEspNowEncryptedRadio" where
  "add_all_peers idf index r =
     (if index < pr_size (nr_peers r) then
        (case add_configured_peer idf (of_nat index) r of
           (False, r1) \<Rightarrow> (False, r1)
         | (True, r1) \<Rightarrow> add_all_peers idf (Suc index) r1)
      else (True, r))"
  by pat_completeness auto
termination
  by (relation "measure (\<lambda>(idf, index, r). pr_size (nr_peers r) - index)")
    (auto simp: add_configured_peer_def Let_def split: option.splits)

declare add_all_peers.simps [simp del]

definition radio_initialize :: "EspIdf \<Rightarrow> EspIdfEspNowEncryptedRadio \<Rightarrow> bool \<times> EspIdfEspNowEncryptedRadio" where
  "radio_initialize idf r =
     (if nr_instance r = OtherInstance
      then (False, r\<lparr>nr_last_initialization_error := ESP_ERR_INVALID_STATE\<rparr>)
      else if idf_init idf \<noteq> ESP_OK then (False, r\<lparr>nr_last_initialization_error := idf_init idf\<rparr>)
      else
        (let r1 = r\<lparr>nr_instance := ThisInstance\<rparr> in
         if idf_set_pmk idf \<noteq> ESP_OK
         then (False, rollback_initialization (r1\<lparr>nr_last_initialization_error := idf_set_pmk idf\<rparr>))
         else if idf_register_recv idf \<noteq> ESP_OK
         then (False, rollback_initialization (r1\<lparr>nr_last_initialization_error := idf_register_recv idf\<rparr>))
         else if idf_register_send idf \<noteq> ESP_OK
         then (False, rollback_initialization (r1\<lparr>nr_last_initialization_error := idf_register_send idf\<rparr>))
         else case add_all_peers idf 0 (r1\<lparr>nr_last_initialization_error := ESP_OK\<rparr>) of
           (False, r2) \<Rightarrow> (False, rollback_initialization r2)
         | (True, r2) \<Rightarrow>
             (let r3 = r2\<lparr>nr_initialized := True, nr_last_initialization_error := ESP_OK\<rparr>
              in (True,
                  if nr_radio_recovery_in_progress r3
                  then r3\<lparr>nr_radio_recovery_in_progress := False,
                          nr_radio_recovery_success_count := nr_radio_recovery_success_count r3 + 1\<rparr>
                  else r3))))"

definition diagnostic_reregister_receive_callback :: "EspIdf \<Rightarrow> EspIdfEspNowEncryptedRadio \<Rightarrow> esp_err" where
  "diagnostic_reregister_receive_callback idf r =
     (if \<not> nr_initialized r \<or> nr_instance r \<noteq> ThisInstance then ESP_ERR_ESPNOW_NOT_INIT
      else idf_register_recv idf)"

definition diagnostic_reapply_peer :: "EspIdf \<Rightarrow> PeerIndex \<Rightarrow> EspIdfEspNowEncryptedRadio \<Rightarrow> esp_err" where
  "diagnostic_reapply_peer idf peer_index r =
     (if \<not> nr_initialized r \<or> nr_instance r \<noteq> ThisInstance then ESP_ERR_ESPNOW_NOT_INIT
      else case registry_peer peer_index (nr_peers r) of None \<Rightarrow> ESP_ERR_ESPNOW_ARG
        | Some configured \<Rightarrow>
            (let result = idf_get_peer idf (peer_address configured)
             in if result \<noteq> ESP_OK then result else idf_mod_peer idf configured))"


subsection \<open>Peer refresh\<close>

definition refresh_peer :: "EspIdf \<Rightarrow> PeerIndex \<Rightarrow> u32 \<Rightarrow> EspIdfEspNowEncryptedRadio \<Rightarrow> bool \<times> EspIdfEspNowEncryptedRadio" where
  "refresh_peer idf peer_index now_ms r =
     (case registry_peer peer_index (nr_peers r) of None \<Rightarrow> (False, r)
      | Some configured_peer \<Rightarrow>
          if \<not> nr_initialized r then (False, r)
          else
            (let r1 = r\<lparr>nr_peer_refresh_last_ms := (nr_peer_refresh_last_ms r)[unat peer_index := now_ms],
                        nr_peer_refresh_attempted_mask :=
                          nr_peer_refresh_attempted_mask r OR push_bit (unat peer_index) 1\<rparr>;
                 removed = idf_del_peer idf (peer_address configured_peer)
             in if removed \<noteq> ESP_OK \<and> removed \<noteq> ESP_ERR_ESPNOW_NOT_FOUND
                then (False, r1\<lparr>nr_last_initialization_error := removed\<rparr>)
                else add_configured_peer idf peer_index r1))"

definition refresh_due :: "u32 \<Rightarrow> nat \<Rightarrow> EspIdfEspNowEncryptedRadio \<Rightarrow> bool" where
  "refresh_due now_ms index r \<longleftrightarrow>
     bit (nr_peer_refresh_pending_mask r) index \<and>
     \<not> (bit (nr_peer_refresh_attempted_mask r) index \<and>
        now_ms - nr_peer_refresh_last_ms r ! index < PEER_REFRESH_COOLDOWN_MS)"

text \<open>The loop refreshes the first peer that is due and returns.\<close>

definition process_peer_refresh :: "EspIdf \<Rightarrow> u32 \<Rightarrow> EspIdfEspNowEncryptedRadio \<Rightarrow> EspIdfEspNowEncryptedRadio" where
  "process_peer_refresh idf now_ms r =
     (case List.find (\<lambda>index. refresh_due now_ms index r) [0..<pr_size (nr_peers r)] of
        None \<Rightarrow> r
      | Some index \<Rightarrow>
          (let mask = push_bit index 1 :: u16;
               r1 = r\<lparr>nr_peer_refresh_pending_mask := nr_peer_refresh_pending_mask r AND NOT mask\<rparr>
           in case refresh_peer idf (of_nat index) now_ms r1 of
                (True, r2) \<Rightarrow> r2\<lparr>nr_peer_refresh_success_count := nr_peer_refresh_success_count r2 + 1\<rparr>
              | (False, r2) \<Rightarrow>
                  r2\<lparr>nr_peer_refresh_failure_count := nr_peer_refresh_failure_count r2 + 1,
                     nr_peer_refresh_pending_mask := nr_peer_refresh_pending_mask r2 OR mask\<rparr>))"

subsection \<open>Arbitration with the Wi-Fi component\<close>

definition release_wifi_reconnect_suppression :: "EspIdfEspNowEncryptedRadio \<Rightarrow> EspIdfEspNowEncryptedRadio" where
  "release_wifi_reconnect_suppression r = r\<lparr>nr_wifi_reconnect_suppression_held := False\<rparr>"

definition schedule_wifi_arbitration_grace :: "EspIdf \<Rightarrow> u32 \<Rightarrow> EspIdfEspNowEncryptedRadio \<Rightarrow> EspIdfEspNowEncryptedRadio" where
  "schedule_wifi_arbitration_grace idf now_ms r =
     (if idf_fixed_channel idf \<and> idf_wifi_present idf
      then (release_wifi_reconnect_suppression r)\<lparr>nr_wifi_arbitration_state := MONITORING\<rparr>
      else (release_wifi_reconnect_suppression r)
             \<lparr>nr_wifi_arbitration_state := GRACE,
              nr_wifi_arbitration_due_ms := now_ms + WIFI_RECONNECT_GRACE_BASE_MS +
                wifi_arbitration_jitter_ms idf WIFI_RECONNECT_GRACE_JITTER_MS 0x47524143\<rparr>)"

definition observe_wifi_association :: "EspIdf \<Rightarrow> u32 \<Rightarrow> EspIdfEspNowEncryptedRadio \<Rightarrow> EspIdfEspNowEncryptedRadio" where
  "observe_wifi_association idf now_ms r =
     (let associated = idf_associated idf in
      if \<not> nr_wifi_association_known r then
        (let r1 = r\<lparr>nr_wifi_association_known := True, nr_wifi_associated := associated\<rparr>
         in if \<not> associated then schedule_wifi_arbitration_grace idf now_ms r1 else r1)
      else if associated = nr_wifi_associated r then r
      else
        (let r1 = r\<lparr>nr_wifi_associated := associated\<rparr>;
             r2 = (if associated
                   then (release_wifi_reconnect_suppression r1)
                          \<lparr>nr_wifi_arbitration_state := MONITORING, nr_wifi_arbitration_due_ms := 0\<rparr>
                   else schedule_wifi_arbitration_grace idf now_ms r1)
         in if idf_fixed_channel idf \<and> idf_wifi_present idf \<and> idf_wifi_fixed_operation idf then r2
            else schedule_radio_recovery idf now_ms r2))"

definition process_wifi_arbitration :: "EspIdf \<Rightarrow> u32 \<Rightarrow> EspIdfEspNowEncryptedRadio \<Rightarrow> EspIdfEspNowEncryptedRadio" where
  "process_wifi_arbitration idf now_ms r =
     (if idf_fixed_channel idf then release_wifi_reconnect_suppression r
      else if \<not> nr_wifi_association_known r \<or> nr_wifi_associated r \<or> \<not> idf_wifi_present idf then r
      else if nr_wifi_arbitration_state r = REQUESTING \<and> idf_wifi_suppression_active idf then
        r\<lparr>nr_wifi_arbitration_state := SUPPRESSED,
          nr_wifi_arbitration_due_ms := now_ms + WIFI_RECONNECT_HOLD_BASE_MS +
            wifi_arbitration_jitter_ms idf WIFI_RECONNECT_HOLD_JITTER_MS 0x484F4C44,
          nr_channel_stable := False\<rparr>
      else if sint (now_ms - nr_wifi_arbitration_due_ms r) < 0 then r
      else case nr_wifi_arbitration_state r of
        MONITORING \<Rightarrow> schedule_wifi_arbitration_grace idf now_ms r
      | REQUESTING \<Rightarrow>
          (release_wifi_reconnect_suppression r)
            \<lparr>nr_wifi_arbitration_state := RECONNECT_WINDOW,
             nr_wifi_arbitration_due_ms := now_ms + WIFI_RECONNECT_WINDOW_MS\<rparr>
      | SUPPRESSED \<Rightarrow>
          (release_wifi_reconnect_suppression r)
            \<lparr>nr_wifi_arbitration_state := RECONNECT_WINDOW,
             nr_wifi_arbitration_due_ms := now_ms + WIFI_RECONNECT_WINDOW_MS\<rparr>
      | _ \<Rightarrow>
          (if idf_wifi_request_suppression idf (nr_expected_channel r)
           then r\<lparr>nr_wifi_reconnect_suppression_held := True, nr_wifi_arbitration_state := REQUESTING,
                  nr_wifi_arbitration_due_ms := now_ms + WIFI_RECONNECT_REQUEST_RETRY_MS\<rparr>
           else r\<lparr>nr_wifi_arbitration_due_ms := now_ms + WIFI_RECONNECT_REQUEST_RETRY_MS\<rparr>))"

subsection \<open>The main loop and the callbacks\<close>

definition radio_supervise :: "EspIdf \<Rightarrow> u32 \<Rightarrow> EspIdfEspNowEncryptedRadio \<Rightarrow> EspIdfEspNowEncryptedRadio" where
  "radio_supervise idf now_ms r =
     (if now_ms - nr_channel_stable_since_ms r < CHANNEL_STABILIZATION_MS then r
      else case process_radio_recovery idf now_ms r of
        (True, r1) \<Rightarrow> r1
      | (False, r1) \<Rightarrow>
          if nr_initialized r1 then process_peer_refresh idf now_ms r1
          else if nr_last_initialization_attempt_ms r1 \<noteq> 0 \<and>
                  now_ms - nr_last_initialization_attempt_ms r1 < INITIALIZATION_RETRY_MS then r1
          else snd (radio_initialize idf (r1\<lparr>nr_last_initialization_attempt_ms := now_ms\<rparr>)))"

definition radio_loop :: "EspIdf \<Rightarrow> u32 \<Rightarrow> EspIdfEspNowEncryptedRadio \<Rightarrow> EspIdfEspNowEncryptedRadio" where
  "radio_loop idf now_ms r =
     (if \<not> nr_configured r \<or> pr_size (nr_peers r) = 0 \<or>
         now_ms - nr_last_channel_poll_ms r < CHANNEL_POLL_INTERVAL_MS then r
      else
        (let r1 = process_wifi_arbitration idf now_ms
               (observe_wifi_association idf now_ms (r\<lparr>nr_last_channel_poll_ms := now_ms\<rparr>))
         in case idf_channel idf of
              None \<Rightarrow> r1\<lparr>nr_channel_matches := False, nr_channel_stable := False\<rparr>
            | Some primary \<Rightarrow>
                (let r2 = r1\<lparr>nr_current_channel := primary, nr_channel_matches := (primary = nr_expected_channel r1)\<rparr>
                 in if \<not> nr_channel_matches r2 then
                      (let r3 = r2\<lparr>nr_channel_stable := False\<rparr>;
                           r4 = (if nr_initialized r3 then schedule_radio_recovery idf now_ms r3 else r3)
                       in r4\<lparr>nr_channel_mismatch_reported := True\<rparr>)
                    else
                      (let r3 = r2\<lparr>nr_channel_mismatch_reported := False\<rparr>
                       in if \<not> nr_channel_stable r3
                          then r3\<lparr>nr_channel_stable := True, nr_channel_stable_since_ms := now_ms\<rparr>
                          else radio_supervise idf now_ms r3))))"

definition set_recovery_permitted :: "bool \<Rightarrow> EspIdfEspNowEncryptedRadio \<Rightarrow> EspIdfEspNowEncryptedRadio" where
  "set_recovery_permitted permitted r = r\<lparr>nr_recovery_permitted := permitted\<rparr>"

definition take_received_frame ::
    "EspIdfEspNowEncryptedRadio \<Rightarrow> EspNowReceivedFrame option \<times> EspIdfEspNowEncryptedRadio" where
  "take_received_frame r =
     (let (frame, q) = queue_pop RX_QUEUE_CAPACITY (nr_received_frames r) in (frame, r\<lparr>nr_received_frames := q\<rparr>))"

definition take_send_completion ::
    "EspIdfEspNowEncryptedRadio \<Rightarrow> EspNowSendCompletion option \<times> EspIdfEspNowEncryptedRadio" where
  "take_send_completion r =
     (let (completion, q) = queue_pop SEND_COMPLETION_QUEUE_CAPACITY (nr_send_completions r)
      in (completion, r\<lparr>nr_send_completions := q\<rparr>))"

text \<open>\<open>receive_callback_\<close>; \<open>info\<close> is the source address with the optional radio metadata
  (signal strength and channel).\<close>

definition receive_callback ::
    "(bytes \<times> (8 word \<times> u8) option) option \<Rightarrow> span \<Rightarrow> int \<Rightarrow> EspIdfEspNowEncryptedRadio \<Rightarrow> EspIdfEspNowEncryptedRadio" where
  "receive_callback info data data_len r =
     (let dropped = r\<lparr>nr_dropped_frame_count := nr_dropped_frame_count r + 1\<rparr> in
      if nr_instance r \<noteq> ThisInstance then r
      else case (info, data) of
        (Some (src_addr, rx_ctrl), Some d) \<Rightarrow>
          if data_len \<le> 0 \<or> data_len > 250 then dropped
          else (case find_peer_index_by_address src_addr r of None \<Rightarrow> dropped
            | Some peer_index \<Rightarrow>
                (case bytes_assign RADIO_FRAME_MAX_SIZE (Some d) (nat data_len) of (False, _) \<Rightarrow> dropped
                 | (True, frame) \<Rightarrow>
                     (let received = \<lparr>rf_peer_index = peer_index, rf_frame = frame,
                            rf_rssi = (case rx_ctrl of None \<Rightarrow> 127 | Some (rssi, _) \<Rightarrow> rssi),
                            rf_channel = (case rx_ctrl of None \<Rightarrow> 0 | Some (_, channel) \<Rightarrow> channel)\<rparr>
                      in case queue_push RX_QUEUE_CAPACITY received (nr_received_frames r) of
                           (False, _) \<Rightarrow> dropped
                         | (True, q) \<Rightarrow>
                             r\<lparr>nr_received_frames := q, nr_received_frame_count := nr_received_frame_count r + 1\<rparr>)))
      | _ \<Rightarrow> dropped)"

definition send_callback :: "bytes option \<Rightarrow> bool \<Rightarrow> EspIdfEspNowEncryptedRadio \<Rightarrow> EspIdfEspNowEncryptedRadio" where
  "send_callback des_addr succeeded r =
     (if nr_instance r \<noteq> ThisInstance then r
      else case des_addr of None \<Rightarrow> r
        | Some address \<Rightarrow>
            (let r1 = (case find_peer_index_by_address address r of None \<Rightarrow> r
                   | Some peer_index \<Rightarrow>
                       (case queue_push SEND_COMPLETION_QUEUE_CAPACITY
                               \<lparr>sc_peer_index = peer_index, sc_succeeded = succeeded\<rparr> (nr_send_completions r) of
                          (False, _) \<Rightarrow> r\<lparr>nr_dropped_completion_count := nr_dropped_completion_count r + 1\<rparr>
                        | (True, q) \<Rightarrow> r\<lparr>nr_send_completions := q\<rparr>))
             in if succeeded then r1\<lparr>nr_sent_frame_count := nr_sent_frame_count r1 + 1\<rparr>
                else r1\<lparr>nr_failed_send_count := nr_failed_send_count r1 + 1\<rparr>))"


subsection \<open>The invariant\<close>

datatype radio_event =
    NConfigure u8 "cstring option" | NAddPeer "cstring option" "cstring option" "cstring option"
  | NLoop EspIdf u32 | NSend EspIdf PeerIndex span | NSendTo EspIdf "cstring option" span | NRefresh PeerIndex | NRecovery EspIdf u32
  | NPermit bool | NTakeFrame | NTakeCompletion
  | NReceived "(bytes \<times> (8 word \<times> u8) option) option" span int | NSent "bytes option" bool

fun radio_step :: "radio_event \<Rightarrow> EspIdfEspNowEncryptedRadio \<Rightarrow> EspIdfEspNowEncryptedRadio" where
  "radio_step (NConfigure c k) r = snd (radio_configure c k r)"
| "radio_step (NAddPeer d a k) r = snd (radio_add_peer d a k r)"
| "radio_step (NLoop idf now) r = radio_loop idf now r"
| "radio_step (NSend idf p d) r = snd (radio_send_frame idf p d r)"
| "radio_step (NSendTo idf d b) r = snd (radio_send_frame_to idf d b r)"
| "radio_step (NRefresh p) r = snd (request_peer_refresh p r)"
| "radio_step (NRecovery idf now) r = snd (request_radio_recovery idf now r)"
| "radio_step (NPermit b) r = set_recovery_permitted b r"
| "radio_step NTakeFrame r = snd (take_received_frame r)"
| "radio_step NTakeCompletion r = snd (take_send_completion r)"
| "radio_step (NReceived i d n) r = receive_callback i d n r"
| "radio_step (NSent a ok) r = send_callback a ok r"

text \<open>The parts of the state that the supervision changes.\<close>

definition supervision_ok :: "EspIdfEspNowEncryptedRadio \<Rightarrow> bool" where
  "supervision_ok r \<longleftrightarrow>
     (nr_initialized r \<longrightarrow>
        nr_configured r \<and> nr_instance r = ThisInstance \<and> \<not> nr_radio_recovery_in_progress r) \<and>
     \<not> (nr_radio_recovery_pending r \<and> nr_radio_recovery_in_progress r) \<and>
     (nr_wifi_reconnect_suppression_held r \<longrightarrow>
        nr_wifi_arbitration_state r \<in> {REQUESTING, SUPPRESSED} \<and>
        nr_wifi_association_known r \<and> \<not> nr_wifi_associated r)"

text \<open>The parts that the configuration and the callbacks fill. The slots are constrained, not the
  queued values, so that the statement survives the wrap of the queue's counters.\<close>

definition queues_ok :: "EspIdfEspNowEncryptedRadio \<Rightarrow> bool" where
  "queues_ok r \<longleftrightarrow>
     registry_wf (nr_peers r) \<and>
     length (q_entries (nr_received_frames r)) = RX_QUEUE_CAPACITY \<and>
     (\<forall>f\<in>set (q_entries (nr_received_frames r)). rf_peer_index f < 16 \<and> length (rf_frame f) \<le> RADIO_FRAME_MAX_SIZE) \<and>
     length (q_entries (nr_send_completions r)) = SEND_COMPLETION_QUEUE_CAPACITY \<and>
     (\<forall>c\<in>set (q_entries (nr_send_completions r)). sc_peer_index c < 16)"

definition radio_inv :: "EspIdfEspNowEncryptedRadio \<Rightarrow> bool" where
  "radio_inv r \<longleftrightarrow> supervision_ok r \<and> queues_ok r"

text \<open>A platform on which every ESP-NOW call succeeds, the station is associated and the channel
  is the configured one.\<close>

definition healthy :: "EspIdf \<Rightarrow> EspIdfEspNowEncryptedRadio \<Rightarrow> bool" where
  "healthy idf r \<longleftrightarrow>
     idf_init idf = ESP_OK \<and> idf_set_pmk idf = ESP_OK \<and> idf_register_recv idf = ESP_OK \<and>
     idf_register_send idf = ESP_OK \<and> (\<forall>p. idf_add_peer idf p = ESP_OK) \<and> idf_associated idf \<and>
     idf_channel idf = Some (nr_expected_channel r)"

definition example_idf :: EspIdf where
  "example_idf =
     \<lparr>idf_channel = Some 6, idf_associated = True, idf_mac = None, idf_init = ESP_OK, idf_set_pmk = ESP_OK,
      idf_register_recv = ESP_OK, idf_register_send = ESP_OK, idf_add_peer = \<lambda>_. ESP_OK,
      idf_del_peer = \<lambda>_. ESP_OK, idf_get_peer = \<lambda>_. ESP_OK, idf_mod_peer = \<lambda>_. ESP_OK, idf_deinit = ESP_OK,
      idf_send = \<lambda>_ _. ESP_OK, idf_fixed_channel = False, idf_wifi_present = True,
      idf_wifi_fixed_operation = False, idf_wifi_suppression_active = False,
      idf_wifi_request_suppression = \<lambda>_. False\<rparr>"

text \<open>A configured radio with one peer, on channel 6 since power-on, that is due for recovery.\<close>

definition example_radio :: EspIdfEspNowEncryptedRadio where
  "example_radio =
     radio_init\<lparr>nr_peers := snd (registry_add \<lparr>peer_id = [65], peer_address = [1, 2, 3, 4, 5, 6],
                  peer_lmk = replicate 16 7\<rparr> PeerRegistry_init),
       nr_configured := True, nr_expected_channel := 6, nr_channel_stable := True,
       nr_wifi_association_known := True, nr_wifi_associated := True, nr_radio_recovery_pending := True\<rparr>"

lemma queue_drain_eq: "queue_drain cap q = q\<lparr>q_tail := q_head q\<rparr>"
proof (induction cap q rule: queue_drain.induct)
  case (1 cap q)
  then show ?case
    by (subst queue_drain.simps) (auto simp: queue_pop_def split: if_splits)
qed

lemma queue_push_entries:
  "queue_push cap v q = (True, q') \<Longrightarrow> length (q_entries q') = length (q_entries q) \<and>
     set (q_entries q') \<subseteq> insert v (set (q_entries q))"
  using set_update_subset_insert by (fastforce simp: queue_push_def split: if_splits)

lemma queue_pop_entries: "queue_pop cap q = (v, q') \<Longrightarrow> q_entries q' = q_entries q"
  by (auto simp: queue_pop_def split: if_splits)

lemma queue_pop_in: "queue_pop cap q = (Some v, q') \<Longrightarrow> length (q_entries q) = cap \<Longrightarrow> 0 < cap \<Longrightarrow> v \<in> set (q_entries q)"
  by (auto simp: queue_pop_def split: if_splits)

lemma queues_ok_cong:
  "nr_peers r' = nr_peers r \<Longrightarrow> nr_received_frames r' = nr_received_frames r \<Longrightarrow>
     nr_send_completions r' = nr_send_completions r \<Longrightarrow> queues_ok r' = queues_ok r"
  by (simp add: queues_ok_def)

lemma radio_init_inv: "radio_inv radio_init"
  by (simp add: radio_inv_def supervision_ok_def queues_ok_def radio_init_def queue_init_def registry_wf_init
      EspNowReceivedFrame_init_def EspNowSendCompletion_init_def)

lemma scan_peers_bound:
  "pr_size r \<le> 16 \<Longrightarrow> scan_peers hit r i \<noteq> INVALID_PEER_INDEX \<Longrightarrow> scan_peers hit r i < 16"
proof (induction hit r i rule: scan_peers.induct)
  case (1 hit r i)
  then show ?case
    by (cases "i < pr_size r") (auto simp: scan_peers.simps [of hit r i] word_less_nat_alt)
qed

lemma find_address_bound: "queues_ok r \<Longrightarrow> find_peer_index_by_address a r = Some i \<Longrightarrow> i < 16"
  using scan_peers_bound by (auto simp: find_peer_index_by_address_def index_for_address_def queues_ok_def
      registry_wf_def Let_def split: if_splits)

lemma supervision_unaffected [simp]:
  "supervision_ok (r\<lparr>nr_last_initialization_error := e\<rparr>) = supervision_ok r"
  "supervision_ok (r\<lparr>nr_peer_refresh_last_ms := l\<rparr>) = supervision_ok r"
  "supervision_ok (r\<lparr>nr_peer_refresh_attempted_mask := m\<rparr>) = supervision_ok r"
  "supervision_ok (r\<lparr>nr_peer_refresh_pending_mask := m\<rparr>) = supervision_ok r"
  by (simp_all add: supervision_ok_def)

text \<open>What each operation leaves alone.\<close>

lemma schedule_radio_recovery_same [simp]:
  "nr_peers (schedule_radio_recovery idf now r) = nr_peers r"
  "nr_received_frames (schedule_radio_recovery idf now r) = nr_received_frames r"
  "nr_send_completions (schedule_radio_recovery idf now r) = nr_send_completions r"
  "nr_configured (schedule_radio_recovery idf now r) = nr_configured r"
  "nr_initialized (schedule_radio_recovery idf now r) = nr_initialized r"
  by (simp_all add: schedule_radio_recovery_def)

lemma error_same: "\<exists>e. r = r\<lparr>nr_last_initialization_error := e\<rparr>"
  by (rule exI [of _ "nr_last_initialization_error r"]) simp

lemma add_configured_peer_same:
  assumes "add_configured_peer idf i r = (ok, r')"
  shows "\<exists>e. r' = r\<lparr>nr_last_initialization_error := e\<rparr>"
proof (cases "registry_peer i (nr_peers r)")
  case None
  with assms have "r' = r" by (simp add: add_configured_peer_def)
  then show ?thesis using error_same by simp
next
  case (Some p)
  with assms have "r' = r\<lparr>nr_last_initialization_error := idf_add_peer idf p\<rparr>"
    by (auto simp: add_configured_peer_def Let_def)
  then show ?thesis by blast
qed

lemma add_all_peers_same:
  "add_all_peers idf i r = (ok, r') \<Longrightarrow> \<exists>e. r' = r\<lparr>nr_last_initialization_error := e\<rparr>"
proof (induction idf i r arbitrary: r' rule: add_all_peers.induct)
  case (1 idf i r)
  obtain ok1 r1 where r1: "add_configured_peer idf (of_nat i) r = (ok1, r1)" by fastforce
  then obtain e1 where e1: "r1 = r\<lparr>nr_last_initialization_error := e1\<rparr>"
    using add_configured_peer_same by blast
  show ?case
  proof (cases "i < pr_size (nr_peers r)")
    case False
    with 1(2) have "r' = r" by (simp add: add_all_peers.simps [of idf i r])
    then show ?thesis using error_same by simp
  next
    case True
    show ?thesis
    proof (cases ok1)
      case False
      with 1(2) True r1 have "r' = r1" by (simp add: add_all_peers.simps [of idf i r])
      with e1 show ?thesis by blast
    next
      case ok: True
      with 1(2) True r1 have "add_all_peers idf (Suc i) r1 = (ok, r')"
        by (simp add: add_all_peers.simps [of idf i r])
      with 1(1) [OF True r1 [symmetric]] ok e1 show ?thesis by auto
    qed
  qed
qed


lemma refresh_peer_same:
  assumes "refresh_peer idf i now r = (ok, r')"
  shows "nr_peers r' = nr_peers r \<and> nr_received_frames r' = nr_received_frames r \<and>
    nr_send_completions r' = nr_send_completions r \<and> supervision_ok r' = supervision_ok r"
proof (cases "registry_peer i (nr_peers r)")
  case None
  with assms show ?thesis by (simp add: refresh_peer_def)
next
  case (Some p)
  with assms show ?thesis
    by (auto simp: refresh_peer_def Let_def split: if_splits dest!: add_configured_peer_same)
qed

lemma process_peer_refresh_inv: "radio_inv r \<Longrightarrow> radio_inv (process_peer_refresh idf now r)"
proof (cases "List.find (\<lambda>index. refresh_due now index r) [0..<pr_size (nr_peers r)]")
  case (Some i)
  assume inv: "radio_inv r"
  define r1 where "r1 = r\<lparr>nr_peer_refresh_pending_mask := nr_peer_refresh_pending_mask r AND NOT (push_bit i 1)\<rparr>"
  obtain ok r2 where r2: "refresh_peer idf (of_nat i) now r1 = (ok, r2)" by fastforce
  have "radio_inv r1"
    using inv queues_ok_cong [of r1 r] by (simp add: radio_inv_def r1_def)
  then have "radio_inv r2"
    using refresh_peer_same [OF r2] queues_ok_cong [of r2 r1] by (simp add: radio_inv_def)
  then show ?thesis
    using r2 unfolding r1_def
    by (cases ok) (simp_all add: process_peer_refresh_def Some Let_def radio_inv_def supervision_ok_def queues_ok_def)
qed (simp add: process_peer_refresh_def)

lemma shutdown_supervision:
  "supervision_ok (shutdown_radio idf r) = supervision_ok (r\<lparr>nr_initialized := False\<rparr>)"
  by (auto simp: shutdown_radio_def supervision_ok_def Let_def)

lemma shutdown_queues: "queues_ok (shutdown_radio idf r) = queues_ok r"
  by (auto simp: shutdown_radio_def queues_ok_def Let_def queue_drain_eq)

lemma process_radio_recovery_inv:
  assumes "radio_inv r" and "process_radio_recovery idf now r = (ok, r')"
  shows "radio_inv r'"
proof (cases "ok")
  case False
  with assms show ?thesis by (auto simp: process_radio_recovery_def Let_def split: if_splits)
next
  case True
  define r1 where "r1 = r\<lparr>nr_radio_recovery_pending := False, nr_radio_recovery_in_progress := True,
    nr_radio_recovery_last_ms := now, nr_peer_refresh_pending_mask := 0, nr_peer_refresh_attempted_mask := 0\<rparr>"
  have r': "r' = (shutdown_radio idf r1)\<lparr>nr_channel_stable := False, nr_channel_stable_since_ms := now,
      nr_last_initialization_attempt_ms := 0\<rparr>"
    using assms(2) True by (auto simp: process_radio_recovery_def Let_def r1_def split: if_splits)
  have "supervision_ok (shutdown_radio idf r1)"
    unfolding shutdown_supervision using assms(1) by (auto simp: radio_inv_def supervision_ok_def r1_def)
  moreover have "queues_ok (shutdown_radio idf r1)"
    unfolding shutdown_queues using assms(1) by (auto simp: radio_inv_def queues_ok_def r1_def)
  ultimately show ?thesis by (simp add: r' radio_inv_def supervision_ok_def queues_ok_def)
qed

lemma radio_initialize_inv:
  assumes "radio_inv r" and "nr_configured r" and "\<not> nr_initialized r"
  shows "radio_inv (snd (radio_initialize idf r))"
proof -
  obtain ok r2 where r2: "add_all_peers idf 0 (r\<lparr>nr_instance := ThisInstance, nr_last_initialization_error := ESP_OK\<rparr>) = (ok, r2)"
    by fastforce
  obtain e where e: "r2 = r\<lparr>nr_instance := ThisInstance, nr_last_initialization_error := e\<rparr>"
    using add_all_peers_same [OF r2] by auto
  show ?thesis
    using assms r2 unfolding e
    by (cases ok) (auto simp: radio_initialize_def Let_def rollback_initialization_def radio_inv_def
        supervision_ok_def queues_ok_def)
qed


lemma schedule_radio_recovery_inv: "radio_inv r \<Longrightarrow> radio_inv (schedule_radio_recovery idf now r)"
  by (auto simp: radio_inv_def supervision_ok_def queues_ok_def schedule_radio_recovery_def)

lemma schedule_grace_inv: "radio_inv r \<Longrightarrow> radio_inv (schedule_wifi_arbitration_grace idf now r)"
  by (auto simp: radio_inv_def supervision_ok_def queues_ok_def schedule_wifi_arbitration_grace_def
      release_wifi_reconnect_suppression_def)

lemma schedule_grace_forgets:
  "radio_inv (r\<lparr>nr_wifi_reconnect_suppression_held := False\<rparr>) \<Longrightarrow> radio_inv (schedule_wifi_arbitration_grace idf now r)"
  by (auto simp: radio_inv_def supervision_ok_def queues_ok_def schedule_wifi_arbitration_grace_def
      release_wifi_reconnect_suppression_def)

lemma observe_inv: "radio_inv r \<Longrightarrow> radio_inv (observe_wifi_association idf now r)"
proof -
  assume inv: "radio_inv r"
  then have "radio_inv (r\<lparr>nr_wifi_association_known := True, nr_wifi_associated := a,
      nr_wifi_reconnect_suppression_held := False\<rparr>)"
    and "radio_inv (r\<lparr>nr_wifi_associated := a, nr_wifi_reconnect_suppression_held := False\<rparr>)"
    and "radio_inv ((release_wifi_reconnect_suppression (r\<lparr>nr_wifi_associated := True\<rparr>))
      \<lparr>nr_wifi_arbitration_state := MONITORING, nr_wifi_arbitration_due_ms := 0\<rparr>)"
    and "\<not> nr_wifi_association_known r \<Longrightarrow> radio_inv (r\<lparr>nr_wifi_association_known := True, nr_wifi_associated := True\<rparr>)" for a
    by (auto simp: radio_inv_def supervision_ok_def queues_ok_def release_wifi_reconnect_suppression_def)
  with inv show ?thesis
    by (auto simp: observe_wifi_association_def Let_def intro!: schedule_radio_recovery_inv schedule_grace_forgets)
qed

lemma arbitration_inv: "radio_inv r \<Longrightarrow> radio_inv (process_wifi_arbitration idf now r)"
proof -
  assume inv: "radio_inv r"
  then have "radio_inv (r\<lparr>nr_wifi_reconnect_suppression_held := True, nr_wifi_arbitration_state := REQUESTING,
      nr_wifi_arbitration_due_ms := t\<rparr>)" if "nr_wifi_association_known r" "\<not> nr_wifi_associated r" for t
    using that by (simp add: radio_inv_def supervision_ok_def queues_ok_def)
  moreover from inv have "radio_inv (release_wifi_reconnect_suppression r)"
    and "radio_inv (r\<lparr>nr_wifi_arbitration_due_ms := t\<rparr>)"
    and "radio_inv ((release_wifi_reconnect_suppression r)\<lparr>nr_wifi_arbitration_state := RECONNECT_WINDOW,
      nr_wifi_arbitration_due_ms := t\<rparr>)"
    and "radio_inv (r\<lparr>nr_wifi_arbitration_state := SUPPRESSED, nr_wifi_arbitration_due_ms := t, nr_channel_stable := False\<rparr>)"
    for t
    by (auto simp: radio_inv_def supervision_ok_def queues_ok_def release_wifi_reconnect_suppression_def)
  ultimately show ?thesis
    using inv schedule_grace_inv [OF inv]
    by (cases "nr_wifi_arbitration_state r") (auto simp: process_wifi_arbitration_def)
qed

lemma supervise_inv:
  assumes "radio_inv r" and "nr_configured r"
  shows "radio_inv (radio_supervise idf now r)"
proof -
  obtain ok r1 where r1: "process_radio_recovery idf now r = (ok, r1)" by fastforce
  have "radio_inv r1" using process_radio_recovery_inv [OF assms(1) r1] .
  moreover have "nr_configured r1"
    using assms(2) r1 by (auto simp: process_radio_recovery_def shutdown_radio_def Let_def split: if_splits)
  moreover have "radio_inv (r1\<lparr>nr_last_initialization_attempt_ms := now\<rparr>)"
    using \<open>radio_inv r1\<close> by (simp add: radio_inv_def supervision_ok_def queues_ok_def)
  ultimately show ?thesis
    using assms r1 process_peer_refresh_inv radio_initialize_inv
    by (cases ok) (auto simp: radio_supervise_def)
qed

lemma arbitration_configured [simp]:
  "nr_configured (process_wifi_arbitration idf now r) = nr_configured r"
  "nr_configured (observe_wifi_association idf now r) = nr_configured r"
  by (auto simp: process_wifi_arbitration_def observe_wifi_association_def schedule_wifi_arbitration_grace_def
      release_wifi_reconnect_suppression_def Let_def split: WiFiArbitrationState.splits)

lemma channel_fields_inv [simp]:
  "radio_inv (r\<lparr>nr_last_channel_poll_ms := t\<rparr>) = radio_inv r"
  "radio_inv (r\<lparr>nr_channel_matches := m\<rparr>) = radio_inv r"
  "radio_inv (r\<lparr>nr_channel_stable := s\<rparr>) = radio_inv r"
  "radio_inv (r\<lparr>nr_channel_stable_since_ms := t\<rparr>) = radio_inv r"
  "radio_inv (r\<lparr>nr_current_channel := c\<rparr>) = radio_inv r"
  "radio_inv (r\<lparr>nr_channel_mismatch_reported := s\<rparr>) = radio_inv r"
  by (simp_all add: radio_inv_def supervision_ok_def queues_ok_def)

lemma radio_loop_inv:
  assumes "radio_inv r"
  shows "radio_inv (radio_loop idf now r)"
proof (cases "nr_configured r")
  case True
  define r1 where "r1 = process_wifi_arbitration idf now
    (observe_wifi_association idf now (r\<lparr>nr_last_channel_poll_ms := now\<rparr>))"
  have r1: "radio_inv r1" "nr_configured r1"
    using assms True by (simp_all add: r1_def arbitration_inv observe_inv)
  then show ?thesis
    using assms supervise_inv schedule_radio_recovery_inv
    by (auto simp: radio_loop_def r1_def [symmetric] Let_def split: option.splits)
qed (use assms in \<open>simp add: radio_loop_def\<close>)


lemma radio_configure_inv: "radio_inv r \<Longrightarrow> radio_inv (snd (radio_configure c k r))"
  by (auto simp: radio_configure_def radio_inv_def supervision_ok_def queues_ok_def split: prod.splits bool.splits)

lemma radio_add_peer_inv:
  assumes "radio_inv r"
  shows "radio_inv (snd (radio_add_peer d a k r))"
proof -
  obtain ok1 pid where t: "text_assign MAX_ID_SIZE d = (ok1, pid)" by fastforce
  obtain ok2 mac where m: "parse_address a (peer_address PeerIdentity_init) = (ok2, mac)" by fastforce
  obtain ok3 lmk where l: "parse_key k (peer_lmk PeerIdentity_init) = (ok3, lmk)" by fastforce
  have "PeerIdentity_wf \<lparr>peer_id = pid, peer_address = mac, peer_lmk = lmk\<rparr>"
    using text_assign_ok [OF t] arg_cong [OF m, of "length o snd"] arg_cong [OF l, of "length o snd"]
    by (simp add: PeerIdentity_wf_def PeerIdentity_init_def)
  then have "queues_ok (r\<lparr>nr_peers := snd (registry_add \<lparr>peer_id = pid, peer_address = mac, peer_lmk = lmk\<rparr> (nr_peers r))\<rparr>)"
    using assms registry_wf_add by (simp add: radio_inv_def queues_ok_def)
  then show ?thesis
    using assms t m l by (auto simp: radio_add_peer_def Let_def radio_inv_def supervision_ok_def split: prod.splits)
qed

lemma receive_callback_inv:
  assumes "radio_inv r"
  shows "radio_inv (receive_callback i d n r)"
proof -
  have drop: "radio_inv (r\<lparr>nr_dropped_frame_count := c\<rparr>)" for c
    using assms by (simp add: radio_inv_def supervision_ok_def queues_ok_def)
  have "radio_inv (r\<lparr>nr_received_frames := q, nr_received_frame_count := c\<rparr>)"
    if "queue_push RX_QUEUE_CAPACITY f (nr_received_frames r) = (True, q)" "rf_peer_index f < 16"
      "length (rf_frame f) \<le> 250" for q c f
    using assms that(2,3) queue_push_entries [OF that(1)]
    by (auto simp: radio_inv_def supervision_ok_def queues_ok_def)
  then show ?thesis
    using assms drop find_address_bound bytes_assign_bound
    by (auto simp: receive_callback_def Let_def radio_inv_def split: option.splits prod.splits bool.splits)
qed

lemma send_callback_inv:
  assumes "radio_inv r"
  shows "radio_inv (send_callback a ok r)"
proof -
  have "radio_inv (r\<lparr>nr_send_completions := q\<rparr>)"
    if "queue_push SEND_COMPLETION_QUEUE_CAPACITY f (nr_send_completions r) = (True, q)" "sc_peer_index f < 16" for q f
    using assms that(2) queue_push_entries [OF that(1)]
    by (auto simp: radio_inv_def supervision_ok_def queues_ok_def)
  moreover have "radio_inv (s\<lparr>nr_sent_frame_count := c\<rparr>) = radio_inv s" "radio_inv (s\<lparr>nr_failed_send_count := c\<rparr>) = radio_inv s"
    "radio_inv (s\<lparr>nr_dropped_completion_count := c\<rparr>) = radio_inv s" for s c
    by (simp_all add: radio_inv_def supervision_ok_def queues_ok_def)
  ultimately show ?thesis
    using assms find_address_bound
    by (auto simp: send_callback_def Let_def split: option.splits prod.splits bool.splits) (auto simp: radio_inv_def)
qed

lemma take_received_frame_inv:
  assumes "radio_inv r" and "take_received_frame r = (f, r')"
  shows "radio_inv r' \<and> (\<forall>x. f = Some x \<longrightarrow> rf_peer_index x < 16 \<and> length (rf_frame x) \<le> RADIO_FRAME_MAX_SIZE)"
proof -
  obtain q where pop: "queue_pop 3 (nr_received_frames r) = (f, q)" and r': "r' = r\<lparr>nr_received_frames := q\<rparr>"
    using assms(2) by (auto simp: take_received_frame_def split: prod.splits)
  have "x \<in> set (q_entries (nr_received_frames r))" if "f = Some x" for x
    using queue_pop_in pop that assms(1) by (fastforce simp: radio_inv_def queues_ok_def)
  then show ?thesis
    using assms(1) queue_pop_entries [OF pop] by (auto simp: r' radio_inv_def supervision_ok_def queues_ok_def)
qed

lemma take_send_completion_inv:
  assumes "radio_inv r" and "take_send_completion r = (c, r')"
  shows "radio_inv r' \<and> (\<forall>x. c = Some x \<longrightarrow> sc_peer_index x < 16)"
proof -
  obtain q where pop: "queue_pop 4 (nr_send_completions r) = (c, q)" and r': "r' = r\<lparr>nr_send_completions := q\<rparr>"
    using assms(2) by (auto simp: take_send_completion_def split: prod.splits)
  have "x \<in> set (q_entries (nr_send_completions r))" if "c = Some x" for x
    using queue_pop_in pop that assms(1) by (fastforce simp: radio_inv_def queues_ok_def)
  then show ?thesis
    using assms(1) queue_pop_entries [OF pop] by (auto simp: r' radio_inv_def supervision_ok_def queues_ok_def)
qed

lemma small_requests_inv:
  assumes "radio_inv r"
  shows "radio_inv (snd (radio_send_frame idf p d r))" and "radio_inv (snd (request_peer_refresh p r))"
    and "radio_inv (snd (request_radio_recovery idf now r))" and "radio_inv (set_recovery_permitted b r)"
  using assms schedule_radio_recovery_inv [OF assms]
  by (auto simp: radio_send_frame_def request_peer_refresh_def request_radio_recovery_def set_recovery_permitted_def
      radio_inv_def supervision_ok_def queues_ok_def split: option.splits)

interpretation radio_machine: invariant_machine radio_init radio_step radio_inv
proof (unfold_locales, goal_cases)
  case 1
  show ?case by (rule radio_init_inv)
next
  case (2 r e)
  then show ?case
    by (cases e) (auto simp: radio_send_frame_to_def radio_configure_inv radio_add_peer_inv radio_loop_inv small_requests_inv
        receive_callback_inv send_callback_inv take_received_frame_inv [OF _ prod.collapse [symmetric]]
        take_send_completion_inv [OF _ prod.collapse [symmetric]])
qed


subsection \<open>Recovery\<close>

lemma word_mod_le: "0 < n \<Longrightarrow> (x :: u32) mod (n + 1) \<le> n" if "n \<noteq> - 1"
proof -
  have "n + 1 \<noteq> 0" using that by (simp add: eq_neg_iff_add_eq_0)
  then have "x mod (n + 1) < n + 1" by (simp add: word_mod_less_divisor word_neq_0_conv)
  then show "x mod (n + 1) \<le> n" by (simp add: word_less_nat_alt word_le_nat_alt unat_plus_one [OF that])
qed

lemma recovery_jitter_bound: "recovery_jitter_ms idf \<le> 7000"
  using word_mod_le [of 7000] by (auto simp: recovery_jitter_ms_def split: option.splits)

lemma recovery_delay_bounds:
  assumes "\<not> nr_radio_recovery_pending r" and "\<not> nr_radio_recovery_in_progress r"
  shows "3000 \<le> nr_radio_recovery_due_ms (schedule_radio_recovery idf now r) - now"
    and "nr_radio_recovery_due_ms (schedule_radio_recovery idf now r) - now \<le> 10000"
proof -
  have eq: "nr_radio_recovery_due_ms (schedule_radio_recovery idf now r) - now = 3000 + recovery_jitter_ms idf"
    using assms by (simp add: schedule_radio_recovery_def)
  have "unat (recovery_jitter_ms idf) \<le> 7000" using recovery_jitter_bound [of idf] by (simp add: word_le_nat_alt)
  then have "unat (3000 + recovery_jitter_ms idf) = 3000 + unat (recovery_jitter_ms idf)"
    by (simp add: unat_word_ariths)
  then show "3000 \<le> nr_radio_recovery_due_ms (schedule_radio_recovery idf now r) - now"
    "nr_radio_recovery_due_ms (schedule_radio_recovery idf now r) - now \<le> 10000"
    using \<open>unat (recovery_jitter_ms idf) \<le> 7000\<close> unfolding eq by (simp_all add: word_le_nat_alt)
qed

lemma add_all_peers_healthy:
  assumes "\<forall>p. idf_add_peer idf p = ESP_OK"
  shows "pr_size (nr_peers r) \<le> 16 \<Longrightarrow> fst (add_all_peers idf i r)"
  using assms
proof (induction idf i r rule: add_all_peers.induct)
  case (1 idf i r)
  show ?case
  proof (cases "i < pr_size (nr_peers r)")
    case True
    then have "unat (of_nat i :: PeerIndex) = i" using 1(2) by simp
    with True 1(3) have add: "add_configured_peer idf (of_nat i) r = (True, r\<lparr>nr_last_initialization_error := ESP_OK\<rparr>)"
      by (simp add: add_configured_peer_def registry_peer_def)
    from 1(1) [OF True add [symmetric] refl] 1(2,3) show ?thesis
      by (simp add: add_all_peers.simps [of idf i r] True add)
  qed (simp add: add_all_peers.simps [of idf i r])
qed

lemma initialize_healthy:
  assumes "healthy idf r" and "nr_instance r \<noteq> OtherInstance" and "pr_size (nr_peers r) \<le> 16"
    and "nr_radio_recovery_in_progress r"
  shows "nr_initialized (snd (radio_initialize idf r)) \<and> \<not> nr_radio_recovery_in_progress (snd (radio_initialize idf r)) \<and>
    nr_radio_recovery_success_count (snd (radio_initialize idf r)) = nr_radio_recovery_success_count r + 1"
proof -
  let ?r1 = "r\<lparr>nr_instance := ThisInstance, nr_last_initialization_error := ESP_OK\<rparr>"
  obtain r2 where r2: "add_all_peers idf 0 ?r1 = (True, r2)"
    using add_all_peers_healthy [of idf ?r1 0] assms(1,3) by (cases "add_all_peers idf 0 ?r1") (auto simp: healthy_def)
  obtain e where "r2 = r\<lparr>nr_instance := ThisInstance, nr_last_initialization_error := e\<rparr>"
    using add_all_peers_same [OF r2] by auto
  then show ?thesis using assms r2 by (simp add: radio_initialize_def healthy_def)
qed

text \<open>One poll of an associated radio on its channel does nothing but supervise it.\<close>

lemma healthy_poll:
  assumes "healthy idf r" and "nr_configured r" and "0 < pr_size (nr_peers r)"
    and "nr_wifi_association_known r" and "nr_wifi_associated r" and "\<not> nr_wifi_reconnect_suppression_held r"
    and "250 \<le> now - nr_last_channel_poll_ms r"
  defines "r1 \<equiv> r\<lparr>nr_last_channel_poll_ms := now, nr_current_channel := nr_expected_channel r,
    nr_channel_matches := True, nr_channel_mismatch_reported := False\<rparr>"
  shows "radio_loop idf now r =
    (if nr_channel_stable r then radio_supervise idf now r1
     else r1\<lparr>nr_channel_stable := True, nr_channel_stable_since_ms := now\<rparr>)"
proof -
  have "observe_wifi_association idf now (r\<lparr>nr_last_channel_poll_ms := now\<rparr>) = r\<lparr>nr_last_channel_poll_ms := now\<rparr>"
    using assms by (simp add: observe_wifi_association_def healthy_def)
  moreover have "process_wifi_arbitration idf now (r\<lparr>nr_last_channel_poll_ms := now\<rparr>) = r\<lparr>nr_last_channel_poll_ms := now\<rparr>"
    using assms by (simp add: process_wifi_arbitration_def release_wifi_reconnect_suppression_def)
  ultimately show ?thesis
    using assms by (auto simp: radio_loop_def healthy_def Let_def not_less [symmetric])
qed


lemma recovery_started:
  assumes "nr_radio_recovery_pending r" and "nr_recovery_permitted r" and "0 \<le> sint (now - nr_radio_recovery_due_ms r)"
    and "nr_radio_recovery_last_ms r = 0 \<or> 30000 \<le> now - nr_radio_recovery_last_ms r"
  shows "\<exists>r'. process_radio_recovery idf now r = (True, r') \<and> nr_radio_recovery_in_progress r' \<and>
    \<not> nr_initialized r' \<and> \<not> nr_channel_stable r' \<and> nr_last_initialization_attempt_ms r' = 0 \<and>
    queue_size (nr_received_frames r') = 0 \<and> queue_size (nr_send_completions r') = 0 \<and>
    nr_peers r' = nr_peers r \<and> nr_configured r' = nr_configured r \<and> nr_expected_channel r' = nr_expected_channel r \<and>
    nr_wifi_association_known r' = nr_wifi_association_known r \<and> nr_wifi_associated r' = nr_wifi_associated r \<and>
    nr_wifi_reconnect_suppression_held r' = nr_wifi_reconnect_suppression_held r \<and>
    nr_last_channel_poll_ms r' = nr_last_channel_poll_ms r \<and> (nr_instance r \<noteq> OtherInstance \<longrightarrow> nr_instance r' \<noteq> OtherInstance) \<and>
    nr_radio_recovery_success_count r' = nr_radio_recovery_success_count r \<and> \<not> nr_radio_recovery_pending r'"
  using assms
  by (auto simp: process_radio_recovery_def shutdown_radio_def Let_def queue_drain_eq queue_size_def
      not_less [symmetric])

subsection \<open>Properties\<close>

text \<open>C22 (liveness): a requested recovery completes. On a healthy platform the first poll after the
  recovery is due stops the radio and empties both queues, and once the channel has been
  seen again and has stayed stable for five seconds the next poll has the radio
  initialized, with the recovery counted and ended.\<close>

theorem radio_recovers:
  assumes "radio_inv r" and "nr_configured r" and "0 < pr_size (nr_peers r)" and "healthy idf r"
    and "nr_wifi_association_known r" and "nr_wifi_associated r" and "nr_instance r \<noteq> OtherInstance"
    and "nr_channel_stable r" and "5000 \<le> t0 - nr_channel_stable_since_ms r" and "250 \<le> t0 - nr_last_channel_poll_ms r"
    and "nr_radio_recovery_pending r" and "nr_recovery_permitted r" and "0 \<le> sint (t0 - nr_radio_recovery_due_ms r)"
    and "nr_radio_recovery_last_ms r = 0 \<or> 30000 \<le> t0 - nr_radio_recovery_last_ms r"
    and "250 \<le> t1 - t0" and "5000 \<le> t2 - t1"
  shows "let stopped = radio_loop idf t0 r; restarted = radio_loop idf t2 (radio_loop idf t1 stopped) in
    \<not> nr_initialized stopped \<and> fst (take_received_frame stopped) = None \<and> fst (take_send_completion stopped) = None \<and>
    nr_initialized restarted \<and> \<not> nr_radio_recovery_in_progress restarted \<and>
    nr_radio_recovery_success_count restarted = nr_radio_recovery_success_count r + 1"
proof -
  define p0 where "p0 = r\<lparr>nr_last_channel_poll_ms := t0, nr_current_channel := nr_expected_channel r,
    nr_channel_matches := True, nr_channel_mismatch_reported := False\<rparr>"
  have held: "\<not> nr_wifi_reconnect_suppression_held r"
    using assms(1,6) by (auto simp: radio_inv_def supervision_ok_def)
  have size: "pr_size (nr_peers r) \<le> 16"
    using assms(1) by (simp add: radio_inv_def queues_ok_def registry_wf_def)
  obtain r0 where rec: "process_radio_recovery idf t0 p0 = (True, r0)" and r0: "nr_radio_recovery_in_progress r0"
      "\<not> nr_initialized r0" "\<not> nr_channel_stable r0" "nr_last_initialization_attempt_ms r0 = 0"
      "queue_size (nr_received_frames r0) = 0" "queue_size (nr_send_completions r0) = 0" "nr_peers r0 = nr_peers r"
      "nr_configured r0" "nr_expected_channel r0 = nr_expected_channel r" "nr_wifi_association_known r0"
      "nr_wifi_associated r0" "\<not> nr_wifi_reconnect_suppression_held r0" "nr_last_channel_poll_ms r0 = t0"
      "nr_instance r0 \<noteq> OtherInstance" "nr_radio_recovery_success_count r0 = nr_radio_recovery_success_count r"
      "\<not> nr_radio_recovery_pending r0"
    using recovery_started [of p0 t0 idf] assms held by (auto simp: p0_def)
  have loop0: "radio_loop idf t0 r = r0"
    using healthy_poll [OF assms(4,2,3,5,6) held assms(10)] assms(8,9) rec
    by (simp add: p0_def radio_supervise_def not_less [symmetric])
  have h0: "healthy idf r0" using assms(4) r0(9) by (simp add: healthy_def)
  define r1 where "r1 = r0\<lparr>nr_last_channel_poll_ms := t1, nr_current_channel := nr_expected_channel r0,
    nr_channel_matches := True, nr_channel_mismatch_reported := False, nr_channel_stable := True,
    nr_channel_stable_since_ms := t1\<rparr>"
  have loop1: "radio_loop idf t1 r0 = r1"
    using healthy_poll [OF h0 r0(8) _ r0(10,11,12)] assms(3,15) r0(3,7,13) by (simp add: r1_def)
  define p2 where "p2 = r1\<lparr>nr_last_channel_poll_ms := t2, nr_current_channel := nr_expected_channel r1,
    nr_channel_matches := True, nr_channel_mismatch_reported := False\<rparr>"
  have "250 \<le> t2 - t1" using assms(16) by (rule order_trans [rotated]) simp
  then have "radio_loop idf t2 r1 = radio_supervise idf t2 p2"
    using healthy_poll [of idf r1 t2] h0 r0 assms(3) by (simp add: r1_def p2_def healthy_def)
  also have "\<dots> = snd (radio_initialize idf (p2\<lparr>nr_last_initialization_attempt_ms := t2\<rparr>))"
    using r0 assms(16) by (simp add: radio_supervise_def p2_def r1_def process_radio_recovery_def not_less [symmetric])
  finally have loop2: "radio_loop idf t2 r1 = snd (radio_initialize idf (p2\<lparr>nr_last_initialization_attempt_ms := t2\<rparr>))" .
  have "healthy idf (p2\<lparr>nr_last_initialization_attempt_ms := t2\<rparr>)" using h0 by (simp add: healthy_def p2_def r1_def)
  moreover have "q_tail (nr_received_frames r0) = q_head (nr_received_frames r0)"
    "q_tail (nr_send_completions r0) = q_head (nr_send_completions r0)"
    using r0(5,6) by (simp_all add: queue_size_def unat_eq_zero)
  ultimately show ?thesis
    using initialize_healthy [of idf "p2\<lparr>nr_last_initialization_attempt_ms := t2\<rparr>"] r0 size
    unfolding loop0 Let_def loop1 loop2
    by (simp add: p2_def r1_def take_received_frame_def take_send_completion_def queue_pop_def)
qed

lemma example_radio_ok: "radio_inv example_radio" "0 < pr_size (nr_peers example_radio)"
proof -
  let ?p = "\<lparr>peer_id = [65], peer_address = [1, 2, 3, 4, 5, 6], peer_lmk = replicate 16 7\<rparr>"
  have "PeerIdentity_wf ?p" by (simp add: PeerIdentity_wf_def text_ok_def MAX_ID_SIZE_def MAC_SIZE_def KEY_SIZE_def)
  then show "radio_inv example_radio"
    using radio_init_inv registry_wf_add [OF registry_wf_init, of ?p]
    by (simp add: radio_inv_def supervision_ok_def queues_ok_def example_radio_def) (simp add: radio_init_def)
  show "0 < pr_size (nr_peers example_radio)"
    by (simp add: example_radio_def registry_add_def PeerRegistry_init_def index_for_id_def index_for_address_def
        scan_peers.simps)
qed

lemma radio_recovers_witness:
  "nr_initialized (radio_loop example_idf 15500 (radio_loop example_idf 10300 (radio_loop example_idf 10000 example_radio)))"
proof -
  have "healthy example_idf example_radio" by (simp add: example_radio_def radio_init_def healthy_def example_idf_def)
  moreover have "nr_configured example_radio" "nr_wifi_association_known example_radio"
    "nr_wifi_associated example_radio" "nr_instance example_radio \<noteq> OtherInstance" "nr_channel_stable example_radio"
    "5000 \<le> 10000 - nr_channel_stable_since_ms example_radio" "250 \<le> 10000 - nr_last_channel_poll_ms example_radio"
    "nr_radio_recovery_pending example_radio" "nr_recovery_permitted example_radio"
    "0 \<le> sint (10000 - nr_radio_recovery_due_ms example_radio)"
    "nr_radio_recovery_last_ms example_radio = 0 \<or> 30000 \<le> 10000 - nr_radio_recovery_last_ms example_radio"
    by (simp_all add: example_radio_def radio_init_def)
  ultimately show ?thesis
    using radio_recovers [of example_radio example_idf 10000 10300 15500] example_radio_ok by (simp add: Let_def)
qed

end
