(* ===== verification/Radio_Diagnostics.thy ===== *)
theory Radio_Diagnostics
  imports Encrypted_Radio
begin

text \<open>
  \<open>radio_diagnostic_history.h\<close>, \<open>radio_diagnostics.h\<close> and \<open>radio_diagnostics.cpp\<close>: the periodic
  samples of the radio's state, the history kept of them and saved at shutdown, and its paced
  replay to the log. The rings that hold samples and events belong to the Wi-Fi component,
  which is not part of the sources: their types are \<open>'r\<close> and \<open>'e\<close> and their operations are the
  parameter \<open>DiagnosticRings\<close>. Lines of the replay and events given to the Wi-Fi component are
  results of the model; other log output is left out, with the flag \<open>trace\<close> that only paces it.
\<close>

subsection \<open>Data\<close>

record RadioDiagnosticSample =
  ds_uptime_ms :: u32
  ds_rx :: u32
  ds_tx :: u32
  ds_failed :: u32
  ds_stops :: u32
  ds_max_loop_gap_ms :: u32
  ds_channel_error :: esp_err
  ds_association_error :: esp_err
  ds_init_error :: esp_err
  ds_flags :: u16
  ds_disconnect_reason :: u16
  ds_channel :: u8
  ds_mode :: u8
  ds_wifi_state :: u8
  ds_arbitration :: u8

definition RadioDiagnosticSample_init :: RadioDiagnosticSample where
  "RadioDiagnosticSample_init =
     \<lparr>ds_uptime_ms = 0, ds_rx = 0, ds_tx = 0, ds_failed = 0, ds_stops = 0, ds_max_loop_gap_ms = 0,
      ds_channel_error = ESP_OK, ds_association_error = ESP_OK, ds_init_error = ESP_OK, ds_flags = 0,
      ds_disconnect_reason = 0, ds_channel = 0, ds_mode = 255, ds_wifi_state = 0, ds_arbitration = 0\<rparr>"

datatype RadioDiagnosticFlag =
    DRIVER_STARTED | STA_STARTED | ASSOCIATED | WIFI_CONNECTED | SUPPRESSION_REQUESTED | SUPPRESSION_ACTIVE
  | ESPNOW_INITIALIZED | API_CONNECTED | MQTT_CONNECTED | CONNECTING | RECOVERY_PENDING | RECOVERY_RUNNING
  | RECOVERY_PERMITTED | MODE_VALID

primrec flag_bit :: "RadioDiagnosticFlag \<Rightarrow> u16" where
  "flag_bit DRIVER_STARTED = 1"
| "flag_bit STA_STARTED = 2"
| "flag_bit ASSOCIATED = 4"
| "flag_bit WIFI_CONNECTED = 8"
| "flag_bit SUPPRESSION_REQUESTED = 16"
| "flag_bit SUPPRESSION_ACTIVE = 32"
| "flag_bit ESPNOW_INITIALIZED = 64"
| "flag_bit API_CONNECTED = 128"
| "flag_bit MQTT_CONNECTED = 256"
| "flag_bit CONNECTING = 512"
| "flag_bit RECOVERY_PENDING = 1024"
| "flag_bit RECOVERY_RUNNING = 2048"
| "flag_bit RECOVERY_PERMITTED = 4096"
| "flag_bit MODE_VALID = 8192"

definition has_flag :: "RadioDiagnosticFlag \<Rightarrow> u16 \<Rightarrow> bool" where
  "has_flag f flags \<longleftrightarrow> flags AND flag_bit f \<noteq> 0"

text \<open>The rings of the Wi-Fi component; an entry of the events ring is a \<open>'v\<close>.\<close>

record ('r, 'e, 'v) DiagnosticRings =
  rg_push :: "RadioDiagnosticSample \<Rightarrow> 'r \<Rightarrow> 'r"
  rg_count :: "'r \<Rightarrow> nat"
  rg_at :: "'r \<Rightarrow> nat \<Rightarrow> RadioDiagnosticSample"
  rg_valid :: "'r \<Rightarrow> bool"
  rg_event_count :: "'e \<Rightarrow> nat"
  rg_event_at :: "'e \<Rightarrow> nat \<Rightarrow> 'v"
  rg_events_valid :: "'e \<Rightarrow> bool"

abbreviation (input) DIAGNOSTIC_MAGIC :: u32 where "DIAGNOSTIC_MAGIC \<equiv> 0x52444731"

record ('r, 'e) RadioDiagnosticHistory =
  dh_magic :: u32
  dh_boot_id :: u32
  dh_saved_at_ms :: u32
  dh_reset_reason :: u32
  dh_first_wifi_loss_ms :: u32
  dh_first_api_loss_ms :: u32
  dh_samples :: 'r
  dh_events :: 'e

definition history_valid :: "('r, 'e, 'v) DiagnosticRings \<Rightarrow> ('r, 'e) RadioDiagnosticHistory \<Rightarrow> bool" where
  "history_valid rings h \<longleftrightarrow>
     dh_magic h = DIAGNOSTIC_MAGIC \<and> rg_valid rings (dh_samples h) \<and> rg_events_valid rings (dh_events h)"

text \<open>The fields of the object. \<open>preference_\<close> is the stored history, once \<open>setup\<close> has opened it; what it holds is an
  argument of the operations that read it.\<close>

record ('r, 'e) RadioDiagnostics =
  dg_live :: "('r, 'e) RadioDiagnosticHistory"
  dg_replay :: "('r, 'e) RadioDiagnosticHistory"
  dg_last :: RadioDiagnosticSample
  dg_last_poll :: u32
  dg_last_sample :: u32
  dg_last_loop :: u32
  dg_max_loop_gap :: u32
  dg_replay_due :: u32
  dg_replay_index :: u16
  dg_replay_phase :: u8
  dg_initialized :: bool
  dg_sampled :: bool
  dg_dump_pending :: bool
  dg_saved :: bool

definition diagnostics_init :: "'r \<Rightarrow> 'e \<Rightarrow> ('r, 'e) RadioDiagnostics" where
  "diagnostics_init no_samples no_events =
     (let empty = \<lparr>dh_magic = DIAGNOSTIC_MAGIC, dh_boot_id = 0, dh_saved_at_ms = 0, dh_reset_reason = 0,
            dh_first_wifi_loss_ms = 0, dh_first_api_loss_ms = 0, dh_samples = no_samples, dh_events = no_events\<rparr>
      in \<lparr>dg_live = empty, dg_replay = empty, dg_last = RadioDiagnosticSample_init, dg_last_poll = 0,
          dg_last_sample = 0, dg_last_loop = 0, dg_max_loop_gap = 0, dg_replay_due = 0, dg_replay_index = 0,
          dg_replay_phase = 0, dg_initialized = False, dg_sampled = False, dg_dump_pending = False,
          dg_saved = False\<rparr>)"

definition diagnostics_setup :: "u32 \<Rightarrow> u32 \<Rightarrow> ('r, 'e) RadioDiagnostics \<Rightarrow> ('r, 'e) RadioDiagnostics" where
  "diagnostics_setup random reset_reason d =
     d\<lparr>dg_live := (dg_live d)\<lparr>dh_boot_id := random, dh_reset_reason := reset_reason\<rparr>, dg_initialized := True\<rparr>"

subsection \<open>Sampling\<close>

text \<open>The Wi-Fi component, when there is one, and the rest of the platform as one capture sees it:
  the mode when the driver tells it, the channel and association queries, and the clients of
  the API (\<open>None\<close> in a build without it) and of MQTT.\<close>

record 'e WifiView =
  wv_state :: u8
  wv_last_disconnect_reason :: u16
  wv_stop_calls :: u32
  wv_driver_started :: bool
  wv_sta_started :: bool
  wv_connecting :: bool
  wv_connected :: bool
  wv_suppression_requested :: bool
  wv_suppression_active :: bool
  wv_events :: 'e

record 'e DiagnosticPlatform =
  dp_wifi :: "'e WifiView option"
  dp_mode :: "u8 option"
  dp_channel_error :: esp_err
  dp_channel :: u8
  dp_association_error :: esp_err
  dp_api :: "bool option"
  dp_mqtt_connected :: bool

primrec arbitration_code :: "WiFiArbitrationState \<Rightarrow> u8" where
  "arbitration_code MONITORING = 0"
| "arbitration_code GRACE = 1"
| "arbitration_code REQUESTING = 2"
| "arbitration_code SUPPRESSED = 3"
| "arbitration_code RECONNECT_WINDOW = 4"

definition set_flag :: "bool \<Rightarrow> RadioDiagnosticFlag \<Rightarrow> RadioDiagnosticSample \<Rightarrow> RadioDiagnosticSample" where
  "set_flag b f s = (if b then s\<lparr>ds_flags := ds_flags s OR flag_bit f\<rparr> else s)"

definition capture_wifi :: "'e WifiView option \<Rightarrow> RadioDiagnosticSample \<Rightarrow> RadioDiagnosticSample" where
  "capture_wifi wifi s =
     (case wifi of None \<Rightarrow> s
      | Some w \<Rightarrow>
          set_flag (wv_suppression_active w) SUPPRESSION_ACTIVE
          (set_flag (wv_suppression_requested w) SUPPRESSION_REQUESTED
          (set_flag (wv_connected w) WIFI_CONNECTED
          (set_flag (wv_connecting w) CONNECTING
          (set_flag (wv_sta_started w) STA_STARTED
          (set_flag (wv_driver_started w) DRIVER_STARTED
            (s\<lparr>ds_wifi_state := wv_state w, ds_disconnect_reason := wv_last_disconnect_reason w,
               ds_stops := wv_stop_calls w\<rparr>)))))))"

definition capture_driver :: "'e DiagnosticPlatform \<Rightarrow> RadioDiagnosticSample \<Rightarrow> RadioDiagnosticSample" where
  "capture_driver p s =
     (let s1 = (case dp_mode p of None \<Rightarrow> s | Some mode \<Rightarrow> set_flag True MODE_VALID (s\<lparr>ds_mode := mode\<rparr>));
          s2 = s1\<lparr>ds_channel_error := dp_channel_error p,
                  ds_channel := (if dp_channel_error p = ESP_OK then dp_channel p else 0),
                  ds_association_error := dp_association_error p\<rparr>
      in set_flag (dp_association_error p = ESP_OK) ASSOCIATED s2)"

definition capture_radio :: "EspIdfEspNowEncryptedRadio \<Rightarrow> RadioDiagnosticSample \<Rightarrow> RadioDiagnosticSample" where
  "capture_radio radio s =
     (set_flag (nr_recovery_permitted radio) RECOVERY_PERMITTED
     (set_flag (nr_radio_recovery_in_progress radio) RECOVERY_RUNNING
     (set_flag (nr_radio_recovery_pending radio) RECOVERY_PENDING
     (set_flag (nr_initialized radio) ESPNOW_INITIALIZED s))))
       \<lparr>ds_arbitration := arbitration_code (nr_wifi_arbitration_state radio),
        ds_init_error := nr_last_initialization_error radio, ds_rx := nr_received_frame_count radio,
        ds_tx := nr_sent_frame_count radio, ds_failed := nr_failed_send_count radio\<rparr>"

definition diagnostics_capture ::
    "'e DiagnosticPlatform \<Rightarrow> u32 \<Rightarrow> EspIdfEspNowEncryptedRadio \<Rightarrow> ('r, 'e) RadioDiagnostics \<Rightarrow> RadioDiagnosticSample" where
  "diagnostics_capture p now radio d =
     capture_radio radio
     (set_flag (dp_mqtt_connected p) MQTT_CONNECTED
     (set_flag (dp_api p = Some True) API_CONNECTED
     (capture_driver p
     (capture_wifi (dp_wifi p)
       (RadioDiagnosticSample_init\<lparr>ds_uptime_ms := now, ds_max_loop_gap_ms := dg_max_loop_gap d\<rparr>)))))"

subsection \<open>The replay\<close>

text \<open>The lines of the log that the replay writes; the flag is whether they belong to the history
  saved by an earlier boot.\<close>

datatype ('r, 'e, 'v) replay_line =
    SavedBegin "('r, 'e) RadioDiagnosticHistory"
  | NoSavedHistory
  | CurrentBegin "('r, 'e) RadioDiagnosticHistory"
  | SampleLine bool RadioDiagnosticSample
  | EventLine bool 'v
  | ReplayEnd

definition request_dump :: "u32 \<Rightarrow> ('r, 'e) RadioDiagnostics \<Rightarrow> ('r, 'e) RadioDiagnostics" where
  "request_dump millis d =
     (if dg_dump_pending d \<or> dg_replay_phase d \<noteq> 0 then d
      else d\<lparr>dg_dump_pending := True, dg_replay_due := millis + 5000\<rparr>)"

definition begin_current_replay ::
    "'e DiagnosticPlatform \<Rightarrow> ('r, 'e) RadioDiagnostics \<Rightarrow>
     ('r, 'e, 'v) replay_line list \<times> ('r, 'e) RadioDiagnostics" where
  "begin_current_replay p d =
     (let live = (case dp_wifi p of None \<Rightarrow> dg_live d | Some w \<Rightarrow> (dg_live d)\<lparr>dh_events := wv_events w\<rparr>)
      in ([CurrentBegin live],
          d\<lparr>dg_live := live, dg_replay := live, dg_replay_phase := 2, dg_replay_index := 0\<rparr>))"

text \<open>\<open>stored\<close> is what \<open>preference_.load\<close> reads, \<open>None\<close> when it fails.\<close>

definition replay_one ::
    "('r, 'e, 'v) DiagnosticRings \<Rightarrow> 'e DiagnosticPlatform \<Rightarrow> ('r, 'e) RadioDiagnosticHistory option \<Rightarrow> u32 \<Rightarrow>
     ('r, 'e) RadioDiagnostics \<Rightarrow> ('r, 'e, 'v) replay_line list \<times> ('r, 'e) RadioDiagnostics" where
  "replay_one rings p stored now d =
     (if (\<not> dg_dump_pending d \<and> dg_replay_phase d = 0) \<or> sint (now - dg_replay_due d) < 0 \<or> dp_api p = Some False
      then ([], d)
      else
        (let d1 = d\<lparr>dg_replay_due := now + 250\<rparr> in
         if dg_dump_pending d1 then
           (let d2 = d1\<lparr>dg_dump_pending := False\<rparr>;
                d3 = (case stored of None \<Rightarrow> d2 | Some h \<Rightarrow> d2\<lparr>dg_replay := h\<rparr>)
            in if stored \<noteq> None \<and> history_valid rings (dg_replay d3) \<and>
                  dh_boot_id (dg_replay d3) \<noteq> dh_boot_id (dg_live d3)
               then ([SavedBegin (dg_replay d3)], d3\<lparr>dg_replay_phase := 1, dg_replay_index := 0\<rparr>)
               else (let (lines, d4) = begin_current_replay p d3 in (NoSavedHistory # lines, d4)))
         else
           (let index = unat (dg_replay_index d1); samples = rg_count rings (dh_samples (dg_replay d1)) in
            if index < samples then
              ([SampleLine (dg_replay_phase d1 = 1) (rg_at rings (dh_samples (dg_replay d1)) index)],
               d1\<lparr>dg_replay_index := dg_replay_index d1 + 1\<rparr>)
            else if index - samples < rg_event_count rings (dh_events (dg_replay d1)) then
              ([EventLine (dg_replay_phase d1 = 1) (rg_event_at rings (dh_events (dg_replay d1)) (index - samples))],
               d1\<lparr>dg_replay_index := dg_replay_index d1 + 1\<rparr>)
            else if dg_replay_phase d1 = 1 then begin_current_replay p d1
            else ([ReplayEnd], d1\<lparr>dg_replay_phase := 0\<rparr>))))"

subsection \<open>The pass of the loop and the shutdown\<close>

text \<open>The first loss of the Wi-Fi connection and of the API client.\<close>

definition note_losses :: "u32 \<Rightarrow> RadioDiagnosticSample \<Rightarrow> ('r, 'e) RadioDiagnostics \<Rightarrow> ('r, 'e) RadioDiagnostics" where
  "note_losses now s d =
     (let lost = (\<lambda>f. has_flag f (ds_flags (dg_last d)) \<and> \<not> has_flag f (ds_flags s));
          d1 = (if lost WIFI_CONNECTED \<and> dh_first_wifi_loss_ms (dg_live d) = 0
                then d\<lparr>dg_live := (dg_live d)\<lparr>dh_first_wifi_loss_ms := now\<rparr>\<rparr> else d)
      in if lost API_CONNECTED \<and> dh_first_api_loss_ms (dg_live d1) = 0
         then d1\<lparr>dg_live := (dg_live d1)\<lparr>dh_first_api_loss_ms := now\<rparr>\<rparr> else d1)"

definition sample_changed :: "RadioDiagnosticSample \<Rightarrow> ('r, 'e) RadioDiagnostics \<Rightarrow> bool" where
  "sample_changed s d \<longleftrightarrow>
     \<not> dg_sampled d \<or> ds_flags s \<noteq> ds_flags (dg_last d) \<or> ds_channel s \<noteq> ds_channel (dg_last d) \<or>
     ds_mode s \<noteq> ds_mode (dg_last d) \<or> ds_wifi_state s \<noteq> ds_wifi_state (dg_last d) \<or>
     ds_arbitration s \<noteq> ds_arbitration (dg_last d)"

text \<open>One poll; the result is the event given to the Wi-Fi component.\<close>

definition diagnostics_poll ::
    "('r, 'e, 'v) DiagnosticRings \<Rightarrow> 'e DiagnosticPlatform \<Rightarrow> u32 \<Rightarrow> u32 \<Rightarrow> EspIdfEspNowEncryptedRadio \<Rightarrow>
     ('r, 'e) RadioDiagnostics \<Rightarrow> (u16 \<times> u8) option \<times> ('r, 'e) RadioDiagnostics" where
  "diagnostics_poll rings p now millis radio d =
     (let d1 = d\<lparr>dg_last_poll := now\<rparr>;
          s = diagnostics_capture p now radio d1;
          d2 = (if dg_sampled d1 then note_losses now s d1 else d1);
          d3 = (if \<not> has_flag API_CONNECTED (ds_flags (dg_last d2)) \<and> has_flag API_CONNECTED (ds_flags s)
                then request_dump millis d2 else d2);
          d4 = (if \<not> dg_sampled d3 \<or> now - dg_last_sample d3 \<ge> 5000
                then d3\<lparr>dg_live := (dg_live d3)\<lparr>dh_samples := rg_push rings s (dh_samples (dg_live d3))\<rparr>,
                        dg_last_sample := now\<rparr> else d3)
      in (if sample_changed s d3 \<and> dp_wifi p \<noteq> None then Some (ds_flags s, ds_arbitration s) else None,
          d4\<lparr>dg_last := s, dg_sampled := True\<rparr>))"

definition note_loop_gap :: "u32 \<Rightarrow> ('r, 'e) RadioDiagnostics \<Rightarrow> ('r, 'e) RadioDiagnostics" where
  "note_loop_gap now d =
     (let d1 = (if dg_last_loop d \<noteq> 0 \<and> now - dg_last_loop d > dg_max_loop_gap d
                then d\<lparr>dg_max_loop_gap := now - dg_last_loop d\<rparr> else d)
      in d1\<lparr>dg_last_loop := now\<rparr>)"

definition diagnostics_loop ::
    "('r, 'e, 'v) DiagnosticRings \<Rightarrow> 'e DiagnosticPlatform \<Rightarrow> ('r, 'e) RadioDiagnosticHistory option \<Rightarrow>
     u32 \<Rightarrow> u32 \<Rightarrow> EspIdfEspNowEncryptedRadio \<Rightarrow> ('r, 'e) RadioDiagnostics \<Rightarrow>
     (u16 \<times> u8) option \<times> ('r, 'e, 'v) replay_line list \<times> ('r, 'e) RadioDiagnostics" where
  "diagnostics_loop rings p stored now millis radio d =
     (if \<not> dg_initialized d then (None, [], d)
      else
        (let d1 = note_loop_gap now d;
             (event, d2) = (if \<not> dg_sampled d1 \<or> now - dg_last_poll d1 \<ge> 250
                            then diagnostics_poll rings p now millis radio d1 else (None, d1))
         in (event, replay_one rings p stored now d2)))"

text \<open>The second component is the history given to \<open>preference_.save\<close>.\<close>

definition save_before_shutdown ::
    "('r, 'e, 'v) DiagnosticRings \<Rightarrow> bool \<Rightarrow> 'e DiagnosticPlatform \<Rightarrow> u32 \<Rightarrow> EspIdfEspNowEncryptedRadio \<Rightarrow>
     ('r, 'e) RadioDiagnostics \<Rightarrow> ('r, 'e) RadioDiagnostics \<times> ('r, 'e) RadioDiagnosticHistory option" where
  "save_before_shutdown rings preferences p millis radio d =
     (if \<not> dg_initialized d \<or> dg_saved d \<or> \<not> preferences then (d, None)
      else
        (let d1 = d\<lparr>dg_saved := True, dg_live := (dg_live d)\<lparr>dh_saved_at_ms := millis\<rparr>\<rparr>;
             s = diagnostics_capture p millis radio d1;
             live = (dg_live d1)\<lparr>dh_samples := rg_push rings s (dh_samples (dg_live d1))\<rparr>;
             live1 = (case dp_wifi p of None \<Rightarrow> live | Some w \<Rightarrow> live\<lparr>dh_events := wv_events w\<rparr>)
         in (d1\<lparr>dg_live := live1\<rparr>, Some live1)))"

subsection \<open>What a replay prints\<close>

definition history_length :: "('r, 'e, 'v) DiagnosticRings \<Rightarrow> ('r, 'e) RadioDiagnosticHistory \<Rightarrow> nat" where
  "history_length rings h = rg_count rings (dh_samples h) + rg_event_count rings (dh_events h)"

definition history_line ::
    "('r, 'e, 'v) DiagnosticRings \<Rightarrow> bool \<Rightarrow> ('r, 'e) RadioDiagnosticHistory \<Rightarrow> nat \<Rightarrow> ('r, 'e, 'v) replay_line" where
  "history_line rings saved h i =
     (if i < rg_count rings (dh_samples h) then SampleLine saved (rg_at rings (dh_samples h) i)
      else EventLine saved (rg_event_at rings (dh_events h) (i - rg_count rings (dh_samples h))))"

text \<open>All samples, then all events.\<close>

definition history_lines ::
    "('r, 'e, 'v) DiagnosticRings \<Rightarrow> bool \<Rightarrow> ('r, 'e) RadioDiagnosticHistory \<Rightarrow> ('r, 'e, 'v) replay_line list" where
  "history_lines rings saved h =
     map (\<lambda>i. SampleLine saved (rg_at rings (dh_samples h) i)) [0..<rg_count rings (dh_samples h)] @
     map (\<lambda>i. EventLine saved (rg_event_at rings (dh_events h) i)) [0..<rg_event_count rings (dh_events h)]"

text \<open>Passes of the replay, each at a time and on a platform of its own; between them the capture goes
  on, so that the live history is another one at each pass.\<close>

type_synonym ('r, 'e) replay_pass = "'e DiagnosticPlatform \<times> u32 \<times> ('r, 'e) RadioDiagnosticHistory"

primrec replay_passes ::
    "('r, 'e, 'v) DiagnosticRings \<Rightarrow> ('r, 'e) RadioDiagnosticHistory option \<Rightarrow> ('r, 'e) replay_pass list \<Rightarrow>
     ('r, 'e) RadioDiagnostics \<Rightarrow> ('r, 'e, 'v) replay_line list \<times> ('r, 'e) RadioDiagnostics" where
  "replay_passes rings stored [] d = ([], d)"
| "replay_passes rings stored (x # xs) d =
     (case x of (p, now, live) \<Rightarrow>
        let (lines, d1) = replay_one rings p stored now (d\<lparr>dg_live := live\<rparr>);
            (more, d2) = replay_passes rings stored xs d1
        in (lines @ more, d2))"

text \<open>Every pass comes when the replay is due and the log client is there.\<close>

primrec paced :: "u32 \<Rightarrow> ('r, 'e) replay_pass list \<Rightarrow> bool" where
  "paced due [] = True"
| "paced due (x # xs) =
     (case x of (p, now, live) \<Rightarrow> 0 \<le> sint (now - due) \<and> dp_api p \<noteq> Some False \<and> paced (now + 250) xs)"

lemma history_lines_nth: "history_lines rings saved h = map (history_line rings saved h) [0..<history_length rings h]"
proof -
  let ?a = "rg_count rings (dh_samples h)" and ?b = "rg_event_count rings (dh_events h)"
  have split: "[0..<?a + ?b] = [0..<?a] @ map (\<lambda>i. i + ?a) [0..<?b]"
    using upt_add_eq_append [of 0 ?a ?b] by (simp add: map_add_upt add.commute)
  show ?thesis
    unfolding history_lines_def history_length_def split map_append map_map
    by (intro arg_cong2 [where f = append] map_cong refl) (simp_all add: history_line_def)
qed

lemma replay_passes_append:
  "replay_passes rings stored (xs @ ys) d =
     (let (a, d1) = replay_passes rings stored xs d; (b, d2) = replay_passes rings stored ys d1 in (a @ b, d2))"
  by (induction xs arbitrary: d) (auto simp: Let_def split: prod.splits)

lemma replay_one_line:
  assumes "\<not> dg_dump_pending d" and "dg_replay_phase d \<noteq> 0" and "0 \<le> sint (now - dg_replay_due d)"
    and "dp_api p \<noteq> Some False" and "unat (dg_replay_index d) < history_length rings (dg_replay d)"
  shows "replay_one rings p stored now d =
    ([history_line rings (dg_replay_phase d = 1) (dg_replay d) (unat (dg_replay_index d))],
     d\<lparr>dg_replay_due := now + 250, dg_replay_index := dg_replay_index d + 1\<rparr>)"
  using assms by (auto simp: replay_one_def history_line_def history_length_def Let_def)

text \<open>As many passes as the history has lines print them all, and leave the replay at its end.\<close>

definition replaying ::
    "u8 \<Rightarrow> ('r, 'e) RadioDiagnosticHistory \<Rightarrow> nat \<Rightarrow> u32 \<Rightarrow> ('r, 'e) RadioDiagnostics \<Rightarrow> bool" where
  "replaying phase h i due d \<longleftrightarrow>
     \<not> dg_dump_pending d \<and> dg_replay_phase d = phase \<and> dg_replay d = h \<and> unat (dg_replay_index d) = i \<and>
     dg_replay_due d = due"

lemma replay_history:
  assumes "paced due (xs @ ys)" and "replaying phase h i due d" and "phase \<noteq> 0"
    and "i + length xs = history_length rings h" and "history_length rings h < 2 ^ 16"
  shows "\<exists>d' due'. replay_passes rings stored xs d = (drop i (history_lines rings (phase = 1) h), d') \<and>
    replaying phase h (history_length rings h) due' d' \<and> paced due' ys"
  using assms(1,2,4)
proof (induction xs arbitrary: d i due)
  case Nil
  then show ?case by (auto simp: history_lines_nth)
next
  case (Cons x xs)
  obtain p now live where x: "x = (p, now, live)" by (cases x)
  let ?d = "d\<lparr>dg_live := live\<rparr>" and ?d1 = "d\<lparr>dg_live := live, dg_replay_due := now + 250, dg_replay_index := dg_replay_index d + 1\<rparr>"
  have i: "i < history_length rings h" using Cons.prems(3) by simp
  have one: "replay_one rings p stored now ?d = ([history_line rings (phase = 1) h i], ?d1)"
    using replay_one_line [of ?d now p rings stored] Cons.prems(1,2) i assms(3) x by (simp add: replaying_def)
  have "unat (dg_replay_index d + 1) = Suc i"
    using Cons.prems(2) i assms(5) by (simp add: replaying_def unat_word_ariths)
  then have "replaying phase h (Suc i) (now + 250) ?d1" using Cons.prems(2) by (simp add: replaying_def)
  moreover have "paced (now + 250) (xs @ ys)" using Cons.prems(1) x by simp
  moreover have "Suc i + length xs = history_length rings h" using Cons.prems(3) by simp
  ultimately obtain d' due' where rest: "replay_passes rings stored xs ?d1 = (drop (Suc i) (history_lines rings (phase = 1) h), d')"
    "replaying phase h (history_length rings h) due' d'" "paced due' ys"
    using Cons.IH by blast
  have "drop i (history_lines rings (phase = 1) h) =
      history_line rings (phase = 1) h i # drop (Suc i) (history_lines rings (phase = 1) h)"
    using i by (simp add: history_lines_nth Cons_nth_drop_Suc [symmetric])
  then show ?case using one rest x by auto
qed

definition current_history ::
    "'e DiagnosticPlatform \<Rightarrow> ('r, 'e) RadioDiagnosticHistory \<Rightarrow> ('r, 'e) RadioDiagnosticHistory" where
  "current_history p live = (case dp_wifi p of None \<Rightarrow> live | Some w \<Rightarrow> live\<lparr>dh_events := wv_events w\<rparr>)"

lemma replay_one_first:
  assumes "dg_dump_pending d" and "history_valid rings h" and "dh_boot_id h \<noteq> dh_boot_id (dg_live d)"
    and "0 \<le> sint (now - dg_replay_due d)" and "dp_api p \<noteq> Some False"
  shows "\<exists>d'. replay_one rings p (Some h) now d = ([SavedBegin h], d') \<and> replaying 1 h 0 (now + 250) d'"
  using assms by (simp add: replay_one_def replaying_def Let_def)

lemma replay_one_next:
  assumes "replaying 1 h (history_length rings h) due d" and "0 \<le> sint (now - due)" and "dp_api p \<noteq> Some False"
  shows "\<exists>d'. replay_one rings p stored now (d\<lparr>dg_live := live\<rparr>) = ([CurrentBegin (current_history p live)], d') \<and>
    replaying 2 (current_history p live) 0 (now + 250) d'"
  using assms
  by (auto simp: replay_one_def begin_current_replay_def replaying_def history_length_def current_history_def Let_def
      split: option.split)

lemma replay_one_end:
  assumes "replaying 2 h (history_length rings h) due d" and "0 \<le> sint (now - due)" and "dp_api p \<noteq> Some False"
  shows "replay_one rings p stored now (d\<lparr>dg_live := live\<rparr>) =
    ([ReplayEnd], d\<lparr>dg_live := live, dg_replay_due := now + 250, dg_replay_phase := 0\<rparr>)"
  using assms by (auto simp: replay_one_def replaying_def history_length_def Let_def)

text \<open>While a replay is requested or under way, the capture changes nothing of it.\<close>

lemma note_losses_fields [simp]:
  "dg_replay (note_losses now s d) = dg_replay d" "dg_replay_index (note_losses now s d) = dg_replay_index d"
  "dg_replay_phase (note_losses now s d) = dg_replay_phase d" "dg_replay_due (note_losses now s d) = dg_replay_due d"
  "dg_dump_pending (note_losses now s d) = dg_dump_pending d"
  by (simp_all add: note_losses_def Let_def)

lemma request_dump_busy: "dg_dump_pending d \<or> dg_replay_phase d \<noteq> 0 \<Longrightarrow> request_dump millis d = d"
  by (auto simp: request_dump_def)

lemma poll_keeps_replay:
  assumes "dg_dump_pending d \<or> dg_replay_phase d \<noteq> 0"
    and "d' = snd (diagnostics_poll rings p now millis radio d)"
  shows "dg_replay d' = dg_replay d" and "dg_replay_index d' = dg_replay_index d"
    and "dg_replay_phase d' = dg_replay_phase d" and "dg_replay_due d' = dg_replay_due d"
    and "dg_dump_pending d' = dg_dump_pending d"
  using assms(1) unfolding assms(2) by (simp_all add: diagnostics_poll_def request_dump_busy Let_def)

subsection \<open>What a sample says\<close>

lemma has_flag_or [simp]: "has_flag g (x OR flag_bit f) \<longleftrightarrow> g = f \<or> has_flag g x"
proof -
  have bits: "flag_bit f AND flag_bit g \<noteq> 0 \<longleftrightarrow> g = f" by (cases f; cases g) simp_all
  have "(x OR flag_bit f) AND flag_bit g = 0 \<longleftrightarrow> x AND flag_bit g = 0 \<and> flag_bit f AND flag_bit g = 0"
    by (simp add: bit.conj_disj_distrib2 or_eq_0_iff)
  then show ?thesis using bits by (auto simp: has_flag_def)
qed

lemma set_flag_flags [simp]: "has_flag g (ds_flags (set_flag b f s)) \<longleftrightarrow> b \<and> g = f \<or> has_flag g (ds_flags s)"
  by (auto simp: set_flag_def)

primrec flag_source :: "RadioDiagnosticFlag \<Rightarrow> 'e DiagnosticPlatform \<Rightarrow> EspIdfEspNowEncryptedRadio \<Rightarrow> bool" where
  "flag_source DRIVER_STARTED p r = (case dp_wifi p of None \<Rightarrow> False | Some w \<Rightarrow> wv_driver_started w)"
| "flag_source STA_STARTED p r = (case dp_wifi p of None \<Rightarrow> False | Some w \<Rightarrow> wv_sta_started w)"
| "flag_source ASSOCIATED p r = (dp_association_error p = ESP_OK)"
| "flag_source WIFI_CONNECTED p r = (case dp_wifi p of None \<Rightarrow> False | Some w \<Rightarrow> wv_connected w)"
| "flag_source SUPPRESSION_REQUESTED p r = (case dp_wifi p of None \<Rightarrow> False | Some w \<Rightarrow> wv_suppression_requested w)"
| "flag_source SUPPRESSION_ACTIVE p r = (case dp_wifi p of None \<Rightarrow> False | Some w \<Rightarrow> wv_suppression_active w)"
| "flag_source ESPNOW_INITIALIZED p r = nr_initialized r"
| "flag_source API_CONNECTED p r = (dp_api p = Some True)"
| "flag_source MQTT_CONNECTED p r = dp_mqtt_connected p"
| "flag_source CONNECTING p r = (case dp_wifi p of None \<Rightarrow> False | Some w \<Rightarrow> wv_connecting w)"
| "flag_source RECOVERY_PENDING p r = nr_radio_recovery_pending r"
| "flag_source RECOVERY_RUNNING p r = nr_radio_recovery_in_progress r"
| "flag_source RECOVERY_PERMITTED p r = nr_recovery_permitted r"
| "flag_source MODE_VALID p r = (dp_mode p \<noteq> None)"

text \<open>The flags of a sample are independent: each tells its own source.\<close>

lemma capture_flags: "has_flag f (ds_flags (diagnostics_capture p now r d)) \<longleftrightarrow> flag_source f p r"
  by (cases f) (auto simp: diagnostics_capture_def capture_radio_def capture_driver_def capture_wifi_def
      RadioDiagnosticSample_init_def has_flag_def [of _ 0] Let_def split: option.splits)

subsection \<open>Properties\<close>

text \<open>C35 (functional): once a dump is requested, a valid history that an earlier boot saved is printed
  first, then the current one: one line a pass, every sample and every event exactly once
  and in order, whatever the capture adds to the live history meanwhile; then the replay
  has ended.\<close>

theorem saved_history_replayed:
  assumes "dg_dump_pending d" and "history_valid rings h" and "dh_boot_id h \<noteq> dh_boot_id live0"
    and "paced (dg_replay_due d) ((p0, now0, live0) # xs @ (p1, now1, live1) # ys @ [(p2, now2, live2)])"
    and "length xs = history_length rings h" and "length ys = history_length rings (current_history p1 live1)"
    and "history_length rings h < 2 ^ 16" and "history_length rings (current_history p1 live1) < 2 ^ 16"
  shows "\<exists>d'. replay_passes rings (Some h) ((p0, now0, live0) # xs @ (p1, now1, live1) # ys @ [(p2, now2, live2)]) d =
      (SavedBegin h # history_lines rings True h @ CurrentBegin (current_history p1 live1) #
         history_lines rings False (current_history p1 live1) @ [ReplayEnd], d') \<and>
    dg_replay_phase d' = 0 \<and> \<not> dg_dump_pending d'"
proof -
  let ?cur = "current_history p1 live1"
  obtain d1 where d1: "replay_one rings p0 (Some h) now0 (d\<lparr>dg_live := live0\<rparr>) = ([SavedBegin h], d1)"
    "replaying 1 h 0 (now0 + 250) d1"
    using replay_one_first [of "d\<lparr>dg_live := live0\<rparr>" rings h now0 p0] assms(1-4) by auto
  obtain d2 due2 where d2: "replay_passes rings (Some h) xs d1 = (history_lines rings True h, d2)"
    "replaying 1 h (history_length rings h) due2 d2" "paced due2 ((p1, now1, live1) # ys @ [(p2, now2, live2)])"
    using replay_history [OF _ d1(2), of xs "(p1, now1, live1) # ys @ [(p2, now2, live2)]" rings "Some h"] assms(4,5,7) by auto
  obtain d3 where d3: "replay_one rings p1 (Some h) now1 (d2\<lparr>dg_live := live1\<rparr>) = ([CurrentBegin ?cur], d3)"
    "replaying 2 ?cur 0 (now1 + 250) d3"
    using replay_one_next [OF d2(2), of now1 p1 "Some h" live1] d2(3) by auto
  obtain d4 due4 where d4: "replay_passes rings (Some h) ys d3 = (history_lines rings False ?cur, d4)"
    "replaying 2 ?cur (history_length rings ?cur) due4 d4" "paced due4 [(p2, now2, live2)]"
    using replay_history [OF _ d3(2), of ys "[(p2, now2, live2)]" rings "Some h"] assms(6,8) d2(3) by auto
  have "replay_one rings p2 (Some h) now2 (d4\<lparr>dg_live := live2\<rparr>) =
      ([ReplayEnd], d4\<lparr>dg_live := live2, dg_replay_due := now2 + 250, dg_replay_phase := 0\<rparr>)"
    using replay_one_end [OF d4(2)] d4(3) by auto
  with d1(1) d2(1) d3(1) d4(1,2) show ?thesis by (simp add: replay_passes_append replaying_def)
qed

definition list_rings :: "(RadioDiagnosticSample list, nat list, nat) DiagnosticRings" where
  "list_rings =
     \<lparr>rg_push = (\<lambda>s r. r @ [s]), rg_count = length, rg_at = nth, rg_valid = (\<lambda>r. length r \<le> 32),
      rg_event_count = length, rg_event_at = nth, rg_events_valid = (\<lambda>e. length e \<le> 64)\<rparr>"

definition example_platform :: "nat list DiagnosticPlatform" where
  "example_platform =
     \<lparr>dp_wifi = None, dp_mode = Some 1, dp_channel_error = ESP_OK, dp_channel = 6, dp_association_error = ESP_OK,
      dp_api = Some True, dp_mqtt_connected = False\<rparr>"

text \<open>The diagnostics of a boot that shut down after one sample, and of the boot after it.\<close>

definition example_boot :: "u32 \<Rightarrow> (RadioDiagnosticSample list, nat list) RadioDiagnostics" where
  "example_boot boot = diagnostics_setup boot 1 (diagnostics_init [] [])"

definition example_saved :: "(RadioDiagnosticSample list, nat list) RadioDiagnosticHistory" where
  "example_saved = the (snd (save_before_shutdown list_rings True example_platform 9000 radio_init (example_boot 7)))"

lemma saved_history_replayed_witness:
  "let live = dg_live (example_boot 8); x = (\<lambda>t. (example_platform, t, live))
   in fst (replay_passes list_rings (Some example_saved) [x 6000, x 6250, x 6500, x 6750]
        (request_dump 1000 (example_boot 8))) =
      [SavedBegin example_saved, SampleLine True (dh_samples example_saved ! 0), CurrentBegin live, ReplayEnd]"
proof -
  let ?d = "request_dump 1000 (example_boot 8)" and ?live = "dg_live (example_boot 8)"
  have saved: "dh_magic example_saved = DIAGNOSTIC_MAGIC" "dh_boot_id example_saved = 7"
    "length (dh_samples example_saved) = 1" "dh_events example_saved = []"
    by (simp_all add: example_saved_def save_before_shutdown_def example_boot_def diagnostics_setup_def
        diagnostics_init_def example_platform_def list_rings_def Let_def)
  have live: "dh_boot_id ?live = 8" "dh_samples ?live = []" "dh_events ?live = []" "dg_replay_due ?d = 6000"
    "dg_dump_pending ?d" "current_history example_platform ?live = ?live"
    by (simp_all add: example_boot_def diagnostics_setup_def diagnostics_init_def request_dump_def
        current_history_def example_platform_def Let_def)
  show ?thesis
    using saved_history_replayed [of ?d list_rings example_saved ?live example_platform 6000
        "[(example_platform, 6250, ?live)]" example_platform 6500 ?live "[]" example_platform 6750 ?live] saved live
    by (auto simp: history_length_def history_lines_def list_rings_def history_valid_def example_platform_def Let_def)
qed

end
