(* ===== verification/Peer_Recovery.thy ===== *)
theory Peer_Recovery
  imports Encrypted_Radio
begin

text \<open>
  \<open>wifi_peer_recovery.cpp\<close> and \<open>recovery_history.cpp\<close>: the phases of a Wi-Fi reconnection that
  queue a re-application of all peers, and the ring of the last 96 recovery events with its
  paced replay to the log. The lines of the replay are results of the model, because
  printing them is what the replay is for; \<open>log_peer_diagnostics\<close> only prints.
\<close>

record RecoveryEvent =
  re_event :: string
  re_uptime :: u32
  re_rx :: u32
  re_tx :: u32
  re_result :: esp_err
  re_peer :: int
  re_channel :: int

definition RecoveryEvent_init :: RecoveryEvent where
  "RecoveryEvent_init =
     \<lparr>re_event = [], re_uptime = 0, re_rx = 0, re_tx = 0, re_result = ESP_OK, re_peer = -1, re_channel = -1\<rparr>"

abbreviation (input) RECOVERY_HISTORY_SIZE :: nat where "RECOVERY_HISTORY_SIZE \<equiv> 96"

text \<open>\<open>pw_diagnostics\<close> is the build flag \<open>USE_ESPNOW_NET_PROTOCOL_DIAGNOSTICS\<close>, \<open>pw_wifi\<close> whether a
  Wi-Fi component has been registered.\<close>

record PeerRecovery =
  pw_diagnostics :: bool
  pw_history :: "RecoveryEvent list"
  pw_replay :: "RecoveryEvent list"
  pw_next :: nat
  pw_count :: nat
  pw_replay_count :: nat
  pw_replay_index :: nat
  pw_total :: u32
  pw_dump_due :: u32
  pw_dump_requested :: bool
  pw_dump_active :: bool
  pw_attempt :: bool
  pw_pending :: bool
  pw_wifi :: bool

definition recovery_init :: "bool \<Rightarrow> PeerRecovery" where
  "recovery_init diagnostics =
     \<lparr>pw_diagnostics = diagnostics, pw_history = replicate RECOVERY_HISTORY_SIZE RecoveryEvent_init,
      pw_replay = replicate RECOVERY_HISTORY_SIZE RecoveryEvent_init, pw_next = 0, pw_count = 0,
      pw_replay_count = 0, pw_replay_index = 0, pw_total = 0, pw_dump_due = 0, pw_dump_requested = False,
      pw_dump_active = False, pw_attempt = False, pw_pending = False, pw_wifi = False\<rparr>"

subsection \<open>The history\<close>

definition history_put :: "RecoveryEvent \<Rightarrow> PeerRecovery \<Rightarrow> PeerRecovery" where
  "history_put e p =
     p\<lparr>pw_history := (pw_history p)[pw_next p := e],
       pw_next := (pw_next p + 1) mod RECOVERY_HISTORY_SIZE,
       pw_count := (if pw_count p < RECOVERY_HISTORY_SIZE then pw_count p + 1 else pw_count p),
       pw_total := pw_total p + 1\<rparr>"

definition record_recovery_event ::
    "EspIdf \<Rightarrow> u32 \<Rightarrow> EspIdfEspNowEncryptedRadio \<Rightarrow> string \<Rightarrow> esp_err \<Rightarrow> int \<Rightarrow> PeerRecovery \<Rightarrow> PeerRecovery" where
  "record_recovery_event idf millis r event result peer p =
     (if \<not> pw_diagnostics p then p
      else history_put
        \<lparr>re_event = event, re_uptime = millis, re_rx = nr_received_frame_count r, re_tx = nr_sent_frame_count r,
         re_result = result, re_peer = peer,
         re_channel = (case idf_channel idf of Some channel \<Rightarrow> uint channel | None \<Rightarrow> -1)\<rparr> p)"

definition request_recovery_history :: "u32 \<Rightarrow> PeerRecovery \<Rightarrow> PeerRecovery" where
  "request_recovery_history millis p =
     (if \<not> pw_diagnostics p then p else p\<lparr>pw_dump_requested := True, pw_dump_due := millis + 5000\<rparr>)"

text \<open>The oldest entry first.\<close>

definition history_entry :: "PeerRecovery \<Rightarrow> nat \<Rightarrow> RecoveryEvent" where
  "history_entry p i =
     pw_history p ! ((pw_next p + RECOVERY_HISTORY_SIZE - pw_count p + i) mod RECOVERY_HISTORY_SIZE)"

datatype history_line = HistoryBegin u32 nat u32 | HistoryEvent RecoveryEvent u32 | HistoryEnd

text \<open>\<open>recovery_history_tick_\<close>; \<open>connected\<close> is whether the log client is there (always, without
  \<open>USE_API\<close>).\<close>

definition recovery_history_tick ::
    "bool \<Rightarrow> u32 \<Rightarrow> PeerRecovery \<Rightarrow> history_line option \<times> PeerRecovery" where
  "recovery_history_tick connected now p =
     (if \<not> pw_diagnostics p \<or> (\<not> pw_dump_requested p \<and> \<not> pw_dump_active p) \<or>
         sint (now - pw_dump_due p) < 0 \<or> \<not> connected
      then (None, p)
      else
        (let p1 = p\<lparr>pw_dump_due := now + 250\<rparr> in
         if pw_dump_requested p1 then
           (Some (HistoryBegin now (pw_count p1) (pw_total p1 - of_nat (pw_count p1))),
            p1\<lparr>pw_dump_requested := False, pw_dump_active := True, pw_replay_count := pw_count p1,
               pw_replay_index := 0,
               pw_replay := map (history_entry p1) [0..<pw_count p1] @ drop (pw_count p1) (pw_replay p1)\<rparr>)
         else if pw_replay_index p1 < pw_replay_count p1 then
           (let e = pw_replay p1 ! pw_replay_index p1
            in (Some (HistoryEvent e (now - re_uptime e)), p1\<lparr>pw_replay_index := pw_replay_index p1 + 1\<rparr>))
         else (Some HistoryEnd, p1\<lparr>pw_dump_active := False\<rparr>)))"

subsection \<open>The phases of a reconnection\<close>

definition reconnect_peer_recovery_phase ::
    "EspIdf \<Rightarrow> u32 \<Rightarrow> EspIdfEspNowEncryptedRadio \<Rightarrow> string \<Rightarrow> PeerRecovery \<Rightarrow> PeerRecovery" where
  "reconnect_peer_recovery_phase idf millis r phase p =
     (let note = (\<lambda>event p. record_recovery_event idf millis r event ESP_OK (-1) p);
          p1 = (if phase = ''wifi_connected'' then note ''wifi_connected'' p
                else if phase = ''before_attempt'' then note ''attempt_start'' p
                else if phase = ''retry_after_disconnect''
                then note (if pw_attempt p then ''attempt_failed'' else ''retry_boundary'') p
                else p)
      in if phase = ''wifi_connected'' then
           (let p2 = (if pw_pending p1 then note ''cancel_connected'' p1 else p1)
            in p2\<lparr>pw_attempt := False, pw_pending := False\<rparr>)
         else if phase = ''before_attempt'' then
           (let p2 = (if pw_pending p1 then note ''cancel_next_attempt'' p1 else p1)
            in p2\<lparr>pw_pending := False, pw_attempt := True\<rparr>)
         else if phase = ''retry_after_disconnect'' \<and> pw_attempt p1
         then note ''recovery_queued'' (p1\<lparr>pw_attempt := False, pw_pending := True\<rparr>)
         else p1)"

definition set_wifi_reconnect_recovery :: "PeerRecovery \<Rightarrow> PeerRecovery" where
  "set_wifi_reconnect_recovery p = p\<lparr>pw_wifi := True\<rparr>"

text \<open>Whether the registered Wi-Fi component is not in fixed-channel operation or disabled.\<close>

definition wifi_out_of_service :: "EspIdf \<Rightarrow> bool \<Rightarrow> PeerRecovery \<Rightarrow> bool" where
  "wifi_out_of_service idf disabled p \<longleftrightarrow>
     idf_fixed_channel idf \<and> pw_wifi p \<and> (\<not> idf_wifi_fixed_operation idf \<or> disabled)"

definition reapply_peers :: "EspIdf \<Rightarrow> u32 \<Rightarrow> EspIdfEspNowEncryptedRadio \<Rightarrow> PeerRecovery \<Rightarrow> PeerRecovery" where
  "reapply_peers idf millis r p =
     fold (\<lambda>i p. record_recovery_event idf millis r ''peer_reapply''
                   (diagnostic_reapply_peer idf (of_nat i) r) (int i) p)
       [0..<pr_size (nr_peers r)] p"

text \<open>\<open>reconnect_peer_recovery_tick_\<close>; \<open>usable\<close> stands for \<open>runtime_enabled_ && !is_failed()\<close>.\<close>

definition reconnect_peer_recovery_tick ::
    "EspIdf \<Rightarrow> bool \<Rightarrow> bool \<Rightarrow> bool \<Rightarrow> u32 \<Rightarrow> bool \<Rightarrow> EspIdfEspNowEncryptedRadio \<Rightarrow> PeerRecovery \<Rightarrow> PeerRecovery" where
  "reconnect_peer_recovery_tick idf connected disabled usable millis idle r p =
     (let p1 = snd (recovery_history_tick connected millis p) in
      if wifi_out_of_service idf disabled p1 then p1\<lparr>pw_attempt := False, pw_pending := False\<rparr>
      else if \<not> usable \<or> \<not> nr_initialized r then p1
      else if pw_pending p1 \<and> idle then reapply_peers idf millis r (p1\<lparr>pw_pending := False\<rparr>)
      else p1)"

subsection \<open>What the history holds\<close>

definition history_events :: "PeerRecovery \<Rightarrow> RecoveryEvent list" where
  "history_events p = map (history_entry p) [0..<pw_count p]"

definition history_wf :: "PeerRecovery \<Rightarrow> bool" where
  "history_wf p \<longleftrightarrow>
     length (pw_history p) = RECOVERY_HISTORY_SIZE \<and> length (pw_replay p) = RECOVERY_HISTORY_SIZE \<and>
     pw_next p < RECOVERY_HISTORY_SIZE \<and> pw_count p \<le> RECOVERY_HISTORY_SIZE \<and>
     pw_replay_count p \<le> RECOVERY_HISTORY_SIZE \<and> pw_replay_index p \<le> pw_replay_count p"

definition last_entries :: "nat \<Rightarrow> 'a list \<Rightarrow> 'a list" where
  "last_entries n xs = drop (length xs - n) xs"

text \<open>One poll of the replay after another, at the given times, each with a list of events that the
  component records after it.\<close>

primrec replay_polls ::
    "(u32 \<times> RecoveryEvent list) list \<Rightarrow> PeerRecovery \<Rightarrow> history_line list \<times> PeerRecovery" where
  "replay_polls [] p = ([], p)"
| "replay_polls (x # xs) p =
     (let (line, p1) = recovery_history_tick True (fst x) p;
          (lines, p2) = replay_polls xs (fold history_put (snd x) p1)
      in ((case line of None \<Rightarrow> [] | Some l \<Rightarrow> [l]) @ lines, p2))"

text \<open>Every poll comes when the line before it allows the next one, within half the clock's range.\<close>

fun polls_due :: "u32 \<Rightarrow> u32 list \<Rightarrow> bool" where
  "polls_due due [] = True"
| "polls_due due (t # ts) = (0 \<le> sint (t - due) \<and> polls_due (t + 250) ts)"

subsection \<open>The ring refines a list\<close>

lemma history_put_fields [simp]:
  "pw_diagnostics (history_put e p) = pw_diagnostics p" "pw_replay (history_put e p) = pw_replay p"
  "pw_replay_count (history_put e p) = pw_replay_count p" "pw_replay_index (history_put e p) = pw_replay_index p"
  "pw_dump_due (history_put e p) = pw_dump_due p" "pw_dump_requested (history_put e p) = pw_dump_requested p"
  "pw_dump_active (history_put e p) = pw_dump_active p" "pw_attempt (history_put e p) = pw_attempt p"
  "pw_pending (history_put e p) = pw_pending p" "pw_wifi (history_put e p) = pw_wifi p"
  by (simp_all add: history_put_def)

lemma history_wf_init [simp]: "history_wf (recovery_init b)"
  by (simp add: history_wf_def recovery_init_def)

lemma recovery_init_fields [simp]:
  "history_events (recovery_init b) = []" "pw_diagnostics (recovery_init b) = b" "pw_total (recovery_init b) = 0"
  by (simp_all add: history_events_def recovery_init_def)

lemma history_wf_put: "history_wf p \<Longrightarrow> history_wf (history_put e p)"
  by (simp add: history_wf_def) (simp add: history_put_def)

text \<open>Where the entry written by \<open>history_put\<close> is read again.\<close>

lemma ring_successor: "n < 96 \<Longrightarrow> (n + 1) mod 96 = (if n = 95 then 0 else n + 1 :: nat)"
  by simp

lemma ring_index: "x < 192 \<Longrightarrow> x mod 96 = (if x < 96 then x else x - 96 :: nat)"
  by (simp add: mod_if)

lemma history_slot:
  assumes "n < 96" and "c < 96" and "i \<le> c"
  shows "((n + 1) mod 96 + 96 - (c + 1) + i) mod 96 = (n + 96 - c + i) mod (96 :: nat)"
    and "(n + 96 - c + i) mod 96 = n \<longleftrightarrow> i = c"
  unfolding ring_successor [OF assms(1)]
  using assms by (auto simp: ring_index)

lemma history_slot_full:
  assumes "n < 96" and "i < 96"
  shows "((n + 1) mod 96 + 96 - 96 + i) mod 96 = (n + 96 - 96 + Suc i) mod (96 :: nat)"
    and "(n + 96 - 96 + Suc i) mod 96 = n \<longleftrightarrow> i = 95"
  unfolding ring_successor [OF assms(1)]
  using assms by (auto simp: ring_index)

lemma history_events_put:
  assumes "history_wf p"
  shows "history_events (history_put e p) = last_entries RECOVERY_HISTORY_SIZE (history_events p @ [e])"
proof (cases "pw_count p < RECOVERY_HISTORY_SIZE")
  case True
  then have entry: "history_entry (history_put e p) i = (if i = pw_count p then e else history_entry p i)"
    if "i \<le> pw_count p" for i
    using that assms history_slot [of "pw_next p" "pw_count p" i]
    by (auto simp: history_wf_def history_entry_def history_put_def nth_list_update)
  have "history_events (history_put e p) = map (history_entry (history_put e p)) [0..<Suc (pw_count p)]"
    using True by (simp add: history_events_def history_put_def)
  also have "\<dots> = history_events p @ [e]"
    by (simp add: history_events_def entry)
  finally show ?thesis using True by (simp add: last_entries_def history_events_def)
next
  case False
  then have full: "pw_count p = 96" "pw_count (history_put e p) = 96"
    using assms by (auto simp: history_wf_def history_put_def)
  have entry: "history_entry (history_put e p) i = (if i = 95 then e else history_entry p (Suc i))" if "i < 96" for i
    using that assms full history_slot_full [of "pw_next p" i]
    by (auto simp: history_wf_def history_entry_def history_put_def nth_list_update)
  have "[0..<96] = [0..<Suc (95 :: nat)]" by simp
  then have "history_events (history_put e p) = map (\<lambda>i. history_entry p (Suc i)) [0..<95] @ [e]"
    by (simp only: history_events_def full upt_Suc) (simp add: entry)
  also have "\<dots> = drop 1 (history_events p) @ [e]"
    using arg_cong [of _ _ "map (history_entry p)", OF map_Suc_upt [of 0 95]]
    by (simp add: history_events_def full drop_map comp_def del: upt_rec_numeral)
  finally show ?thesis
    by (simp add: last_entries_def history_events_def full del: upt_rec_numeral)
qed

lemma last_entries_snoc: "last_entries n (last_entries n xs @ [x]) = last_entries n (xs @ [x])"
  by (cases "length xs \<le> n") (auto simp: last_entries_def Suc_diff_le)

lemma history_events_fold:
  assumes "history_wf p" and "history_events p = last_entries RECOVERY_HISTORY_SIZE xs"
  shows "history_wf (fold history_put es p) \<and>
    history_events (fold history_put es p) = last_entries RECOVERY_HISTORY_SIZE (xs @ es)"
  using assms
proof (induction es arbitrary: p xs)
  case (Cons e es)
  from Cons.IH [of "history_put e p" "xs @ [e]"] Cons.prems show ?case
    by (simp add: history_wf_put history_events_put last_entries_snoc)
qed simp

lemma fold_history_put_fields [simp]:
  "pw_diagnostics (fold history_put es p) = pw_diagnostics p" "pw_replay (fold history_put es p) = pw_replay p"
  "pw_replay_count (fold history_put es p) = pw_replay_count p"
  "pw_replay_index (fold history_put es p) = pw_replay_index p"
  "pw_dump_due (fold history_put es p) = pw_dump_due p"
  "pw_dump_requested (fold history_put es p) = pw_dump_requested p"
  "pw_dump_active (fold history_put es p) = pw_dump_active p"
  by (induction es arbitrary: p) simp_all

subsection \<open>The replay\<close>

lemma replay_rest:
  assumes "pw_diagnostics p" and "pw_dump_active p" and "\<not> pw_dump_requested p"
    and "polls_due (pw_dump_due p) (map fst polls)" and "pw_replay_index p \<le> pw_replay_count p"
    and "pw_replay_count p \<le> length (pw_replay p)" and "length polls = Suc (pw_replay_count p - pw_replay_index p)"
  shows "fst (replay_polls polls p) =
      map2 (\<lambda>e t. HistoryEvent e (t - re_uptime e))
        (drop (pw_replay_index p) (take (pw_replay_count p) (pw_replay p))) (map fst polls) @ [HistoryEnd] \<and>
    \<not> pw_dump_active (snd (replay_polls polls p))"
  using assms
proof (induction polls arbitrary: p)
  case (Cons x polls)
  let ?i = "pw_replay_index p"
  let ?q = "fold history_put (snd x) (snd (recovery_history_tick True (fst x) p))"
  show ?case
  proof (cases "?i < pw_replay_count p")
    case True
    then have tick: "recovery_history_tick True (fst x) p =
        (Some (HistoryEvent (pw_replay p ! ?i) (fst x - re_uptime (pw_replay p ! ?i))),
         p\<lparr>pw_dump_due := fst x + 250, pw_replay_index := Suc ?i\<rparr>)"
      using Cons.prems by (simp add: recovery_history_tick_def Let_def)
    have "drop ?i (take (pw_replay_count p) (pw_replay p)) =
        pw_replay p ! ?i # drop (Suc ?i) (take (pw_replay_count p) (pw_replay p))"
      using True Cons.prems(6) by (simp add: Cons_nth_drop_Suc [symmetric])
    then show ?thesis using Cons.IH [of ?q] Cons.prems True by (simp add: tick Let_def case_prod_beta)
  next
    case False
    then have "polls = []" and "recovery_history_tick True (fst x) p =
        (Some HistoryEnd, p\<lparr>pw_dump_due := fst x + 250, pw_dump_active := False\<rparr>)"
      using Cons.prems by (simp_all add: recovery_history_tick_def Let_def)
    then show ?thesis using False Cons.prems(5) by simp
  qed
qed simp

subsection \<open>Properties\<close>

text \<open>C34 (refinement): the ring of recovery events behaves like a list cut to its last 96 entries, and
  a requested replay prints exactly those, oldest first with their ages, between a header
  that says how many were overwritten and a closing line; events recorded while the replay
  runs do not disturb it.\<close>

theorem recovery_history_replays_last_events:
  assumes "p = request_recovery_history t (fold history_put es (recovery_init True))"
    and "polls_due (t + 5000) (map fst polls)"
    and "length polls = min 96 (length es) + 2"
  shows "fst (replay_polls polls p) =
      HistoryBegin (fst (hd polls)) (min 96 (length es)) (of_nat (length es - 96)) #
      map2 (\<lambda>e t. HistoryEvent e (t - re_uptime e)) (last_entries 96 es) (map fst (tl polls)) @ [HistoryEnd]"
proof -
  have total: "pw_total (fold history_put es q) = pw_total q + of_nat (length es)" for q
    by (induction es arbitrary: q) (simp_all add: history_put_def)
  let ?f = "fold history_put es (recovery_init True)"
  have f: "history_wf ?f" "history_events ?f = last_entries 96 es"
    using history_events_fold [of "recovery_init True" "[]" es] by (simp_all add: last_entries_def)
  have "pw_count ?f = length (history_events ?f)" by (simp add: history_events_def)
  then have count: "pw_count ?f = min 96 (length es)" by (simp add: f(2) last_entries_def min_def)
  obtain x rest where polls: "polls = x # rest" using assms(3) by (cases polls) auto
  define q where "q = p\<lparr>pw_dump_due := fst x + 250, pw_dump_requested := False, pw_dump_active := True,
    pw_replay_count := pw_count p, pw_replay_index := 0,
    pw_replay := last_entries 96 es @ drop (pw_count p) (pw_replay p)\<rparr>"
  have entry: "history_entry (q\<lparr>pw_dump_requested := b\<rparr>) = history_entry q"
      "history_entry (q\<lparr>pw_dump_due := d\<rparr>) = history_entry q" for q b d
    by (simp_all add: history_entry_def fun_eq_iff)
  have p: "pw_count p = min 96 (length es)" "pw_diagnostics p" "pw_dump_requested p" "pw_dump_due p = t + 5000"
      "pw_total p = of_nat (length es)" "map (history_entry p) [0..<pw_count p] = last_entries 96 es"
    using assms(1) f(2) count total [of "recovery_init True"]
    by (simp_all add: request_recovery_history_def history_events_def entry)
  have tick: "recovery_history_tick True (fst x) p =
      (Some (HistoryBegin (fst x) (pw_count p) (pw_total p - of_nat (pw_count p))), q)"
    using p(2,3,4) assms(2) by (simp add: polls recovery_history_tick_def Let_def q_def entry p(6))
  have len: "length (last_entries 96 es) = pw_count p" by (simp add: p(1) last_entries_def)
  then have "fst (replay_polls rest (fold history_put (snd x) q)) =
      map2 (\<lambda>e t. HistoryEvent e (t - re_uptime e)) (last_entries 96 es) (map fst rest) @ [HistoryEnd]"
    using replay_rest [of "fold history_put (snd x) q" rest] assms(2,3) p(1,2) by (simp add: polls q_def)
  moreover have "pw_total p - of_nat (pw_count p) = of_nat (length es - 96)"
    by (simp add: p(1,5) min_def)
  ultimately show ?thesis by (simp add: polls tick case_prod_beta p(1))
qed

lemma recovery_history_replays_last_events_witness:
  "fst (replay_polls [(6000, []), (6300, [RecoveryEvent_init]), (7000, [])]
     (request_recovery_history 900 (fold history_put [RecoveryEvent_init\<lparr>re_uptime := 40\<rparr>] (recovery_init True)))) =
   [HistoryBegin 6000 1 0, HistoryEvent (RecoveryEvent_init\<lparr>re_uptime := 40\<rparr>) 6260, HistoryEnd]"
  using recovery_history_replays_last_events
    [OF refl, of 900 "[(6000, []), (6300, [RecoveryEvent_init]), (7000, [])]" "[RecoveryEvent_init\<lparr>re_uptime := 40\<rparr>]"]
  by (simp add: last_entries_def RecoveryEvent_init_def)

end
