(* ===== verification/Reliable_Sender.thy ===== *)
theory Reliable_Sender
  imports Reliability
begin

text \<open>
  \<open>reliable_sender.h\<close>: the sender of one message at a time. It cuts the message into
  frames, hands them out one by one, and drives the delivery machine of
  \<open>reliability.h\<close> with the completions and acknowledgements it is given.
\<close>

datatype ReliableSenderState =
    IDLE | READY | FRAME_IN_FLIGHT | WAITING_FOR_ACK | ACKNOWLEDGED | REJECTED | TIMED_OUT

record ReliableMessageSender =
  rs_local_boot_id :: u64
  rs_sequence :: u32
  rs_peer_index :: PeerIndex
  rs_delivery :: EspNowReliableDelivery
  rs_envelope :: EspNowFrameEnvelope
  rs_message :: bytes
  rs_fragment_count :: u8
  rs_fragment_index :: u8
  rs_frame_in_flight :: bool
  rs_state :: ReliableSenderState

definition sender_init :: ReliableMessageSender where
  "sender_init =
     \<lparr>rs_local_boot_id = 0, rs_sequence = 0, rs_peer_index = INVALID_PEER_INDEX,
      rs_delivery = delivery_init, rs_envelope = EspNowFrameEnvelope_init, rs_message = [],
      rs_fragment_count = 0, rs_fragment_index = 0, rs_frame_in_flight = False,
      rs_state = ReliableSenderState.IDLE\<rparr>"

definition sender_configure ::
    "u64 \<Rightarrow> EspNowRetryPolicy \<Rightarrow> ReliableMessageSender \<Rightarrow> bool \<times> ReliableMessageSender" where
  "sender_configure local_boot_id policy s =
     (if rs_state s \<noteq> ReliableSenderState.IDLE \<or> local_boot_id = 0 then (False, s)
      else case delivery_configure policy (rs_delivery s) of
        (False, d) \<Rightarrow> (False, s\<lparr>rs_delivery := d\<rparr>)
      | (True, d) \<Rightarrow> (True, s\<lparr>rs_delivery := d, rs_local_boot_id := local_boot_id\<rparr>))"

definition sender_reset :: "ReliableMessageSender \<Rightarrow> ReliableMessageSender" where
  "sender_reset s =
     s\<lparr>rs_delivery := delivery_reset (rs_delivery s), rs_message := [],
       rs_envelope := EspNowFrameEnvelope_init, rs_peer_index := INVALID_PEER_INDEX,
       rs_fragment_count := 0, rs_fragment_index := 0, rs_frame_in_flight := False,
       rs_state := ReliableSenderState.IDLE\<rparr>"

definition next_sequence :: "u32 \<Rightarrow> u32" where
  "next_sequence sequence = (if sequence + 1 = 0 then 1 else sequence + 1)"

definition sender_start ::
    "PeerIndex \<Rightarrow> EspNowFrameKind \<Rightarrow> TransactionId \<Rightarrow> span \<Rightarrow>
     ReliableMessageSender \<Rightarrow> bool \<times> ReliableMessageSender" where
  "sender_start peer_index kind transaction_id message s =
     (if rs_local_boot_id s = 0 \<or> rs_state s \<noteq> ReliableSenderState.IDLE \<or>
         peer_index = INVALID_PEER_INDEX \<or> transaction_id = 0 \<or>
         kind = EspNowFrameKind.ACK \<or> message = None
      then (False, s)
      else
        (let message_size = length (the message);
             (assigned, data) = bytes_assign MAX_MESSAGE_SIZE message message_size;
             s1 = s\<lparr>rs_message := data\<rparr>;
             count = fragment_count message_size
         in if \<not> assigned \<or> count = 0 then (False, s1)
            else
              (let sequence = next_sequence (rs_sequence s1);
                   s2 = s1\<lparr>rs_sequence := sequence,
                           rs_envelope := \<lparr>env_kind = kind, env_flags = FLAG_ACK_REQUIRED,
                             env_source_boot_id = rs_local_boot_id s1,
                             env_transaction_id = transaction_id, env_sequence = sequence\<rparr>,
                           rs_peer_index := peer_index, rs_fragment_count := count,
                           rs_fragment_index := 0, rs_frame_in_flight := False\<rparr>
               in case delivery_start \<lparr>dk_source_boot_id = rs_local_boot_id s2,
                         dk_transaction_id = transaction_id, dk_sequence = sequence\<rparr> (rs_delivery s2) of
                    (False, d) \<Rightarrow> (False, sender_reset (s2\<lparr>rs_delivery := d\<rparr>))
                  | (True, d) \<Rightarrow> (True, s2\<lparr>rs_delivery := d, rs_state := READY\<rparr>))))"

definition sender_loop :: "u32 \<Rightarrow> ReliableMessageSender \<Rightarrow> ReliableMessageSender" where
  "sender_loop now_ms s =
     (let s1 = s\<lparr>rs_delivery := delivery_loop now_ms (rs_delivery s)\<rparr> in
      case rd_state (rs_delivery s1) of
        EspNowDeliveryState.READY_TO_SEND \<Rightarrow>
          (if \<not> rs_frame_in_flight s1 then s1\<lparr>rs_fragment_index := 0, rs_state := READY\<rparr> else s1)
      | EspNowDeliveryState.WAITING_FOR_ACK \<Rightarrow> s1\<lparr>rs_state := ReliableSenderState.WAITING_FOR_ACK\<rparr>
      | EspNowDeliveryState.ACKNOWLEDGED \<Rightarrow> s1\<lparr>rs_state := ReliableSenderState.ACKNOWLEDGED\<rparr>
      | EspNowDeliveryState.REJECTED \<Rightarrow> s1\<lparr>rs_state := ReliableSenderState.REJECTED\<rparr>
      | EspNowDeliveryState.TIMED_OUT \<Rightarrow> s1\<lparr>rs_state := ReliableSenderState.TIMED_OUT\<rparr>
      | EspNowDeliveryState.IDLE \<Rightarrow> s1)"

definition sender_take_frame ::
    "ReliableMessageSender \<Rightarrow> (PeerIndex \<times> bytes) option \<times> ReliableMessageSender" where
  "sender_take_frame s =
     (if rs_state s \<noteq> READY \<or> rs_frame_in_flight s \<or> rs_fragment_index s \<ge> rs_fragment_count s
      then (None, s)
      else case encode_fragment (rs_envelope s) (Some (rs_message s)) (length (rs_message s))
                  (rs_fragment_index s) of
        Inl _ \<Rightarrow> (None, s)
      | Inr frame \<Rightarrow>
          (Some (rs_peer_index s, frame),
           s\<lparr>rs_frame_in_flight := True, rs_state := FRAME_IN_FLIGHT\<rparr>))"

text \<open>The two ends of \<open>complete_frame\<close> that count an attempt.\<close>

definition sender_mark_sent :: "u32 \<Rightarrow> ReliableMessageSender \<Rightarrow> bool \<times> ReliableMessageSender" where
  "sender_mark_sent now_ms s =
     (case delivery_mark_sent now_ms (rs_delivery s) of
        (False, d) \<Rightarrow> (False, s\<lparr>rs_delivery := d\<rparr>)
      | (True, d) \<Rightarrow> (True, s\<lparr>rs_delivery := d, rs_state := ReliableSenderState.WAITING_FOR_ACK\<rparr>))"

definition sender_complete_frame ::
    "bool \<Rightarrow> u32 \<Rightarrow> ReliableMessageSender \<Rightarrow> bool \<times> ReliableMessageSender" where
  "sender_complete_frame succeeded now_ms s =
     (if \<not> rs_frame_in_flight s then (False, s)
      else
        (let s1 = s\<lparr>rs_frame_in_flight := False\<rparr> in
         if \<not> succeeded then sender_mark_sent now_ms s1
         else
           (let s2 = s1\<lparr>rs_fragment_index := rs_fragment_index s1 + 1\<rparr> in
            if rs_fragment_index s2 < rs_fragment_count s2 then (True, s2\<lparr>rs_state := READY\<rparr>)
            else sender_mark_sent now_ms s2)))"

definition sender_accept_ack ::
    "EspNowAckPayload \<Rightarrow> ReliableMessageSender \<Rightarrow> bool \<times> ReliableMessageSender" where
  "sender_accept_ack ack s =
     (case delivery_accept_ack ack (rs_delivery s) of
        (False, d) \<Rightarrow> (False, s\<lparr>rs_delivery := d\<rparr>)
      | (True, d) \<Rightarrow>
          (True, s\<lparr>rs_delivery := d,
                   rs_state := (if rd_state d = EspNowDeliveryState.ACKNOWLEDGED
                                then ReliableSenderState.ACKNOWLEDGED
                                else ReliableSenderState.REJECTED)\<rparr>))"

definition sender_active :: "ReliableMessageSender \<Rightarrow> bool" where
  "sender_active s \<longleftrightarrow>
     rs_state s = READY \<or> rs_state s = FRAME_IN_FLIGHT \<or>
     rs_state s = ReliableSenderState.WAITING_FOR_ACK"

subsection \<open>Vocabulary of the proofs\<close>

datatype sender_event =
    SConfigure u64 EspNowRetryPolicy
  | SStart PeerIndex EspNowFrameKind TransactionId span
  | SLoop u32 | STakeFrame | SComplete bool u32 | SAck EspNowAckPayload | SReset

fun sender_step :: "sender_event \<Rightarrow> ReliableMessageSender \<Rightarrow> ReliableMessageSender" where
  "sender_step (SConfigure b p) s = snd (sender_configure b p s)"
| "sender_step (SStart p k t m) s = snd (sender_start p k t m s)"
| "sender_step (SLoop t) s = sender_loop t s"
| "sender_step STakeFrame s = snd (sender_take_frame s)"
| "sender_step (SComplete ok t) s = snd (sender_complete_frame ok t s)"
| "sender_step (SAck a) s = snd (sender_accept_ack a s)"
| "sender_step SReset s = sender_reset s"

text \<open>The message being sent is legal, its identity is the one the delivery machine waits for,
  and the fragment counters describe it.\<close>

definition sending :: "ReliableMessageSender \<Rightarrow> bool" where
  "sending s \<longleftrightarrow>
     envelope_ok (rs_envelope s) \<and> env_flags (rs_envelope s) = FLAG_ACK_REQUIRED \<and>
     env_kind (rs_envelope s) \<noteq> EspNowFrameKind.ACK \<and> rs_peer_index s \<noteq> INVALID_PEER_INDEX \<and>
     0 < length (rs_message s) \<and> length (rs_message s) \<le> MAX_MESSAGE_SIZE \<and>
     rs_fragment_count s = fragment_count (length (rs_message s)) \<and>
     rd_key (rs_delivery s) =
       \<lparr>dk_source_boot_id = env_source_boot_id (rs_envelope s),
        dk_transaction_id = env_transaction_id (rs_envelope s),
        dk_sequence = env_sequence (rs_envelope s)\<rparr>"

fun states_agree :: "ReliableSenderState \<Rightarrow> EspNowDeliveryState \<Rightarrow> bool" where
  "states_agree ReliableSenderState.IDLE d = (d = EspNowDeliveryState.IDLE)"
| "states_agree READY d = (d = READY_TO_SEND)"
| "states_agree FRAME_IN_FLIGHT d = (d = READY_TO_SEND)"
| "states_agree ReliableSenderState.WAITING_FOR_ACK d = (d = EspNowDeliveryState.WAITING_FOR_ACK)"
| "states_agree ReliableSenderState.ACKNOWLEDGED d = (d = EspNowDeliveryState.ACKNOWLEDGED)"
| "states_agree ReliableSenderState.REJECTED d = (d = EspNowDeliveryState.REJECTED)"
| "states_agree ReliableSenderState.TIMED_OUT d = (d = EspNowDeliveryState.TIMED_OUT)"

definition sender_inv :: "ReliableMessageSender \<Rightarrow> bool" where
  "sender_inv s \<longleftrightarrow>
     delivery_inv (rs_delivery s) \<and> states_agree (rs_state s) (rd_state (rs_delivery s)) \<and>
     (rs_frame_in_flight s \<longleftrightarrow> rs_state s = FRAME_IN_FLIGHT) \<and>
     (rs_state s \<noteq> ReliableSenderState.IDLE \<longrightarrow> sending s) \<and>
     (rs_state s = READY \<or> rs_state s = FRAME_IN_FLIGHT \<longrightarrow> rs_fragment_index s < rs_fragment_count s)"

text \<open>A frame handed to the radio and reported sent, \<open>n\<close> times in a row.\<close>

primrec send_frames :: "nat \<Rightarrow> u32 \<Rightarrow> ReliableMessageSender \<Rightarrow> bytes list \<times> ReliableMessageSender" where
  "send_frames 0 now s = ([], s)"
| "send_frames (Suc n) now s =
     (case sender_take_frame s of
        (None, s1) \<Rightarrow> ([], s1)
      | (Some (peer, f), s1) \<Rightarrow>
          (let (fs, s2) = send_frames n now (snd (sender_complete_frame True now s1)) in (f # fs, s2)))"

definition start_refused ::
    "PeerIndex \<Rightarrow> EspNowFrameKind \<Rightarrow> TransactionId \<Rightarrow> span \<Rightarrow> ReliableMessageSender \<Rightarrow> bool" where
  "start_refused p k t v s \<longleftrightarrow>
     rs_local_boot_id s = 0 \<or> rs_state s \<noteq> ReliableSenderState.IDLE \<or> p = INVALID_PEER_INDEX \<or>
     t = 0 \<or> k = EspNowFrameKind.ACK \<or> v = None"

lemmas sender_defs [state_defs] = sender_configure_def sender_reset_def sender_loop_def
  sender_take_frame_def sender_mark_sent_def sender_complete_frame_def sender_accept_ack_def

subsection \<open>The invariant\<close>

lemma next_sequence_nonzero [simp]: "next_sequence q \<noteq> 0"
  by (simp add: next_sequence_def)

lemma sender_init_inv: "sender_inv sender_init"
  using delivery_machine.inv_start by (simp add: sender_inv_def sender_init_def delivery_init_def)

lemmas delivery_kept = delivery_machine.inv_step [where e = "DStart k" for k, simplified]
  delivery_machine.inv_step [where e = "DMarkSent t" for t, simplified]
  delivery_machine.inv_step [where e = "DLoop t" for t, simplified]
  delivery_machine.inv_step [where e = "DAck a" for a, simplified]
  delivery_machine.inv_step [where e = "DReset", simplified]
  delivery_machine.inv_step [where e = "DConfigure p" for p, simplified]

lemma sender_reset_inv: "sender_inv s \<Longrightarrow> sender_inv (sender_reset s)"
  using delivery_kept(5) by (simp add: sender_inv_def sender_reset_def) (simp add: delivery_reset_def)

lemma sender_configure_inv: "sender_inv s \<Longrightarrow> sender_inv (snd (sender_configure b p s))"
  using delivery_kept(6) [of "rs_delivery s" p]
  by (auto simp: sender_inv_def sender_configure_def delivery_configure_def split: if_splits)

text \<open>In every reachable state \<open>start\<close> either changes nothing, or only empties the message
  buffer, or accepts: its own recovery branch is never taken.\<close>

lemma sender_start_eq:
  assumes "sender_inv s"
  shows "sender_start p k t v s =
    (if start_refused p k t v s then (False, s)
     else if the v = [] \<or> length (the v) > MAX_MESSAGE_SIZE then (False, s\<lparr>rs_message := []\<rparr>)
     else
       (True,
        s\<lparr>rs_message := the v, rs_sequence := next_sequence (rs_sequence s),
          rs_envelope := \<lparr>env_kind = k, env_flags = FLAG_ACK_REQUIRED,
            env_source_boot_id = rs_local_boot_id s, env_transaction_id = t,
            env_sequence = next_sequence (rs_sequence s)\<rparr>,
          rs_peer_index := p, rs_fragment_count := fragment_count (length (the v)),
          rs_fragment_index := 0, rs_frame_in_flight := False,
          rs_delivery := (rs_delivery s)\<lparr>rd_key := \<lparr>dk_source_boot_id = rs_local_boot_id s,
              dk_transaction_id = t, dk_sequence = next_sequence (rs_sequence s)\<rparr>,
            rd_attempt_count := 0, rd_deadline_ms := 0, rd_state := READY_TO_SEND\<rparr>,
          rs_state := READY\<rparr>))"
proof (cases "start_refused p k t v s")
  case False
  then obtain m where v: "v = Some m" and idle: "rd_state (rs_delivery s) = EspNowDeliveryState.IDLE"
    using assms by (auto simp: start_refused_def sender_inv_def)
  have "fragment_count (length m) \<noteq> 0 \<longleftrightarrow> m \<noteq> [] \<and> length m \<le> MAX_MESSAGE_SIZE"
    by (simp add: fragment_count_nonzero_iff)
  moreover have "bytes_assign MAX_MESSAGE_SIZE (Some m) (length m) =
      (if length m \<le> MAX_MESSAGE_SIZE then (True, m) else (False, []))"
    by (simp add: bytes_assign_def bytes_accepts_def)
  ultimately show ?thesis
    using False v idle unfolding start_refused_def sender_start_def
    by (auto simp: Let_def delivery_start_def delivery_active_def DeliveryIdentity_valid_def)
qed (simp add: sender_start_def start_refused_def)

lemma delivery_inv_started:
  "\<lbrakk>delivery_inv d; DeliveryIdentity_valid k\<rbrakk> \<Longrightarrow>
     delivery_inv (d\<lparr>rd_key := k, rd_attempt_count := 0, rd_deadline_ms := t, rd_state := READY_TO_SEND\<rparr>)"
  by (simp add: delivery_inv_def EspNowRetryPolicy_valid_def word_gt_0)

lemma sender_start_inv:
  assumes "sender_inv s"
  shows "sender_inv (snd (sender_start p k t v s))"
proof (cases "start_refused p k t v s \<or> the v = [] \<or> length (the v) > MAX_MESSAGE_SIZE")
  case True
  moreover have "sender_inv (s\<lparr>rs_message := []\<rparr>)" if "\<not> start_refused p k t v s"
    using assms that by (simp add: sender_inv_def start_refused_def)
  ultimately show ?thesis using assms by (auto simp: sender_start_eq [OF assms])
next
  case False
  then have "0 < fragment_count (length (the v))"
    using fragment_count_nonzero_iff [of "length (the v)"] by (simp add: word_gt_0)
  moreover have "delivery_inv (rs_delivery s)" using assms by (simp add: sender_inv_def)
  ultimately show ?thesis
    using False unfolding sender_start_eq [OF assms]
    by (auto simp: sender_inv_def sending_def start_refused_def envelope_ok_def
        delivery_inv_started DeliveryIdentity_valid_def)
qed

lemma delivery_loop_fields [simp]:
  "rd_key (delivery_loop t d) = rd_key d" "rd_policy (delivery_loop t d) = rd_policy d"
  "rd_attempt_count (delivery_loop t d) = rd_attempt_count d"
  "rd_state d \<noteq> EspNowDeliveryState.WAITING_FOR_ACK \<Longrightarrow> delivery_loop t d = d"
  "rd_state (delivery_loop t d) = EspNowDeliveryState.IDLE \<longleftrightarrow> rd_state d = EspNowDeliveryState.IDLE"
  by (simp_all add: delivery_loop_def)

lemma sender_loop_inv:
  assumes "sender_inv s"
  shows "sender_inv (sender_loop t s)"
proof -
  have "delivery_inv (delivery_loop t (rs_delivery s))"
    using assms delivery_kept(3) by (simp add: sender_inv_def)
  moreover have "0 < rs_fragment_count s" if "sending s"
    using that fragment_count_nonzero_iff [of "length (rs_message s)"] by (simp add: sending_def word_gt_0)
  moreover have "rd_state (delivery_loop t (rs_delivery s)) \<noteq> EspNowDeliveryState.IDLE \<Longrightarrow>
      rs_state s \<noteq> ReliableSenderState.IDLE"
    using assms by (auto simp: sender_inv_def)
  ultimately show ?thesis
    using assms
    by (cases "rs_state s"; cases "rd_state (delivery_loop t (rs_delivery s))")
      (auto simp: sender_inv_def sender_loop_def sending_def Let_def)
qed

lemma sender_take_frame_eq:
  assumes "sender_inv s"
  shows "sender_take_frame s =
    (if rs_state s = READY
     then (Some (rs_peer_index s, frame_of (rs_envelope s) (rs_message s) (rs_fragment_index s)),
           s\<lparr>rs_frame_in_flight := True, rs_state := FRAME_IN_FLIGHT\<rparr>)
     else (None, s))"
  using assms encode_fragment_ok [of "rs_envelope s" "rs_fragment_index s" "rs_message s"]
  by (auto simp: sender_take_frame_def sender_inv_def sending_def frame_of_def not_le)

lemma sender_take_frame_inv: "sender_inv s \<Longrightarrow> sender_inv (snd (sender_take_frame s))"
  by (auto simp: sender_take_frame_eq) (auto simp: sender_inv_def sending_def)

text \<open>A completed frame is followed by the next one, or the attempt is counted; the delivery
  machine never refuses to count it.\<close>

lemma sender_complete_frame_eq:
  assumes "sender_inv s" and "rs_frame_in_flight s"
  shows "sender_complete_frame ok now s =
    (True,
     if ok \<and> rs_fragment_index s + 1 < rs_fragment_count s
     then s\<lparr>rs_frame_in_flight := False, rs_fragment_index := rs_fragment_index s + 1, rs_state := READY\<rparr>
     else s\<lparr>rs_frame_in_flight := False,
            rs_fragment_index := rs_fragment_index s + (if ok then 1 else 0),
            rs_delivery := snd (delivery_mark_sent now (rs_delivery s)),
            rs_state := ReliableSenderState.WAITING_FOR_ACK\<rparr>)"
proof -
  have "rd_state (rs_delivery s) = READY_TO_SEND" and "delivery_inv (rs_delivery s)"
    using assms by (auto simp: sender_inv_def)
  then obtain d where "delivery_mark_sent now (rs_delivery s) = (True, d)"
    by (simp add: delivery_mark_sent_def delivery_inv_def not_le)
  then show ?thesis
    using assms(2) by (auto simp: sender_complete_frame_def sender_mark_sent_def Let_def)
qed

lemma sender_complete_frame_inv:
  assumes "sender_inv s"
  shows "sender_inv (snd (sender_complete_frame ok now s))"
proof (cases "rs_frame_in_flight s")
  case True
  then have st: "rs_state s = FRAME_IN_FLIGHT" "rd_state (rs_delivery s) = READY_TO_SEND"
      "delivery_inv (rs_delivery s)" "sending s"
    using assms by (auto simp: sender_inv_def)
  have "delivery_inv (snd (delivery_mark_sent now (rs_delivery s)))" using st delivery_kept(2) by simp
  moreover have "rd_state (snd (delivery_mark_sent now (rs_delivery s))) = EspNowDeliveryState.WAITING_FOR_ACK"
    and "rd_key (snd (delivery_mark_sent now (rs_delivery s))) = rd_key (rs_delivery s)"
    using st by (auto simp: delivery_mark_sent_def delivery_inv_def)
  ultimately show ?thesis
    unfolding sender_complete_frame_eq [OF assms True] using st
    by (auto simp: sender_inv_def sending_def)
qed (use assms in \<open>simp add: sender_complete_frame_def\<close>)

lemma sender_accept_ack_inv:
  assumes "sender_inv s"
  shows "sender_inv (snd (sender_accept_ack a s))"
proof -
  have "delivery_inv (snd (delivery_accept_ack a (rs_delivery s)))"
    using assms delivery_kept(4) by (simp add: sender_inv_def)
  then show ?thesis
    using assms
    by (cases "rs_state s")
      (auto simp: sender_inv_def sender_accept_ack_def delivery_accept_ack_def sending_def split: if_splits)
qed

interpretation sender_machine: invariant_machine sender_init sender_step sender_inv
proof
  show "sender_inv sender_init" by (rule sender_init_inv)
  show "sender_inv (sender_step e s)" if "sender_inv s" for e s
    using that by (cases e) (auto intro: sender_configure_inv sender_start_inv sender_loop_inv
        sender_take_frame_inv sender_complete_frame_inv sender_accept_ack_inv sender_reset_inv)
qed

subsection \<open>Sending all fragments\<close>

lemma ready_mark_sent:
  assumes "sender_inv s" and "rs_state s = READY"
  shows "delivery_mark_sent now (rs_delivery s) =
    (True, (rs_delivery s)\<lparr>rd_attempt_count := rd_attempt_count (rs_delivery s) + 1,
       rd_deadline_ms := now + rp_ack_timeout_ms (rd_policy (rs_delivery s)),
       rd_state := EspNowDeliveryState.WAITING_FOR_ACK\<rparr>)"
proof -
  have "rd_state (rs_delivery s) = READY_TO_SEND" and inv: "delivery_inv (rs_delivery s)"
    using assms by (auto simp: sender_inv_def)
  moreover from this have "rd_attempt_count (rs_delivery s) < rp_max_attempts (rd_policy (rs_delivery s))"
    by (simp add: delivery_inv_def)
  ultimately show ?thesis by (simp add: mark_sent_ready)
qed

lemma send_frames_all:
  assumes "sender_inv s" and "rs_state s = READY"
    and "unat (rs_fragment_index s) + n = unat (rs_fragment_count s)" and "0 < n"
  shows "fst (send_frames n now s) =
      map (\<lambda>i. frame_of (rs_envelope s) (rs_message s) (of_nat i))
        [unat (rs_fragment_index s)..<unat (rs_fragment_count s)] \<and>
    sender_inv (snd (send_frames n now s)) \<and>
    rs_state (snd (send_frames n now s)) = ReliableSenderState.WAITING_FOR_ACK \<and>
    rs_delivery (snd (send_frames n now s)) = snd (delivery_mark_sent now (rs_delivery s))"
  using assms
proof (induction n arbitrary: s)
  case (Suc n)
  let ?s1 = "snd (sender_take_frame s)"
  let ?s2 = "snd (sender_complete_frame True now ?s1)"
  have inv1: "sender_inv ?s1" using sender_take_frame_inv [OF Suc.prems(1)] .
  have fl: "rs_frame_in_flight ?s1" using Suc.prems by (simp add: sender_take_frame_eq)
  have inv2: "sender_inv ?s2" using sender_complete_frame_inv [OF inv1] .
  have lt: "rs_fragment_index s < rs_fragment_count s" using Suc.prems by (simp add: sender_inv_def)
  then have "rs_fragment_index s \<noteq> - 1" by (metis not_le word_n1_ge)
  note idx = unat_plus_one [OF this]
  have upt: "[unat (rs_fragment_index s)..<unat (rs_fragment_count s)] =
      unat (rs_fragment_index s) # [Suc (unat (rs_fragment_index s))..<unat (rs_fragment_count s)]"
    using lt by (simp add: upt_conv_Cons word_less_nat_alt)
  have step: "?s2 = (if 0 < n
      then s\<lparr>rs_frame_in_flight := False, rs_fragment_index := rs_fragment_index s + 1, rs_state := READY\<rparr>
      else s\<lparr>rs_frame_in_flight := False, rs_fragment_index := rs_fragment_index s + 1,
             rs_delivery := snd (delivery_mark_sent now (rs_delivery s)),
             rs_state := ReliableSenderState.WAITING_FOR_ACK\<rparr>)"
    using Suc.prems idx unfolding sender_complete_frame_eq [OF inv1 fl]
    by (auto simp: sender_take_frame_eq word_less_nat_alt)
  have send: "send_frames (Suc n) now s =
      (let (fs, s3) = send_frames n now ?s2
       in (frame_of (rs_envelope s) (rs_message s) (rs_fragment_index s) # fs, s3))"
    using Suc.prems by (simp add: sender_take_frame_eq)
  show ?case
  proof (cases "n = 0")
    case True
    then show ?thesis using step inv2 upt idx Suc.prems unfolding send by simp
  next
    case False
    then show ?thesis
      using Suc.IH [OF inv2] step Suc.prems idx upt unfolding send by (simp add: case_prod_unfold)
  qed
qed simp

text \<open>A sender that has been configured and given a message, for the witnesses.\<close>

lemma example_sender:
  assumes "m \<noteq> []" and "length m \<le> MAX_MESSAGE_SIZE"
  defines "s \<equiv> run_events sender_step
    [SConfigure 77 EspNowRetryPolicy_init, SStart 2 EspNowFrameKind.RESULT 9 (Some m)] sender_init"
  shows "sender_inv s" and "rs_state s = READY" and "rs_fragment_index s = 0"
    and "rs_fragment_count s = fragment_count (length m)" and "rs_message s = m"
    and "rs_peer_index s = 2" and "rd_policy (rs_delivery s) = EspNowRetryPolicy_init"
    and "rd_attempt_count (rs_delivery s) = 0"
    and "rs_envelope s = \<lparr>env_kind = EspNowFrameKind.RESULT, env_flags = 1, env_source_boot_id = 77,
           env_transaction_id = 9, env_sequence = 1\<rparr>"
proof -
  show "sender_inv s" unfolding s_def by (rule sender_machine.inv_run)
  let ?c = "sender_init\<lparr>rs_local_boot_id := 77\<rparr>"
  have conf: "snd (sender_configure 77 EspNowRetryPolicy_init sender_init) = ?c"
    by (simp add: sender_configure_def sender_init_def delivery_configure_def delivery_init_def
        EspNowRetryPolicy_valid_def EspNowRetryPolicy_init_def)
  then have inv: "sender_inv ?c" using sender_configure_inv [OF sender_init_inv] by metis
  have "\<not> start_refused 2 EspNowFrameKind.RESULT 9 (Some m) ?c"
    by (simp add: start_refused_def sender_init_def INVALID_PEER_INDEX_def)
  then show "rs_state s = READY" "rs_fragment_index s = 0"
    "rs_fragment_count s = fragment_count (length m)" "rs_message s = m"
    "rs_peer_index s = 2" "rd_policy (rs_delivery s) = EspNowRetryPolicy_init"
    "rd_attempt_count (rs_delivery s) = 0"
    "rs_envelope s = \<lparr>env_kind = EspNowFrameKind.RESULT, env_flags = 1, env_source_boot_id = 77,
       env_transaction_id = 9, env_sequence = 1\<rparr>"
    using assms(1,2) unfolding s_def
    by (simp_all add: conf sender_start_eq [OF inv])
      (simp_all add: sender_init_def delivery_init_def next_sequence_def)
qed

subsection \<open>Properties\<close>

text \<open>C20 (invariant): whatever its clients call, in any order, the sender and its delivery machine
  agree on the state of the message, a frame is in flight exactly in \<open>FRAME_IN_FLIGHT\<close>, a
  message being sent is a legal one of the identity the delivery waits for, and the next
  fragment to send exists.\<close>

theorem sender_always_consistent:
  "sender_inv (run_events sender_step events sender_init)"
  by (rule sender_machine.inv_run)

text \<open>C38 (safety): while a frame is in flight nothing but its completion or a reset moves the sender:
  loops, acknowledgements, further starts, configurations and requests for frames leave it
  exactly as it is, however many there are. In particular no timeout runs until the
  completion arrives.\<close>

theorem in_flight_waits_for_completion:
  assumes "s = run_events sender_step history sender_init" and "rs_frame_in_flight s"
    and "\<forall>e \<in> set events. case e of SReset \<Rightarrow> False | SComplete _ _ \<Rightarrow> False | _ \<Rightarrow> True"
  shows "run_events sender_step events s = s"
proof -
  have "sender_inv s" unfolding assms(1) by (rule sender_machine.inv_run)
  then have st: "rs_state s = FRAME_IN_FLIGHT" "rd_state (rs_delivery s) = READY_TO_SEND"
    using assms(2) by (auto simp: sender_inv_def)
  have "sender_step e s = s" if "e \<in> set events" for e
    using bspec [OF assms(3) that] st assms(2)
    by (cases e) (simp_all add: sender_configure_def sender_start_def sender_loop_def Let_def
        sender_take_frame_def sender_accept_ack_def delivery_accept_ack_def)
  then show ?thesis by (induction events) auto
qed

lemma in_flight_waits_for_completion_witness:
  "let s = run_events sender_step [SConfigure 77 EspNowRetryPolicy_init,
        SStart 2 EspNowFrameKind.RESULT 9 (Some [1]), STakeFrame] sender_init in
   run_events sender_step [SLoop 100000, STakeFrame, SLoop 900000] s = s"
proof -
  let ?h = "[SConfigure 77 EspNowRetryPolicy_init, SStart 2 EspNowFrameKind.RESULT 9 (Some [1 :: u8])]"
  have "rs_frame_in_flight (run_events sender_step (?h @ [STakeFrame]) sender_init)"
    using example_sender(1,2) [of "[1]"] by (simp only: run_events_append) (simp add: sender_take_frame_eq)
  then show ?thesis
    using in_flight_waits_for_completion [OF refl, of "?h @ [STakeFrame]"
        "[SLoop 100000, STakeFrame, SLoop 900000]"] by (simp add: Let_def)
qed

text \<open>C37 (functional): handing out and completing frames one after the other sends every fragment
  of the message once, in order, and then counts one attempt and waits for the
  acknowledgement.\<close>

theorem sender_emits_every_fragment:
  assumes "s = run_events sender_step history sender_init" and "rs_state s = READY"
    and "rs_fragment_index s = 0"
  shows "let (frames, s') = send_frames (unat (rs_fragment_count s)) now s in
    frames = map (\<lambda>i. frame_of (rs_envelope s) (rs_message s) (of_nat i)) [0..<unat (rs_fragment_count s)] \<and>
    rs_state s' = ReliableSenderState.WAITING_FOR_ACK \<and>
    rd_attempt_count (rs_delivery s') = rd_attempt_count (rs_delivery s) + 1"
proof -
  have inv: "sender_inv s" unfolding assms(1) by (rule sender_machine.inv_run)
  then have "rd_attempt_count (snd (delivery_mark_sent now (rs_delivery s))) =
      rd_attempt_count (rs_delivery s) + 1"
    using assms(2) by (simp add: ready_mark_sent)
  moreover have "0 < unat (rs_fragment_count s)"
    using inv assms(2,3) by (simp add: sender_inv_def word_less_nat_alt)
  ultimately show ?thesis
    using send_frames_all [OF inv assms(2), of "unat (rs_fragment_count s)" now] assms(3)
    by (simp add: case_prod_unfold)
qed

lemma sender_emits_every_fragment_witness:
  "let s = run_events sender_step [SConfigure 77 EspNowRetryPolicy_init,
        SStart 2 EspNowFrameKind.RESULT 9 (Some (replicate 500 7))] sender_init in
   rs_state (snd (send_frames 3 40 s)) = ReliableSenderState.WAITING_FOR_ACK"
  using sender_emits_every_fragment [OF refl, of "[SConfigure 77 EspNowRetryPolicy_init,
        SStart 2 EspNowFrameKind.RESULT 9 (Some (replicate 500 7))]" 40]
    example_sender(2,3,4) [of "replicate 500 7"]
  by (simp add: fragment_count_def Let_def case_prod_unfold)

end
