(* ===== verification/Heartbeat.thy ===== *)
theory Heartbeat
  imports Radio_Queue
begin

text \<open>
  \<open>application_heartbeat.h\<close> and \<open>application_heartbeat.cpp\<close>: the diagnostic PING/PONG packets,
  the correlation of a PONG with the PING it answers, and the heartbeat part of the
  component: what it does with a received packet, with the passing of time, and when it may
  transmit. The two diagnostic trials the file schedules after a failed Wi-Fi attempt are
  part of the state. Logging and the radio counters it prints are left out; the calls into
  the radio that a tick makes are returned as actions.
\<close>

record HeartbeatPacket =
  hp_kind :: u8
  hp_requester_boot :: u64
  hp_sequence :: u32
  hp_responder_boot :: u64

abbreviation (input) HEARTBEAT_SIZE :: nat where "HEARTBEAT_SIZE \<equiv> 25"

definition HeartbeatPacket_init :: HeartbeatPacket where
  "HeartbeatPacket_init =
     \<lparr>hp_kind = 1, hp_requester_boot = 0, hp_sequence = 0, hp_responder_boot = 0\<rparr>"

text \<open>The four characters \<open>HB01\<close>.\<close>

definition heartbeat_magic :: bytes where
  "heartbeat_magic = [0x48, 0x42, 0x30, 0x31]"

definition has_magic :: "span \<Rightarrow> bool" where
  "has_magic data \<longleftrightarrow>
     (case data of None \<Rightarrow> False | Some d \<Rightarrow> length d \<ge> 4 \<and> take 4 d = heartbeat_magic)"

definition heartbeat_encode :: "HeartbeatPacket \<Rightarrow> bytes" where
  "heartbeat_encode p =
     heartbeat_magic @ [hp_kind p] @ put_le_u64 (hp_requester_boot p) @ put_le_u32 (hp_sequence p) @
     put_le_u64 (hp_responder_boot p)"

definition heartbeat_decode :: "span \<Rightarrow> HeartbeatPacket option" where
  "heartbeat_decode data =
     (if \<not> has_magic data then None
      else
        (let d = the data in
         if length d \<noteq> HEARTBEAT_SIZE \<or> (d ! 4 \<noteq> 1 \<and> d ! 4 \<noteq> 2) then None
         else
           (let value =
              \<lparr>hp_kind = d ! 4, hp_requester_boot = get_le_u64 (drop 5 d), hp_sequence = get_le_u32 (drop 13 d),
               hp_responder_boot = get_le_u64 (drop 17 d)\<rparr>
            in if hp_requester_boot value = 0 \<or> hp_sequence value = 0 \<or>
                  (hp_kind value = 2 \<and> hp_responder_boot value = 0)
               then None else Some value)))"

subsection \<open>Correlation\<close>

record HeartbeatExchange =
  hx_request :: HeartbeatPacket
  hx_started :: u32
  hx_timeout :: u32
  hx_pending :: bool

definition exchange_init :: HeartbeatExchange where
  "exchange_init = \<lparr>hx_request = HeartbeatPacket_init, hx_started = 0, hx_timeout = 0, hx_pending = False\<rparr>"

definition exchange_start :: "HeartbeatPacket \<Rightarrow> u32 \<Rightarrow> u32 \<Rightarrow> HeartbeatExchange \<Rightarrow> HeartbeatExchange" where
  "exchange_start request now timeout x =
     x\<lparr>hx_request := request, hx_started := now, hx_timeout := timeout, hx_pending := True\<rparr>"

definition exchange_expired :: "u32 \<Rightarrow> HeartbeatExchange \<Rightarrow> bool" where
  "exchange_expired now x \<longleftrightarrow> hx_pending x \<and> now - hx_started x \<ge> hx_timeout x"

text \<open>The accepted round-trip time, or nothing.\<close>

definition exchange_accept ::
    "HeartbeatPacket \<Rightarrow> u32 \<Rightarrow> HeartbeatExchange \<Rightarrow> u32 option \<times> HeartbeatExchange" where
  "exchange_accept reply now x =
     (if \<not> hx_pending x \<or> exchange_expired now x \<or> hp_kind reply \<noteq> 2 \<or> hp_responder_boot reply = 0 \<or>
         hp_requester_boot reply \<noteq> hp_requester_boot (hx_request x) \<or>
         hp_sequence reply \<noteq> hp_sequence (hx_request x)
      then (None, x)
      else (Some (now - hx_started x), x\<lparr>hx_pending := False\<rparr>))"

definition exchange_reset :: "HeartbeatExchange \<Rightarrow> HeartbeatExchange" where
  "exchange_reset x = x\<lparr>hx_pending := False\<rparr>"

subsection \<open>The heartbeat part of the component\<close>

record Heartbeat =
  hb_peer :: PeerIndex
  hb_exchange :: HeartbeatExchange
  hb_reply :: HeartbeatPacket
  hb_reply_pending :: bool
  hb_interval :: u32
  hb_timeout :: u32
  hb_last_attempt :: u32
  hb_reply_received :: u32
  hb_sequence :: u32
  hb_sent :: u32
  hb_ok :: u32
  hb_lost :: u32
  hb_send_errors :: u32
  hb_rf_logged :: u32
  hb_inflight_sequence :: u32
  hb_inflight_kind :: u8
  hb_peer_trial_attempt :: bool
  hb_peer_trial_pending :: bool
  hb_peer_trial_done :: bool
  hb_peer_trial_started :: u32
  hb_callback_trial_attempt :: bool
  hb_callback_trial_pending :: bool
  hb_callback_trial_done :: bool
  hb_callback_trial_started :: u32

definition heartbeat_init :: Heartbeat where
  "heartbeat_init =
     \<lparr>hb_peer = INVALID_PEER_INDEX, hb_exchange = exchange_init, hb_reply = HeartbeatPacket_init,
      hb_reply_pending = False, hb_interval = 0, hb_timeout = 1500, hb_last_attempt = 0,
      hb_reply_received = 0, hb_sequence = 0, hb_sent = 0, hb_ok = 0, hb_lost = 0, hb_send_errors = 0,
      hb_rf_logged = 0, hb_inflight_sequence = 0, hb_inflight_kind = 0,
      hb_peer_trial_attempt = False, hb_peer_trial_pending = False, hb_peer_trial_done = False,
      hb_peer_trial_started = 0, hb_callback_trial_attempt = False, hb_callback_trial_pending = False,
      hb_callback_trial_done = False, hb_callback_trial_started = 0\<rparr>"

definition configure_heartbeat :: "PeerIndex \<Rightarrow> u32 \<Rightarrow> u32 \<Rightarrow> Heartbeat \<Rightarrow> Heartbeat" where
  "configure_heartbeat peer interval_ms timeout_ms hb =
     hb\<lparr>hb_peer := peer, hb_interval := interval_ms, hb_timeout := timeout_ms\<rparr>"

definition diagnostic_peer_trial_phase :: "cstring \<Rightarrow> u32 \<Rightarrow> Heartbeat \<Rightarrow> Heartbeat" where
  "diagnostic_peer_trial_phase phase now hb =
     (if phase = cstr ''wifi_connected'' then
        hb\<lparr>hb_peer_trial_attempt := False, hb_peer_trial_pending := False\<rparr>
      else if phase = cstr ''before_attempt'' then
        hb\<lparr>hb_peer_trial_pending := False, hb_peer_trial_done := False, hb_peer_trial_attempt := True\<rparr>
      else if phase = cstr ''retry_after_disconnect'' \<and> hb_peer_trial_attempt hb then
        (let hb1 = hb\<lparr>hb_peer_trial_attempt := False\<rparr> in
         if \<not> hb_peer_trial_done hb1 \<and> \<not> hb_peer_trial_pending hb1
         then hb1\<lparr>hb_peer_trial_pending := True, hb_peer_trial_started := now\<rparr> else hb1)
      else hb)"

definition diagnostic_callback_trial_phase :: "cstring \<Rightarrow> u32 \<Rightarrow> Heartbeat \<Rightarrow> Heartbeat" where
  "diagnostic_callback_trial_phase phase now hb =
     (if phase = cstr ''wifi_connected'' then
        hb\<lparr>hb_callback_trial_attempt := False, hb_callback_trial_pending := False\<rparr>
      else if phase = cstr ''before_attempt'' then hb\<lparr>hb_callback_trial_attempt := True\<rparr>
      else if phase = cstr ''retry_after_disconnect'' \<and> hb_callback_trial_attempt hb then
        (let hb1 = hb\<lparr>hb_callback_trial_attempt := False\<rparr> in
         if \<not> hb_callback_trial_done hb1 \<and> \<not> hb_callback_trial_pending hb1
         then hb1\<lparr>hb_callback_trial_pending := True, hb_callback_trial_started := now\<rparr> else hb1)
      else hb)"

text \<open>\<open>receive_heartbeat_\<close>: whether the frame was a heartbeat and is therefore consumed.\<close>

definition receive_heartbeat ::
    "u64 \<Rightarrow> EspNowReceivedFrame \<Rightarrow> u32 \<Rightarrow> Heartbeat \<Rightarrow> bool \<times> Heartbeat" where
  "receive_heartbeat local_boot_id received now hb =
     (if \<not> has_magic (Some (rf_frame received)) then (False, hb)
      else if rf_peer_index received \<noteq> hb_peer hb then (True, hb)
      else case heartbeat_decode (Some (rf_frame received)) of
        None \<Rightarrow> (True, hb)
      | Some packet \<Rightarrow>
          if hp_kind packet = 1 then
            (if \<not> hb_reply_pending hb then
               (True, hb\<lparr>hb_reply := packet\<lparr>hp_kind := 2, hp_responder_boot := local_boot_id\<rparr>,
                         hb_reply_received := now, hb_reply_pending := True\<rparr>)
             else (True, hb))
          else
            (case exchange_accept packet now (hb_exchange hb) of
               (None, x) \<Rightarrow> (True, hb\<lparr>hb_exchange := x\<rparr>)
             | (Some rtt, x) \<Rightarrow> (True, hb\<lparr>hb_exchange := x, hb_ok := hb_ok hb + 1\<rparr>)))"

datatype heartbeat_action = ReapplyPeer PeerIndex | ReregisterReceiveCallback

text \<open>\<open>heartbeat_tick_\<close>, in its four parts; \<open>idle\<close> is the test that no transmission, no reliable
  message and no sender is active.\<close>

definition tick_peer_trial :: "bool \<Rightarrow> u32 \<Rightarrow> Heartbeat \<Rightarrow> heartbeat_action list \<times> Heartbeat" where
  "tick_peer_trial idle now hb =
     (let hb1 = (if hb_peer_trial_pending hb \<and> now - hb_peer_trial_started hb \<ge> 15000
                 then hb\<lparr>hb_peer_trial_pending := False, hb_peer_trial_done := True\<rparr> else hb)
      in if hb_peer_trial_pending hb1 \<and> now - hb_peer_trial_started hb1 \<ge> 7000 \<and> idle
         then ([ReapplyPeer (hb_peer hb1)],
               hb1\<lparr>hb_peer_trial_pending := False, hb_peer_trial_done := True\<rparr>)
         else ([], hb1))"

definition tick_callback_trial :: "u32 \<Rightarrow> Heartbeat \<Rightarrow> heartbeat_action list \<times> Heartbeat" where
  "tick_callback_trial now hb =
     (if hb_callback_trial_pending hb \<and> now - hb_callback_trial_started hb \<ge> 7000
      then ([ReregisterReceiveCallback],
            hb\<lparr>hb_callback_trial_pending := False, hb_callback_trial_done := True\<rparr>)
      else ([], hb))"

definition tick_expiry :: "u32 \<Rightarrow> Heartbeat \<Rightarrow> Heartbeat" where
  "tick_expiry now hb =
     (let hb1 = (if now - hb_rf_logged hb \<ge> 10000 then hb\<lparr>hb_rf_logged := now\<rparr> else hb);
          hb2 = (if exchange_expired now (hb_exchange hb1)
                 then hb1\<lparr>hb_exchange := exchange_reset (hb_exchange hb1), hb_lost := hb_lost hb1 + 1\<rparr> else hb1)
      in if hb_reply_pending hb2 \<and> now - hb_reply_received hb2 \<ge> hb_timeout hb2
         then hb2\<lparr>hb_reply_pending := False\<rparr> else hb2)"

definition heartbeat_tick :: "bool \<Rightarrow> u32 \<Rightarrow> Heartbeat \<Rightarrow> heartbeat_action list \<times> Heartbeat" where
  "heartbeat_tick idle now hb =
     (let (a1, hb1) = tick_peer_trial idle now hb; (a2, hb2) = tick_callback_trial now hb1
      in (a1 @ a2, tick_expiry now hb2))"

text \<open>\<open>dispatch_heartbeat_\<close>: \<open>send\<close> is \<open>radio_.send_frame\<close> to the heartbeat peer, on the radio's state
  \<open>r\<close>; the first result is the packet the radio took, for which the component then owns the
  transmission.\<close>

definition dispatch_heartbeat ::
    "bool \<Rightarrow> u64 \<Rightarrow> (bytes \<Rightarrow> 'r \<Rightarrow> bool \<times> 'r) \<Rightarrow> u32 \<Rightarrow> Heartbeat \<Rightarrow> 'r \<Rightarrow> bytes option \<times> Heartbeat \<times> 'r" where
  "dispatch_heartbeat idle local_boot_id send now hb r =
     (if hb_peer hb = INVALID_PEER_INDEX \<or> \<not> idle then (None, hb, r)
      else if hb_reply_pending hb then
        (let payload = heartbeat_encode (hb_reply hb); hb1 = hb\<lparr>hb_reply_pending := False\<rparr>
         in case send payload r of
              (True, r1) \<Rightarrow>
                (Some payload, hb1\<lparr>hb_inflight_sequence := hp_sequence (hb_reply hb1), hb_inflight_kind := 2\<rparr>, r1)
            | (False, r1) \<Rightarrow> (None, hb1, r1))
      else if hb_interval hb = 0 \<or> hx_pending (hb_exchange hb) \<or> now - hb_last_attempt hb < hb_interval hb
      then (None, hb, r)
      else
        (let sequence = (if hb_sequence hb + 1 = 0 then 1 else hb_sequence hb + 1);
             ping = HeartbeatPacket_init\<lparr>hp_requester_boot := local_boot_id, hp_sequence := sequence\<rparr>;
             payload = heartbeat_encode ping;
             hb1 = hb\<lparr>hb_last_attempt := now, hb_sequence := sequence, hb_sent := hb_sent hb + 1\<rparr>
         in case send payload r of
              (False, r1) \<Rightarrow> (None, hb1\<lparr>hb_send_errors := hb_send_errors hb1 + 1\<rparr>, r1)
            | (True, r1) \<Rightarrow>
                (Some payload,
                 hb1\<lparr>hb_exchange := exchange_start ping now (hb_timeout hb1) (hb_exchange hb1),
                     hb_inflight_sequence := sequence, hb_inflight_kind := 1\<rparr>, r1)))"

text \<open>A packet the decoder would accept.\<close>

definition heartbeat_valid :: "HeartbeatPacket \<Rightarrow> bool" where
  "heartbeat_valid p \<longleftrightarrow>
     (hp_kind p = 1 \<or> hp_kind p = 2) \<and> hp_requester_boot p \<noteq> 0 \<and> hp_sequence p \<noteq> 0 \<and>
     (hp_kind p = 2 \<longrightarrow> hp_responder_boot p \<noteq> 0)"

text \<open>What the packets waiting in the component satisfy.\<close>

definition heartbeat_inv :: "Heartbeat \<Rightarrow> bool" where
  "heartbeat_inv hb \<longleftrightarrow>
     (hb_reply_pending hb \<longrightarrow> heartbeat_valid (hb_reply hb) \<and> hp_kind (hb_reply hb) = 2) \<and>
     (hx_pending (hb_exchange hb) \<longrightarrow> heartbeat_valid (hx_request (hb_exchange hb)))"

subsection \<open>Packets\<close>

lemma length_heartbeat_encode [simp]: "length (heartbeat_encode p) = HEARTBEAT_SIZE"
  by (simp add: heartbeat_encode_def heartbeat_magic_def)

lemma has_magic_encode [simp]: "has_magic (Some (heartbeat_encode p))"
  by (simp add: has_magic_def heartbeat_encode_def heartbeat_magic_def)

lemma heartbeat_decode_encode: "heartbeat_valid p \<Longrightarrow> heartbeat_decode (Some (heartbeat_encode p)) = Some p"
  by (simp add: heartbeat_decode_def Let_def)
    (auto simp: heartbeat_encode_def heartbeat_magic_def heartbeat_valid_def)

lemma heartbeat_decode_valid: "heartbeat_decode d = Some p \<Longrightarrow> heartbeat_valid p"
  by (auto simp: heartbeat_decode_def heartbeat_valid_def Let_def split: if_splits)

lemma frame_magic_bytes: "get_u16 f = FRAME_MAGIC \<Longrightarrow> 4 \<le> length f \<Longrightarrow> take 4 f \<noteq> heartbeat_magic"
proof
  assume "get_u16 f = FRAME_MAGIC" and "4 \<le> length f" and "take 4 f = heartbeat_magic"
  then have "f ! 0 = 0x48" "f ! 1 = 0x42"
    using nth_take [of 0 4 f] nth_take [of 1 4 f] by (simp_all add: heartbeat_magic_def)
  with \<open>get_u16 f = FRAME_MAGIC\<close> show False by (simp add: get_u16_def)
qed

subsection \<open>The component's heartbeat\<close>

lemma receive_heartbeat_inv:
  "heartbeat_inv hb \<Longrightarrow> local_boot_id \<noteq> 0 \<Longrightarrow> heartbeat_inv (snd (receive_heartbeat local_boot_id f now hb))"
  by (auto simp: receive_heartbeat_def heartbeat_inv_def heartbeat_valid_def exchange_accept_def
      split: option.splits prod.splits if_splits dest!: heartbeat_decode_valid)

lemma heartbeat_tick_inv: "heartbeat_inv hb \<Longrightarrow> heartbeat_inv (snd (heartbeat_tick idle now hb))"
  by (auto simp: heartbeat_tick_def tick_peer_trial_def tick_callback_trial_def tick_expiry_def heartbeat_inv_def
      exchange_reset_def Let_def split: prod.splits)

lemma dispatch_heartbeat_inv:
  "heartbeat_inv hb \<Longrightarrow> local_boot_id \<noteq> 0 \<Longrightarrow>
     heartbeat_inv (fst (snd (dispatch_heartbeat idle local_boot_id send now hb r)))"
  by (auto simp: dispatch_heartbeat_def heartbeat_inv_def heartbeat_valid_def exchange_start_def
      HeartbeatPacket_init_def Let_def split: prod.splits bool.splits)

lemma ping_valid:
  "b \<noteq> 0 \<Longrightarrow> q \<noteq> 0 \<Longrightarrow> heartbeat_valid (HeartbeatPacket_init\<lparr>hp_requester_boot := b, hp_sequence := q\<rparr>)"
  by (simp add: heartbeat_valid_def HeartbeatPacket_init_def)

lemma dispatch_heartbeat_sends:
  assumes "heartbeat_inv hb" and "local_boot_id \<noteq> 0"
    and "dispatch_heartbeat idle local_boot_id send now hb r = (Some f, hb', r')"
  shows "idle \<and> hb_peer hb \<noteq> INVALID_PEER_INDEX \<and> \<not> hb_reply_pending hb' \<and>
    (\<exists>p. f = heartbeat_encode p \<and> heartbeat_valid p)"
  using assms
  by (auto simp: dispatch_heartbeat_def heartbeat_inv_def Let_def split: if_splits prod.splits bool.splits
      intro!: ping_valid)

subsection \<open>Properties\<close>

text \<open>Every legal heartbeat packet is encoded in 25 bytes and decodes to itself.\<close>

theorem heartbeat_roundtrip:
  assumes "heartbeat_valid p"
  shows "length (heartbeat_encode p) = HEARTBEAT_SIZE \<and> heartbeat_decode (Some (heartbeat_encode p)) = Some p"
  using heartbeat_decode_encode [OF assms] by simp

lemma heartbeat_roundtrip_witness:
  "heartbeat_decode (Some (heartbeat_encode
     \<lparr>hp_kind = 2, hp_requester_boot = 4660, hp_sequence = 7, hp_responder_boot = 99\<rparr>)) =
   Some \<lparr>hp_kind = 2, hp_requester_boot = 4660, hp_sequence = 7, hp_responder_boot = 99\<rparr>"
  by (rule heartbeat_roundtrip [THEN conjunct2]) (simp add: heartbeat_valid_def)

text \<open>C33 (safety): heartbeats and protocol frames cannot be confused: bytes that the component
  consumes as a heartbeat are refused by the frame parser, and no frame the codec can produce
  is consumed as a heartbeat.\<close>

theorem heartbeat_traffic_is_separate:
  "(has_magic (Some f) \<longrightarrow> (\<exists>e. parse_frame (Some f) = Inl e)) \<and>
   \<not> fst (receive_heartbeat boot (received\<lparr>rf_frame := frame_of env m i\<rparr>) now hb)"
proof -
  have "4 \<le> length (frame_of env m i)" and "get_u16 (frame_of env m i) = FRAME_MAGIC"
    by (simp_all add: frame_of_def encode_header_def)
  then have "\<not> has_magic (Some (frame_of env m i))" using frame_magic_bytes by (simp add: has_magic_def)
  moreover have "\<exists>e. parse_frame (Some f) = Inl e" if "has_magic (Some f)"
    using that frame_magic_bytes [of f] by (auto simp: has_magic_def parse_frame_def)
  ultimately show ?thesis by (simp add: receive_heartbeat_def)
qed

lemma heartbeat_traffic_is_separate_witness:
  "\<exists>e. parse_frame (Some (heartbeat_encode HeartbeatPacket_init)) = Inl e"
  using heartbeat_traffic_is_separate [THEN conjunct1, rule_format, OF has_magic_encode] by simp

text \<open>A PONG is counted at most once and only for the outstanding PING: if a reply is
  accepted, its round-trip time is below the timeout of the exchange, it names the
  outstanding requester and sequence, and no reply at all is accepted afterwards until a new
  PING is sent.\<close>

theorem exchange_accepts_once:
  assumes "exchange_accept reply now x = (Some rtt, x')"
  shows "rtt < hx_timeout x \<and> hp_requester_boot reply = hp_requester_boot (hx_request x) \<and>
    hp_sequence reply = hp_sequence (hx_request x) \<and> (\<forall>reply' now'. exchange_accept reply' now' x' = (None, x'))"
  using assms by (auto simp: exchange_accept_def exchange_expired_def not_le split: if_splits)

lemma exchange_accepts_once_witness:
  "let x = exchange_start (HeartbeatPacket_init\<lparr>hp_requester_boot := 5, hp_sequence := 1\<rparr>) 4294967290 1500 exchange_init;
       x' = snd (exchange_accept \<lparr>hp_kind = 2, hp_requester_boot = 5, hp_sequence = 1, hp_responder_boot = 8\<rparr> 4 x)
   in exchange_accept \<lparr>hp_kind = 2, hp_requester_boot = 5, hp_sequence = 1, hp_responder_boot = 8\<rparr> 5 x' = (None, x')"
  using exchange_accepts_once [of "\<lparr>hp_kind = 2, hp_requester_boot = 5, hp_sequence = 1, hp_responder_boot = 8\<rparr>" 4
      "exchange_start (HeartbeatPacket_init\<lparr>hp_requester_boot := 5, hp_sequence := 1\<rparr>) 4294967290 1500 exchange_init" 10]
  by (simp add: exchange_start_def exchange_accept_def exchange_expired_def HeartbeatPacket_init_def exchange_init_def)

end
