(* ===== verification/Net_Component.thy ===== *)
theory Net_Component
  imports Peer_Recovery Reliable_Sender Protocol_Runtime Heartbeat Command_Dispatcher
begin

text \<open>
  \<open>espnow_net_protocol.h\<close> and the first half of \<open>espnow_net_protocol.cpp\<close>: the component that owns
  the radio, the runtime, the sender, the dispatchers and the command client, with the calls
  the application makes. The build options are fields that no operation changes: a build
  without an option behaves as one in which its flag is false. The observers of the
  application are numbers; \<open>nc_calls\<close> records the calls made to them. Log output is left
  out; a build with diagnostics and \<open>dump_config\<close> are the theory \<open>Diagnosed_Component\<close>.
\<close>

subsection \<open>State\<close>

datatype CommandClientState = IDLE | WAITING_FOR_DELIVERY_ACK | WAITING_FOR_RESULT

datatype RadioTransmissionOwner = NONE | SENDER | ACK | HEARTBEAT

datatype ReliableMessageOwner = NONE | API_CALLER | DISPATCHER_RESULT | COMMAND_CLIENT | BACKGROUND_RESULT

record CommandClient =
  cc_command :: NetCommand
  cc_peer :: PeerIndex
  cc_started_ms :: u32
  cc_state :: CommandClientState
  cc_external_deadline :: bool

definition client_init :: CommandClient where
  "client_init =
     \<lparr>cc_command = NetCommand_init, cc_peer = INVALID_PEER_INDEX, cc_started_ms = 0,
      cc_state = CommandClientState.IDLE, cc_external_deadline = False\<rparr>"

datatype observer_call =
    OnNetCommandResult nat PeerIndex NetResult
  | OnUnsolicitedNetResult nat PeerIndex NetResult
  | OnCommandIdentity PeerIndex NetCommand

record NetComponent =
  nc_dual :: bool
  nc_heartbeat_built :: bool
  nc_radio :: EspIdfEspNowEncryptedRadio
  nc_runtime :: EspNowProtocolRuntime
  nc_sender :: ReliableMessageSender
  nc_command_dispatcher :: InboundCommandDispatcher
  nc_parallel_dispatcher :: InboundCommandDispatcher
  nc_parallel_inbound :: bool
  nc_interrupt_dispatcher :: InboundCommandDispatcher
  nc_interruptible_inbound :: bool
  nc_peer_application_identity :: PeerApplicationIdentity
  nc_retry_policy :: EspNowRetryPolicy
  nc_result_message :: "EspNowInboundApplicationMessage option"
  nc_reliable_message_owner :: ReliableMessageOwner
  nc_result_delivery_success_count :: u32
  nc_result_delivery_failure_count :: u32
  nc_background_result_success_count :: u32
  nc_background_result_failure_count :: u32
  nc_background_result_transaction_id :: TransactionId
  nc_background_result_completion_ready :: bool
  nc_background_result_succeeded :: bool
  nc_client :: CommandClient
  nc_client_2 :: CommandClient
  nc_command_result_observers :: "nat option list"
  nc_unsolicited_result_observers :: "nat option list"
  nc_verified_command_observer :: bool
  nc_notification :: NetResult
  nc_notification_peer :: PeerIndex
  nc_notification_ready :: bool
  nc_next_declarative_transaction_id :: TransactionId
  nc_command_client_progress_count :: u32
  nc_command_client_success_count :: u32
  nc_command_client_failure_count :: u32
  nc_command_client_cancel_count :: u32
  nc_command_sender_slot :: u8
  nc_last_terminal_peer :: PeerIndex
  nc_last_terminal_transaction_id :: TransactionId
  nc_local_boot_id :: u64
  nc_ack_sequence :: u32
  nc_radio_transmission_owner :: RadioTransmissionOwner
  nc_radio_transmission_peer :: PeerIndex
  nc_runtime_enabled :: bool
  nc_heartbeat :: Heartbeat
  nc_recovery :: PeerRecovery
  nc_failed :: bool
  nc_calls :: "observer_call list"

text \<open>\<open>result_message_\<close> with its ready flag is an option. The arguments are the build options: two
  command clients, the heartbeat, the diagnostics.\<close>

definition component_init :: "bool \<Rightarrow> bool \<Rightarrow> bool \<Rightarrow> NetComponent" where
  "component_init dual heartbeat diagnostics =
     \<lparr>nc_dual = dual, nc_heartbeat_built = heartbeat, nc_radio = radio_init, nc_runtime = runtime_init 0,
      nc_sender = sender_init, nc_command_dispatcher = dispatcher_init,
      nc_parallel_dispatcher = dispatcher_init, nc_parallel_inbound = False,
      nc_interrupt_dispatcher = dispatcher_init, nc_interruptible_inbound = False,
      nc_peer_application_identity = PeerApplicationIdentity_init, nc_retry_policy = EspNowRetryPolicy_init,
      nc_result_message = None, nc_reliable_message_owner = ReliableMessageOwner.NONE,
      nc_result_delivery_success_count = 0, nc_result_delivery_failure_count = 0,
      nc_background_result_success_count = 0, nc_background_result_failure_count = 0,
      nc_background_result_transaction_id = 0, nc_background_result_completion_ready = False,
      nc_background_result_succeeded = False, nc_client = client_init, nc_client_2 = client_init,
      nc_command_result_observers = [None, None], nc_unsolicited_result_observers = [None, None],
      nc_verified_command_observer = False, nc_notification = NetResult_init,
      nc_notification_peer = INVALID_PEER_INDEX, nc_notification_ready = False,
      nc_next_declarative_transaction_id = 1, nc_command_client_progress_count = 0,
      nc_command_client_success_count = 0, nc_command_client_failure_count = 0,
      nc_command_client_cancel_count = 0, nc_command_sender_slot = 0,
      nc_last_terminal_peer = INVALID_PEER_INDEX, nc_last_terminal_transaction_id = 0, nc_local_boot_id = 0,
      nc_ack_sequence = 0, nc_radio_transmission_owner = RadioTransmissionOwner.NONE,
      nc_radio_transmission_peer = INVALID_PEER_INDEX, nc_runtime_enabled = True,
      nc_heartbeat = heartbeat_init, nc_recovery = recovery_init diagnostics, nc_failed = False, nc_calls = []\<rparr>"

text \<open>The client of a slot; without \<open>USE_ESPNOW_NET_PROTOCOL_DUAL_COMMAND_CLIENT\<close> there is only one.\<close>

definition client_at :: "u8 \<Rightarrow> NetComponent \<Rightarrow> CommandClient" where
  "client_at slot n = (if nc_dual n \<and> slot = 1 then nc_client_2 n else nc_client n)"

subsection \<open>The sender's owners\<close>

definition start_reliable_message ::
    "PeerIndex \<Rightarrow> EspNowFrameKind \<Rightarrow> TransactionId \<Rightarrow> span \<Rightarrow> NetComponent \<Rightarrow> bool \<times> NetComponent" where
  "start_reliable_message peer kind transaction_id data n =
     (if nc_reliable_message_owner n \<noteq> ReliableMessageOwner.NONE then (False, n)
      else case sender_start peer kind transaction_id data (nc_sender n) of
        (False, s) \<Rightarrow> (False, n\<lparr>nc_sender := s\<rparr>)
      | (True, s) \<Rightarrow> (True, n\<lparr>nc_sender := s, nc_reliable_message_owner := API_CALLER\<rparr>))"

definition start_background_result :: "PeerIndex \<Rightarrow> NetResult \<Rightarrow> NetComponent \<Rightarrow> bool \<times> NetComponent" where
  "start_background_result peer result n =
     (if \<not> nc_runtime_enabled n \<or> peer = INVALID_PEER_INDEX \<or>
         nc_reliable_message_owner n \<noteq> ReliableMessageOwner.NONE \<or>
         rs_state (nc_sender n) \<noteq> ReliableSenderState.IDLE \<or>
         nc_background_result_completion_ready n \<or> \<not> NetResult_consistent result
      then (False, n)
      else case result_encode result of
        Inl _ \<Rightarrow> (False, n)
      | Inr encoded \<Rightarrow>
          (case sender_start peer EspNowFrameKind.RESULT (res_transaction_id result) (Some encoded) (nc_sender n) of
             (False, s) \<Rightarrow> (False, n\<lparr>nc_sender := s\<rparr>)
           | (True, s) \<Rightarrow>
               (True, n\<lparr>nc_sender := s, nc_reliable_message_owner := BACKGROUND_RESULT,
                        nc_background_result_transaction_id := res_transaction_id result\<rparr>)))"

definition take_background_result_completion ::
    "NetComponent \<Rightarrow> (TransactionId \<times> bool) option \<times> NetComponent" where
  "take_background_result_completion n =
     (if \<not> nc_background_result_completion_ready n then (None, n)
      else (Some (nc_background_result_transaction_id n, nc_background_result_succeeded n),
            n\<lparr>nc_background_result_completion_ready := False, nc_background_result_transaction_id := 0,
              nc_background_result_succeeded := False\<rparr>))"

definition reset_sender :: "NetComponent \<Rightarrow> NetComponent" where
  "reset_sender n =
     n\<lparr>nc_sender := sender_reset (nc_sender n), nc_reliable_message_owner := ReliableMessageOwner.NONE\<rparr>"

definition component_take_application_message ::
    "NetComponent \<Rightarrow> EspNowInboundApplicationMessage option \<times> NetComponent" where
  "component_take_application_message n = (nc_result_message n, n\<lparr>nc_result_message := None\<rparr>)"

subsection \<open>The command client\<close>

definition can_start_command :: "NetComponent \<Rightarrow> bool" where
  "can_start_command n \<longleftrightarrow>
     nc_runtime_enabled n \<and>
     (cc_state (nc_client n) = CommandClientState.IDLE \<or>
      (nc_dual n \<and> cc_state (nc_client_2 n) = CommandClientState.IDLE)) \<and>
     nc_reliable_message_owner n = ReliableMessageOwner.NONE \<and>
     rs_state (nc_sender n) = ReliableSenderState.IDLE"

definition start_command :: "PeerIndex \<Rightarrow> NetCommand \<Rightarrow> u32 \<Rightarrow> NetComponent \<Rightarrow> bool \<times> NetComponent" where
  "start_command peer command now_ms n =
     (if \<not> can_start_command n \<or> peer = INVALID_PEER_INDEX \<or> \<not> NetCommand_valid command then (False, n)
      else
        (let slot = (if nc_dual n then (if cc_state (nc_client n) = CommandClientState.IDLE then 0 else 1) else 0) in
         case command_encode command of
           Inl _ \<Rightarrow> (False, n)
         | Inr encoded \<Rightarrow>
             (case sender_start peer EspNowFrameKind.COMMAND (cmd_transaction_id command) (Some encoded)
                     (nc_sender n) of
                (False, s) \<Rightarrow> (False, n\<lparr>nc_sender := s\<rparr>)
              | (True, s) \<Rightarrow>
                  (let client = \<lparr>cc_command = command, cc_peer = peer, cc_started_ms = now_ms,
                         cc_state = CommandClientState.WAITING_FOR_DELIVERY_ACK, cc_external_deadline = False\<rparr>;
                       n1 = n\<lparr>nc_sender := s\<rparr>;
                       n2 = (if slot = 0 then n1\<lparr>nc_client := client\<rparr> else n1\<lparr>nc_client_2 := client\<rparr>)
                   in (True, n2\<lparr>nc_command_sender_slot := slot, nc_reliable_message_owner := COMMAND_CLIENT\<rparr>)))))"

definition next_declarative :: "TransactionId \<Rightarrow> TransactionId" where
  "next_declarative t = (if t + 1 = 0 \<or> t + 1 > 0x0FFFFFFFFFFFFFFF then 1 else t + 1)"

definition send_command ::
    "cstring option \<Rightarrow> cstring option \<Rightarrow> cstring option \<Rightarrow> cstring option \<Rightarrow> cstring option \<Rightarrow> u32 \<Rightarrow> u32 \<Rightarrow>
     NetComponent \<Rightarrow> bool \<times> NetComponent" where
  "send_command destination_id device_id resource command payload timeout_ms now_ms n =
     (if destination_id = None \<or> device_id = None \<or> resource = None \<or> command = None \<or> payload = None \<or> timeout_ms = 0
      then (False, n)
      else
        (let peer = radio_peer_index destination_id (nc_radio n) in
         if peer = INVALID_PEER_INDEX then (False, n)
         else
           (let transaction_id = 0xE000000000000000 OR nc_next_declarative_transaction_id n;
                n1 = n\<lparr>nc_next_declarative_transaction_id := next_declarative (nc_next_declarative_transaction_id n)\<rparr>;
                (ok1, dev) = text_assign MAX_DEVICE_ID_LENGTH device_id;
                (ok2, rsc) = text_assign MAX_RESOURCE_LENGTH resource;
                (ok3, nam) = text_assign MAX_NAME_LENGTH command;
                text = c_str_of (the payload);
                (ok4, pay) = bytes_assign MAX_PAYLOAD_SIZE (Some text) (length text);
                request = NetCommand_init\<lparr>cmd_transaction_id := transaction_id, cmd_timeout_ms := timeout_ms,
                  cmd_device_id := dev, cmd_resource := rsc, cmd_name := nam, cmd_payload := pay\<rparr>
            in if \<not> ok1 \<or> \<not> ok2 \<or> \<not> ok3 \<or> \<not> ok4 \<or> \<not> NetCommand_valid request then (False, n1)
               else start_command peer request now_ms n1)))"

definition clear_command_client :: "u8 \<Rightarrow> NetComponent \<Rightarrow> NetComponent" where
  "clear_command_client slot n =
     (let cleared = (\<lambda>c. c\<lparr>cc_command := NetCommand_init, cc_peer := INVALID_PEER_INDEX, cc_started_ms := 0,
            cc_state := CommandClientState.IDLE\<rparr>)
      in if slot = 0 then n\<lparr>nc_client := cleared (nc_client n)\<rparr>
         else if nc_dual n then n\<lparr>nc_client_2 := cleared (nc_client_2 n)\<rparr> else n)"

text \<open>The slot of the active client with a transaction, as \<open>cancel_command\<close> and
  \<open>use_external_result_deadline\<close> search it.\<close>

definition client_of_transaction :: "TransactionId \<Rightarrow> NetComponent \<Rightarrow> u8 option" where
  "client_of_transaction transaction_id n =
     (if cc_state (nc_client n) \<noteq> CommandClientState.IDLE \<and>
         cmd_transaction_id (cc_command (nc_client n)) = transaction_id then Some 0
      else if nc_dual n \<and> cc_state (nc_client_2 n) \<noteq> CommandClientState.IDLE \<and>
         cmd_transaction_id (cc_command (nc_client_2 n)) = transaction_id then Some 1
      else None)"

definition cancel_command :: "TransactionId \<Rightarrow> NetComponent \<Rightarrow> bool \<times> NetComponent" where
  "cancel_command transaction_id n =
     (if transaction_id = 0 then (False, n)
      else case client_of_transaction transaction_id n of
        None \<Rightarrow> (False, n)
      | Some slot \<Rightarrow>
          (let n1 = (if nc_reliable_message_owner n = COMMAND_CLIENT \<and> nc_command_sender_slot n = slot
                     then n\<lparr>nc_sender := sender_reset (nc_sender n),
                            nc_reliable_message_owner := ReliableMessageOwner.NONE\<rparr> else n);
               n2 = n1\<lparr>nc_last_terminal_peer := cc_peer (client_at slot n1),
                       nc_last_terminal_transaction_id := transaction_id,
                       nc_command_client_cancel_count := nc_command_client_cancel_count n1 + 1\<rparr>
           in (True, clear_command_client slot n2)))"

definition use_external_result_deadline :: "TransactionId \<Rightarrow> NetComponent \<Rightarrow> bool \<times> NetComponent" where
  "use_external_result_deadline transaction_id n =
     (if transaction_id = 0 then (False, n)
      else case client_of_transaction transaction_id n of
        None \<Rightarrow> (False, n)
      | Some slot \<Rightarrow>
          (True, if slot = 0 then n\<lparr>nc_client := (nc_client n)\<lparr>cc_external_deadline := True\<rparr>\<rparr>
                 else n\<lparr>nc_client_2 := (nc_client_2 n)\<lparr>cc_external_deadline := True\<rparr>\<rparr>))"

subsection \<open>Enabling and disabling\<close>

primrec discard_received_frames :: "nat \<Rightarrow> EspIdfEspNowEncryptedRadio \<Rightarrow> EspIdfEspNowEncryptedRadio" where
  "discard_received_frames 0 r = r"
| "discard_received_frames (Suc k) r =
     (case take_received_frame r of (None, r1) \<Rightarrow> r1 | (Some _, r1) \<Rightarrow> discard_received_frames k r1)"

primrec discard_send_completions :: "nat \<Rightarrow> EspIdfEspNowEncryptedRadio \<Rightarrow> EspIdfEspNowEncryptedRadio" where
  "discard_send_completions 0 r = r"
| "discard_send_completions (Suc k) r =
     (case take_send_completion r of (None, r1) \<Rightarrow> r1 | (Some _, r1) \<Rightarrow> discard_send_completions k r1)"

definition discard_radio_events :: "NetComponent \<Rightarrow> NetComponent" where
  "discard_radio_events n =
     n\<lparr>nc_radio := discard_send_completions SEND_COMPLETION_QUEUE_CAPACITY
         (discard_received_frames RX_QUEUE_CAPACITY (nc_radio n))\<rparr>"

definition stop_heartbeat :: "NetComponent \<Rightarrow> NetComponent" where
  "stop_heartbeat n =
     (if nc_heartbeat_built n
      then n\<lparr>nc_heartbeat := (nc_heartbeat n)\<lparr>hb_exchange := exchange_reset (hb_exchange (nc_heartbeat n)),
               hb_reply_pending := False\<rparr>\<rparr> else n)"

definition cancel_active_clients :: "NetComponent \<Rightarrow> NetComponent" where
  "cancel_active_clients n =
     (let n1 = (if cc_state (nc_client n) \<noteq> CommandClientState.IDLE
                then snd (cancel_command (cmd_transaction_id (cc_command (nc_client n))) n) else n)
      in if nc_dual n1 \<and> cc_state (nc_client_2 n1) \<noteq> CommandClientState.IDLE
         then snd (cancel_command (cmd_transaction_id (cc_command (nc_client_2 n1))) n1) else n1)"

definition set_runtime_enabled :: "bool \<Rightarrow> NetComponent \<Rightarrow> NetComponent" where
  "set_runtime_enabled enabled n =
     (if nc_runtime_enabled n = enabled then n
      else if enabled then n\<lparr>nc_runtime_enabled := True\<rparr>
      else discard_radio_events
        ((cancel_active_clients (reset_sender (stop_heartbeat (n\<lparr>nc_runtime_enabled := False\<rparr>))))
           \<lparr>nc_radio_transmission_owner := RadioTransmissionOwner.NONE,
            nc_radio_transmission_peer := INVALID_PEER_INDEX, nc_notification_ready := False,
            nc_result_message := None, nc_background_result_transaction_id := 0,
            nc_background_result_completion_ready := False, nc_background_result_succeeded := False\<rparr>))"

subsection \<open>Configuration\<close>

text \<open>The first free of the two places, unless the observer is already there.\<close>

definition add_observer :: "nat option \<Rightarrow> nat option list \<Rightarrow> nat option list" where
  "add_observer observer observers =
     (case observer of None \<Rightarrow> observers
      | Some x \<Rightarrow>
          if Some x \<in> set observers then observers
          else (case List.find (\<lambda>i. observers ! i = None) [0..<length observers] of
                  None \<Rightarrow> observers | Some i \<Rightarrow> observers[i := Some x]))"

definition set_command_handler :: "bool \<Rightarrow> NetComponent \<Rightarrow> NetComponent" where
  "set_command_handler present n =
     n\<lparr>nc_command_dispatcher := set_handler present (nc_command_dispatcher n),
       nc_parallel_dispatcher := set_handler present (nc_parallel_dispatcher n),
       nc_interrupt_dispatcher := set_handler present (nc_interrupt_dispatcher n)\<rparr>"

definition set_observe_application_identity :: "bool \<Rightarrow> NetComponent \<Rightarrow> NetComponent" where
  "set_observe_application_identity enabled n =
     n\<lparr>nc_command_dispatcher := set_identity_observer enabled (nc_command_dispatcher n),
       nc_parallel_dispatcher := set_identity_observer enabled (nc_parallel_dispatcher n),
       nc_interrupt_dispatcher := set_identity_observer enabled (nc_interrupt_dispatcher n)\<rparr>"

definition set_expected_application_source ::
    "cstring option \<Rightarrow> cstring option \<Rightarrow> NetComponent \<Rightarrow> bool \<times> NetComponent" where
  "set_expected_application_source destination_id source_id n =
     (let (ok, a) = identity_set (radio_peer_index destination_id (nc_radio n)) source_id (nc_peer_application_identity n)
      in (ok, n\<lparr>nc_peer_application_identity := a\<rparr>))"

text \<open>\<open>setup\<close>; the arguments of the boot identifier are two random words.\<close>

definition boot_id_from :: "u32 \<Rightarrow> u32 \<Rightarrow> u64" where
  "boot_id_from high low =
     (let drawn = push_bit 32 (ucast high) OR ucast low in if drawn = 0 then 1 else drawn)"

definition configure_protocol :: "NetComponent \<Rightarrow> NetComponent" where
  "configure_protocol n =
     (case runtime_configure (nc_local_boot_id n) (nc_runtime n) of
        (False, rt) \<Rightarrow> n\<lparr>nc_runtime := rt, nc_failed := True\<rparr>
      | (True, rt) \<Rightarrow>
          (case sender_configure (nc_local_boot_id n) (nc_retry_policy n) (nc_sender n) of
             (False, s) \<Rightarrow> n\<lparr>nc_runtime := rt, nc_sender := s, nc_failed := True\<rparr>
           | (True, s) \<Rightarrow> n\<lparr>nc_runtime := rt, nc_sender := s\<rparr>))"

definition component_setup :: "u32 \<Rightarrow> u32 \<Rightarrow> NetComponent \<Rightarrow> NetComponent" where
  "component_setup high low n =
     configure_protocol
       (n\<lparr>nc_local_boot_id := boot_id_from high low,
          nc_failed := nc_failed n \<or> (nc_heartbeat_built n \<and> hb_peer (nc_heartbeat n) = INVALID_PEER_INDEX)\<rparr>)"

subsection \<open>The calls of the application\<close>

text \<open>Every public operation that changes the component. The code generator and the applications
  register handlers and never remove them, so the call that registers one has no argument.\<close>

datatype component_call =
    CConfigure u8 "cstring option"
  | CAddPeer "cstring option" "cstring option" "cstring option"
  | CAckTimeout u32 | CMaxAttempts u8
  | CStartReliable PeerIndex EspNowFrameKind TransactionId span
  | CStartBackground PeerIndex NetResult
  | CTakeBackground | CResetSender | CTakeMessage
  | CParallelInbound bool | CInterruptibleInbound bool
  | CRegisterHandler | CRegisterDeclarative
  | CObserveIdentity bool | CVerifiedObserver bool
  | CExpectedSource "cstring option" "cstring option"
  | CSendCommand "cstring option" "cstring option" "cstring option" "cstring option" "cstring option" u32 u32
  | CStartCommand PeerIndex NetCommand u32
  | CCancelCommand TransactionId | CExternalDeadline TransactionId
  | CResultObserver "nat option" | CUnsolicitedObserver "nat option"
  | CRuntimeEnabled bool
  | CHeartbeat "cstring option" u32 u32
  | CPeerTrial cstring u32 | CCallbackTrial cstring u32
  | CRequestHistory u32 | CWifiRecovery | CWifiPhase EspIdf u32 string
  | CSendFrame EspIdf PeerIndex span | CTakeFrame | CTakeCompletion

primrec apply_call :: "component_call \<Rightarrow> NetComponent \<Rightarrow> NetComponent" where
  "apply_call (CConfigure c k) n = n\<lparr>nc_radio := snd (radio_configure c k (nc_radio n))\<rparr>"
| "apply_call (CAddPeer d a k) n = n\<lparr>nc_radio := snd (radio_add_peer d a k (nc_radio n))\<rparr>"
| "apply_call (CAckTimeout t) n = n\<lparr>nc_retry_policy := (nc_retry_policy n)\<lparr>rp_ack_timeout_ms := t\<rparr>\<rparr>"
| "apply_call (CMaxAttempts k) n = n\<lparr>nc_retry_policy := (nc_retry_policy n)\<lparr>rp_max_attempts := k\<rparr>\<rparr>"
| "apply_call (CStartReliable p k t d) n = snd (start_reliable_message p k t d n)"
| "apply_call (CStartBackground p r) n = snd (start_background_result p r n)"
| "apply_call CTakeBackground n = snd (take_background_result_completion n)"
| "apply_call CResetSender n = reset_sender n"
| "apply_call CTakeMessage n = snd (component_take_application_message n)"
| "apply_call (CParallelInbound b) n = n\<lparr>nc_parallel_inbound := b\<rparr>"
| "apply_call (CInterruptibleInbound b) n = n\<lparr>nc_interruptible_inbound := b\<rparr>"
| "apply_call CRegisterHandler n = set_command_handler True n"
| "apply_call CRegisterDeclarative n = n\<lparr>nc_command_dispatcher := set_handler True (nc_command_dispatcher n)\<rparr>"
| "apply_call (CObserveIdentity b) n = set_observe_application_identity b n"
| "apply_call (CVerifiedObserver b) n = n\<lparr>nc_verified_command_observer := b\<rparr>"
| "apply_call (CExpectedSource d s) n = snd (set_expected_application_source d s n)"
| "apply_call (CSendCommand p d r c v t now) n = snd (send_command p d r c v t now n)"
| "apply_call (CStartCommand p c now) n = snd (start_command p c now n)"
| "apply_call (CCancelCommand t) n = snd (cancel_command t n)"
| "apply_call (CExternalDeadline t) n = snd (use_external_result_deadline t n)"
| "apply_call (CResultObserver x) n =
     n\<lparr>nc_command_result_observers := add_observer x (nc_command_result_observers n)\<rparr>"
| "apply_call (CUnsolicitedObserver x) n =
     n\<lparr>nc_unsolicited_result_observers := add_observer x (nc_unsolicited_result_observers n)\<rparr>"
| "apply_call (CRuntimeEnabled b) n = set_runtime_enabled b n"
| "apply_call (CHeartbeat d i t) n =
     n\<lparr>nc_heartbeat := configure_heartbeat (radio_peer_index d (nc_radio n)) i t (nc_heartbeat n)\<rparr>"
| "apply_call (CPeerTrial ph now) n = n\<lparr>nc_heartbeat := diagnostic_peer_trial_phase ph now (nc_heartbeat n)\<rparr>"
| "apply_call (CCallbackTrial ph now) n =
     n\<lparr>nc_heartbeat := diagnostic_callback_trial_phase ph now (nc_heartbeat n)\<rparr>"
| "apply_call (CRequestHistory now) n = n\<lparr>nc_recovery := request_recovery_history now (nc_recovery n)\<rparr>"
| "apply_call CWifiRecovery n = n\<lparr>nc_recovery := set_wifi_reconnect_recovery (nc_recovery n)\<rparr>"
| "apply_call (CWifiPhase idf now ph) n =
     n\<lparr>nc_recovery := reconnect_peer_recovery_phase idf now (nc_radio n) ph (nc_recovery n)\<rparr>"
| "apply_call (CSendFrame idf p d) n = n\<lparr>nc_radio := snd (radio_send_frame idf p d (nc_radio n))\<rparr>"
| "apply_call CTakeFrame n = n\<lparr>nc_radio := snd (take_received_frame (nc_radio n))\<rparr>"
| "apply_call CTakeCompletion n = n\<lparr>nc_radio := snd (take_send_completion (nc_radio n))\<rparr>"

text \<open>An observer is called: the call is recorded and the application reacts with calls of its own,
  which \<open>app\<close> names.\<close>

definition call_observer :: "(observer_call \<Rightarrow> component_call list) \<Rightarrow> observer_call \<Rightarrow> NetComponent \<Rightarrow> NetComponent" where
  "call_observer app call n = fold apply_call (app call) (n\<lparr>nc_calls := nc_calls n @ [call]\<rparr>)"

subsection \<open>The invariant\<close>

text \<open>A dispatcher of the component: its own invariant, and a handler for whatever it serves.\<close>

definition lane_ok :: "InboundCommandDispatcher \<Rightarrow> bool" where
  "lane_ok d \<longleftrightarrow> dispatcher_inv d \<and> (serves_command d \<longrightarrow> cd_handler d)"

definition parts_ok :: "NetComponent \<Rightarrow> bool" where
  "parts_ok n \<longleftrightarrow>
     radio_inv (nc_radio n) \<and> runtime_inv (nc_runtime n) \<and>
     rt_active_peer_index (nc_runtime n) < 16 \<and> rt_application_peer_index (nc_runtime n) < 16 \<and>
     sender_inv (nc_sender n) \<and> lane_ok (nc_command_dispatcher n) \<and> lane_ok (nc_parallel_dispatcher n) \<and>
     lane_ok (nc_interrupt_dispatcher n) \<and> heartbeat_inv (nc_heartbeat n) \<and> history_wf (nc_recovery n)"

text \<open>The sender is idle exactly when nobody owns it; a frame of its in flight is the transmission
  the component waits for; a command it delivers is the command of the client in the
  recorded slot.\<close>

definition client_owns :: "ReliableMessageSender \<Rightarrow> CommandClient \<Rightarrow> bool" where
  "client_owns s c \<longleftrightarrow>
     cc_state c = CommandClientState.WAITING_FOR_DELIVERY_ACK \<and>
     env_kind (rs_envelope s) = EspNowFrameKind.COMMAND \<and>
     env_transaction_id (rs_envelope s) = cmd_transaction_id (cc_command c) \<and> rs_peer_index s = cc_peer c"

definition owners_ok :: "NetComponent \<Rightarrow> bool" where
  "owners_ok n \<longleftrightarrow>
     (nc_reliable_message_owner n = ReliableMessageOwner.NONE \<longleftrightarrow> rs_state (nc_sender n) = ReliableSenderState.IDLE) \<and>
     (rs_frame_in_flight (nc_sender n) \<longrightarrow>
        nc_radio_transmission_owner n = SENDER \<and> nc_radio_transmission_peer n = rs_peer_index (nc_sender n)) \<and>
     (nc_reliable_message_owner n = COMMAND_CLIENT \<longrightarrow>
        client_owns (nc_sender n) (client_at (nc_command_sender_slot n) n)) \<and>
     (nc_command_sender_slot n = 0 \<or> nc_dual n \<and> nc_command_sender_slot n = 1)"

definition client_ok :: "CommandClient \<Rightarrow> bool" where
  "client_ok c \<longleftrightarrow>
     (cc_state c \<noteq> CommandClientState.IDLE \<longrightarrow> NetCommand_valid (cc_command c) \<and> cc_peer c \<noteq> INVALID_PEER_INDEX)"

definition clients_ok :: "NetComponent \<Rightarrow> bool" where
  "clients_ok n \<longleftrightarrow>
     client_ok (nc_client n) \<and> client_ok (nc_client_2 n) \<and>
     (nc_dual n \<or> cc_state (nc_client_2 n) = CommandClientState.IDLE)"

definition component_inv :: "NetComponent \<Rightarrow> bool" where
  "component_inv n \<longleftrightarrow> parts_ok n \<and> owners_ok n \<and> clients_ok n"

subsection \<open>What the sender promises its owners\<close>

text \<open>An operation that keeps the message of the sender: it stays idle or busy, and no frame gets in
  flight.\<close>

definition continues :: "ReliableMessageSender \<Rightarrow> ReliableMessageSender \<Rightarrow> bool" where
  "continues s s' \<longleftrightarrow>
     (rs_state s' = ReliableSenderState.IDLE \<longleftrightarrow> rs_state s = ReliableSenderState.IDLE) \<and>
     (rs_frame_in_flight s' \<longrightarrow> rs_frame_in_flight s) \<and>
     rs_peer_index s' = rs_peer_index s \<and> rs_envelope s' = rs_envelope s \<and> rs_local_boot_id s' = rs_local_boot_id s"

lemma sender_loop_continues:
  assumes "sender_inv s"
  shows "continues s (sender_loop now s)"
proof -
  have "rd_state (delivery_loop now (rs_delivery s)) = EspNowDeliveryState.IDLE \<longleftrightarrow>
      rs_state s = ReliableSenderState.IDLE"
    using assms by (cases "rs_state s") (auto simp: sender_inv_def)
  then show ?thesis
    by (cases "rd_state (delivery_loop now (rs_delivery s))") (auto simp: continues_def sender_loop_def Let_def)
qed

lemma sender_complete_continues:
  assumes "sender_inv s"
  shows "continues s (snd (sender_complete_frame ok now s)) \<and>
    \<not> rs_frame_in_flight (snd (sender_complete_frame ok now s))"
proof (cases "rs_frame_in_flight s")
  case True
  then have "rs_state s = FRAME_IN_FLIGHT" using assms by (simp add: sender_inv_def)
  then show ?thesis using True by (simp add: sender_complete_frame_eq [OF assms] continues_def)
qed (simp add: sender_complete_frame_def continues_def)

lemma sender_ack_continues:
  assumes "sender_inv s"
  shows "continues s (snd (sender_accept_ack a s))"
  using assms
  by (cases "rs_state s")
    (auto simp: sender_inv_def continues_def sender_accept_ack_def delivery_accept_ack_def split: if_splits)

lemma sender_start_cases:
  assumes "sender_inv s" and "sender_start p k t v s = (ok, s')"
  shows "if ok then rs_state s = ReliableSenderState.IDLE \<and> rs_state s' \<noteq> ReliableSenderState.IDLE \<and>
           \<not> rs_frame_in_flight s' \<and> rs_peer_index s' = p \<and> env_kind (rs_envelope s') = k \<and>
           env_transaction_id (rs_envelope s') = t
         else continues s s'"
  using assms(2) unfolding sender_start_eq [OF assms(1)]
  by (auto simp: continues_def start_refused_def split: if_splits)

lemma sender_reset_idle [simp]:
  "rs_state (sender_reset s) = ReliableSenderState.IDLE" "\<not> rs_frame_in_flight (sender_reset s)"
  by (simp_all add: sender_reset_def)

lemmas owner_defs = owners_ok_def client_at_def client_owns_def

lemma owners_ok_continue:
  "owners_ok n \<Longrightarrow> continues (nc_sender n) s \<Longrightarrow> owners_ok (n\<lparr>nc_sender := s\<rparr>)"
  by (auto simp: owner_defs continues_def)

lemma owners_ok_reset:
  "owners_ok n \<Longrightarrow>
     owners_ok (n\<lparr>nc_sender := sender_reset s, nc_reliable_message_owner := ReliableMessageOwner.NONE\<rparr>)"
  by (auto simp: owner_defs)

text \<open>The owners who are not the command client.\<close>

lemma owners_ok_start:
  assumes "owners_ok n" and "sender_inv (nc_sender n)" and "sender_start p k t v (nc_sender n) = (True, s)"
    and "owner \<noteq> ReliableMessageOwner.NONE" and "owner \<noteq> COMMAND_CLIENT"
  shows "owners_ok (n\<lparr>nc_sender := s, nc_reliable_message_owner := owner\<rparr>)"
  using assms sender_start_cases [OF assms(2,3)] by (auto simp: owner_defs)

lemma parts_ok_sender: "parts_ok n \<Longrightarrow> sender_inv s \<Longrightarrow> parts_ok (n\<lparr>nc_sender := s\<rparr>)"
  by (simp add: parts_ok_def)

lemma parts_ok_other [simp]:
  "parts_ok (n\<lparr>nc_reliable_message_owner := x\<rparr>) = parts_ok n"
  "parts_ok (n\<lparr>nc_client := c\<rparr>) = parts_ok n" "parts_ok (n\<lparr>nc_client_2 := c\<rparr>) = parts_ok n"
  "parts_ok (n\<lparr>nc_command_sender_slot := slot\<rparr>) = parts_ok n"
  "parts_ok (n\<lparr>nc_last_terminal_peer := i\<rparr>) = parts_ok n"
  "parts_ok (n\<lparr>nc_last_terminal_transaction_id := t\<rparr>) = parts_ok n"
  "parts_ok (n\<lparr>nc_radio_transmission_owner := w\<rparr>) = parts_ok n"
  "parts_ok (n\<lparr>nc_radio_transmission_peer := i\<rparr>) = parts_ok n"
  by (simp_all add: parts_ok_def)

lemma clients_ok_other [simp]:
  "clients_ok (n\<lparr>nc_sender := s\<rparr>) = clients_ok n"
  "clients_ok (n\<lparr>nc_reliable_message_owner := x\<rparr>) = clients_ok n"
  "clients_ok (n\<lparr>nc_command_sender_slot := slot\<rparr>) = clients_ok n"
  by (simp_all add: clients_ok_def)

end
