(* ===== verification/Component_Loop.thy ===== *)
theory Component_Loop
  imports Net_Component
begin

text \<open>
  The second half of \<open>espnow_net_protocol.cpp\<close>: the pass of the main loop that moves frames,
  acknowledgements, commands and results between the parts of the component, in the order of
  the code. The application's command handler is \<open>handler\<close> with its state \<open>h\<close>; the reactions of
  its observers are \<open>app\<close>.
\<close>

subsection \<open>Ending a command\<close>

definition queue_command_result_notification :: "PeerIndex \<Rightarrow> NetResult \<Rightarrow> NetComponent \<Rightarrow> NetComponent" where
  "queue_command_result_notification peer result n =
     (if (\<forall>x\<in>set (nc_command_result_observers n). x = None) \<or> nc_notification_ready n then n
      else n\<lparr>nc_notification := result, nc_notification_peer := peer, nc_notification_ready := True\<rparr>)"

definition finish_command_client :: "NetResult \<Rightarrow> u8 \<Rightarrow> NetComponent \<Rightarrow> NetComponent" where
  "finish_command_client result slot n =
     (let peer = cc_peer (client_at slot n);
          n1 = n\<lparr>nc_last_terminal_peer := peer, nc_last_terminal_transaction_id := res_transaction_id result\<rparr>
      in queue_command_result_notification peer result (clear_command_client slot n1))"

definition client_failure :: "NetErrorCode \<Rightarrow> string \<Rightarrow> u32 \<Rightarrow> CommandClient \<Rightarrow> NetResult" where
  "client_failure error message now_ms c =
     NetResult_init\<lparr>res_transaction_id := cmd_transaction_id (cc_command c), res_transport_failure := True,
       res_status := FAILED, res_latency_ms := now_ms - cc_started_ms c,
       res_error := \<lparr>er_code = error,
         er_retryable = (error = NetErrorCode.TIMED_OUT \<or> error = CONNECTION_FAILED),
         er_message = snd (text_assign MAX_MESSAGE_LENGTH (Some (cstr message)))\<rparr>,
       res_execution := NetExecutionContext_init\<lparr>ex_started :=
         (cc_state c = CommandClientState.WAITING_FOR_RESULT)\<rparr>\<rparr>"

definition fail_command_client :: "NetErrorCode \<Rightarrow> string \<Rightarrow> u32 \<Rightarrow> u8 \<Rightarrow> NetComponent \<Rightarrow> NetComponent" where
  "fail_command_client error message now_ms slot n =
     finish_command_client (client_failure error message now_ms (client_at slot n)) slot
       (n\<lparr>nc_command_client_failure_count := nc_command_client_failure_count n + 1\<rparr>)"

definition process_command_client_result ::
    "EspNowInboundApplicationMessage \<Rightarrow> u32 \<Rightarrow> u8 \<Rightarrow> NetComponent \<Rightarrow> NetComponent" where
  "process_command_client_result inbound now_ms slot n =
     (let c = client_at slot n in
      case result_decode (cmd_transaction_id (cc_command c)) (Some (rm_data (im_message inbound)))
             (now_ms - cc_started_ms c) of
        Inl _ \<Rightarrow> fail_command_client PROTOCOL_ERROR ''invalid functional result'' now_ms slot n
      | Inr result \<Rightarrow>
          if res_status result = IN_PROGRESS then
            queue_command_result_notification (cc_peer c) result
              (n\<lparr>nc_command_client_progress_count := nc_command_client_progress_count n + 1\<rparr>)
          else
            finish_command_client result slot
              (if res_status result = SUCCEEDED
               then n\<lparr>nc_command_client_success_count := nc_command_client_success_count n + 1\<rparr>
               else n\<lparr>nc_command_client_failure_count := nc_command_client_failure_count n + 1\<rparr>))"

text \<open>The two deadline tests of the loop.\<close>

definition expire_command_client :: "u32 \<Rightarrow> u8 \<Rightarrow> NetComponent \<Rightarrow> NetComponent" where
  "expire_command_client now_ms slot n =
     (let c = client_at slot n in
      if cc_state c = CommandClientState.WAITING_FOR_RESULT \<and> \<not> cc_external_deadline c \<and>
         now_ms - cc_started_ms c \<ge> cmd_timeout_ms (cc_command c)
      then fail_command_client NetErrorCode.TIMED_OUT ''functional result timed out'' now_ms slot n else n)"

subsection \<open>Calling the observers\<close>

primrec notify_observers ::
    "(observer_call \<Rightarrow> component_call list) \<Rightarrow> (NetComponent \<Rightarrow> nat option list) \<Rightarrow>
     (nat \<Rightarrow> NetComponent \<Rightarrow> observer_call) \<Rightarrow> nat list \<Rightarrow> NetComponent \<Rightarrow> NetComponent" where
  "notify_observers app observers call [] n = n"
| "notify_observers app observers call (i # is) n =
     notify_observers app observers call is
       (case observers n ! i of None \<Rightarrow> n | Some x \<Rightarrow> call_observer app (call x n) n)"

definition dispatch_command_result_notification ::
    "(observer_call \<Rightarrow> component_call list) \<Rightarrow> NetComponent \<Rightarrow> NetComponent" where
  "dispatch_command_result_notification app n =
     (if \<not> nc_notification_ready n then n
      else
        (notify_observers app nc_command_result_observers
           (\<lambda>x n. OnNetCommandResult x (nc_notification_peer n) (nc_notification n)) [0, 1]
           (n\<lparr>nc_notification_ready := False\<rparr>))
        \<lparr>nc_notification := NetResult_init, nc_notification_peer := INVALID_PEER_INDEX\<rparr>)"

definition has_unsolicited_result_observer :: "NetComponent \<Rightarrow> bool" where
  "has_unsolicited_result_observer n \<longleftrightarrow> (\<exists>x\<in>set (nc_unsolicited_result_observers n). x \<noteq> None)"

definition dispatch_unsolicited_result ::
    "(observer_call \<Rightarrow> component_call list) \<Rightarrow> EspNowInboundApplicationMessage \<Rightarrow> NetComponent \<Rightarrow>
     bool \<times> NetComponent" where
  "dispatch_unsolicited_result app inbound n =
     (if \<not> has_unsolicited_result_observer n then (False, n)
      else case result_decode (env_transaction_id (rm_envelope (im_message inbound)))
                  (Some (rm_data (im_message inbound))) 0 of
        Inl _ \<Rightarrow> (True, n)
      | Inr result \<Rightarrow>
          (True, notify_observers app nc_unsolicited_result_observers
             (\<lambda>x n. OnUnsolicitedNetResult x (im_peer_index inbound) result) [0, 1] n))"

text \<open>\<open>on_command_identity\<close>: the observer of verified commands may neither dispatch nor acknowledge,
  so it has no reaction.\<close>

definition on_command_identity :: "(PeerIndex \<times> NetCommand) option \<Rightarrow> NetComponent \<Rightarrow> NetComponent" where
  "on_command_identity seen n =
     (case seen of None \<Rightarrow> n
      | Some (peer, command) \<Rightarrow>
          if identity_check peer (Some (cmd_source_device_id command)) (cmd_source_boot_id command)
               (nc_peer_application_identity n) = MATCH \<and> nc_verified_command_observer n
          then n\<lparr>nc_calls := nc_calls n @ [OnCommandIdentity peer command]\<rparr> else n)"

subsection \<open>Inbound messages\<close>

definition matching_command_client :: "NetComponent \<Rightarrow> u8 option" where
  "matching_command_client n =
     (let waiting = (\<lambda>c. cc_state c = CommandClientState.WAITING_FOR_RESULT \<and>
            application_message_peer_index (nc_runtime n) = cc_peer c \<and>
            application_message_transaction_id (nc_runtime n) = cmd_transaction_id (cc_command c))
      in if application_message_kind (nc_runtime n) \<noteq> EspNowFrameKind.RESULT then None
         else if waiting (nc_client n) then Some 0
         else if nc_dual n \<and> waiting (nc_client_2 n) then Some 1 else None)"

definition inbound_matches_last_terminal :: "NetComponent \<Rightarrow> bool" where
  "inbound_matches_last_terminal n \<longleftrightarrow>
     nc_last_terminal_transaction_id n \<noteq> 0 \<and> application_message_kind (nc_runtime n) = EspNowFrameKind.RESULT \<and>
     application_message_peer_index (nc_runtime n) = nc_last_terminal_peer n \<and>
     application_message_transaction_id (nc_runtime n) = nc_last_terminal_transaction_id n"

definition interrupt_lane_available :: "NetComponent \<Rightarrow> bool" where
  "interrupt_lane_available n \<longleftrightarrow>
     nc_interruptible_inbound n \<and>
     (cd_state (nc_command_dispatcher n) = ACTIVE \<or>
      (nc_parallel_inbound n \<and> cd_state (nc_parallel_dispatcher n) = ACTIVE)) \<and>
     cd_state (nc_interrupt_dispatcher n) = InboundCommandDispatcherState.IDLE"

definition parallel_lane_available :: "NetComponent \<Rightarrow> bool" where
  "parallel_lane_available n \<longleftrightarrow>
     nc_parallel_inbound n \<and> cd_state (nc_parallel_dispatcher n) = InboundCommandDispatcherState.IDLE"

text \<open>The message stays in the reassembler until its consumer is ready.\<close>

definition message_must_wait :: "NetComponent \<Rightarrow> bool" where
  "message_must_wait n \<longleftrightarrow>
     (let kind = application_message_kind (nc_runtime n);
          client_result = (matching_command_client n \<noteq> None)
      in (kind = EspNowFrameKind.COMMAND \<and>
          cd_state (nc_command_dispatcher n) \<noteq> InboundCommandDispatcherState.IDLE \<and>
          \<not> interrupt_lane_available n \<and> \<not> parallel_lane_available n) \<or>
         (kind = EspNowFrameKind.RESULT \<and> nc_result_message n \<noteq> None \<and>
          \<not> has_unsolicited_result_observer n \<and> \<not> client_result \<and> \<not> inbound_matches_last_terminal n) \<or>
         (kind = EspNowFrameKind.RESULT \<and> client_result \<and> nc_notification_ready n))"

text \<open>An available interrupt lane takes only a stop of the operation that is running.\<close>

definition only_an_interrupt_fits :: "NetComponent \<Rightarrow> bool" where
  "only_an_interrupt_fits n \<longleftrightarrow>
     application_message_kind (nc_runtime n) = EspNowFrameKind.COMMAND \<and>
     cd_state (nc_command_dispatcher n) \<noteq> InboundCommandDispatcherState.IDLE \<and> \<not> parallel_lane_available n"

definition valid_interrupt :: "EspNowInboundApplicationMessage \<Rightarrow> NetComponent \<Rightarrow> bool" where
  "valid_interrupt inbound n \<longleftrightarrow>
     (interrupt_lane_available n \<and>
      can_accept_interrupt inbound (nc_command_dispatcher n) (nc_interrupt_dispatcher n)) \<or>
     (interrupt_lane_available n \<and> nc_parallel_inbound n \<and>
      can_accept_interrupt inbound (nc_parallel_dispatcher n) (nc_interrupt_dispatcher n))"

text \<open>The dispatchers are offered the command one after the other.\<close>

definition offer_interrupt ::
    "'h NetCommandHandler \<Rightarrow> EspNowInboundApplicationMessage \<Rightarrow> u32 \<Rightarrow> NetComponent \<Rightarrow> 'h \<Rightarrow>
     bool \<times> NetComponent \<times> 'h" where
  "offer_interrupt handler inbound now_ms n h =
     (if \<not> nc_interruptible_inbound n then (False, n, h)
      else
        (let (ok, seen, d, h1) = accept_interrupt handler inbound (nc_command_dispatcher n) now_ms
               (nc_interrupt_dispatcher n) h;
             n1 = on_command_identity seen (n\<lparr>nc_interrupt_dispatcher := d\<rparr>)
         in if ok \<or> \<not> nc_parallel_inbound n1 then (ok, n1, h1)
            else
              (let (ok2, seen2, d2, h2) = accept_interrupt handler inbound (nc_parallel_dispatcher n1) now_ms
                     (nc_interrupt_dispatcher n1) h1
               in (ok2, on_command_identity seen2 (n1\<lparr>nc_interrupt_dispatcher := d2\<rparr>), h2))))"

definition offer_command ::
    "'h NetCommandHandler \<Rightarrow> EspNowInboundApplicationMessage \<Rightarrow> u32 \<Rightarrow> NetComponent \<Rightarrow> 'h \<Rightarrow>
     bool \<times> NetComponent \<times> 'h" where
  "offer_command handler inbound now_ms n h =
     (let (ok, n1, h1) = offer_interrupt handler inbound now_ms n h in
      if ok then (True, n1, h1)
      else
        (let (ok2, seen, d, h2) = dispatcher_accept handler inbound now_ms (nc_command_dispatcher n1) h1;
             n2 = on_command_identity seen (n1\<lparr>nc_command_dispatcher := d\<rparr>)
         in if ok2 \<or> \<not> nc_parallel_inbound n2 then (ok2, n2, h2)
            else
              (let (ok3, seen3, d3, h3) = dispatcher_accept handler inbound now_ms (nc_parallel_dispatcher n2) h2
               in (ok3, on_command_identity seen3 (n2\<lparr>nc_parallel_dispatcher := d3\<rparr>), h3))))"

definition process_application_message ::
    "'h NetCommandHandler \<Rightarrow> (observer_call \<Rightarrow> component_call list) \<Rightarrow> u32 \<Rightarrow> NetComponent \<Rightarrow> 'h \<Rightarrow>
     NetComponent \<times> 'h" where
  "process_application_message handler app now_ms n h =
     (if \<not> rt_application_message_ready (nc_runtime n) \<or> message_must_wait n then (n, h)
      else if only_an_interrupt_fits n \<and>
              (case peek_application_message (nc_runtime n) of None \<Rightarrow> True
               | Some inbound \<Rightarrow> \<not> valid_interrupt inbound n) then (n, h)
      else case take_application_message (nc_runtime n) of
        (None, rt) \<Rightarrow> (n\<lparr>nc_runtime := rt\<rparr>, h)
      | (Some inbound, rt) \<Rightarrow>
          (let client_slot = matching_command_client n;
               late_terminal = inbound_matches_last_terminal n;
               n1 = n\<lparr>nc_runtime := rt\<rparr>;
               kind = env_kind (rm_envelope (im_message inbound))
           in if kind = EspNowFrameKind.COMMAND then snd (offer_command handler inbound now_ms n1 h)
              else if kind = EspNowFrameKind.RESULT then
                (case client_slot of
                   Some slot \<Rightarrow> (process_command_client_result inbound now_ms slot n1, h)
                 | None \<Rightarrow>
                     if late_terminal then (n1, h)
                     else (case dispatch_unsolicited_result app inbound n1 of
                         (True, n2) \<Rightarrow> (n2, h)
                       | (False, n2) \<Rightarrow> (n2\<lparr>nc_result_message := Some inbound\<rparr>, h)))
              else (n1, h)))"

subsection \<open>Outbound traffic\<close>

text \<open>\<open>process_dispatcher_\<close>: which dispatcher is served, and what becomes of its result.\<close>

datatype lane = CommandLane | ParallelLane | InterruptLane

definition served_lane :: "NetComponent \<Rightarrow> lane" where
  "served_lane n =
     (if nc_interruptible_inbound n \<and> dispatcher_has_result (nc_interrupt_dispatcher n) then InterruptLane
      else if nc_parallel_inbound n \<and> \<not> dispatcher_has_result (nc_command_dispatcher n) \<and>
              dispatcher_has_result (nc_parallel_dispatcher n) then ParallelLane
      else CommandLane)"

fun lane_dispatcher :: "lane \<Rightarrow> NetComponent \<Rightarrow> InboundCommandDispatcher" where
  "lane_dispatcher CommandLane n = nc_command_dispatcher n"
| "lane_dispatcher ParallelLane n = nc_parallel_dispatcher n"
| "lane_dispatcher InterruptLane n = nc_interrupt_dispatcher n"

fun set_lane_dispatcher :: "lane \<Rightarrow> InboundCommandDispatcher \<Rightarrow> NetComponent \<Rightarrow> NetComponent" where
  "set_lane_dispatcher CommandLane d n = n\<lparr>nc_command_dispatcher := d\<rparr>"
| "set_lane_dispatcher ParallelLane d n = n\<lparr>nc_parallel_dispatcher := d\<rparr>"
| "set_lane_dispatcher InterruptLane d n = n\<lparr>nc_interrupt_dispatcher := d\<rparr>"

definition process_dispatcher :: "NetComponent \<Rightarrow> NetComponent" where
  "process_dispatcher n =
     (if nc_reliable_message_owner n \<noteq> ReliableMessageOwner.NONE \<or>
         rs_state (nc_sender n) \<noteq> ReliableSenderState.IDLE then n
      else case dispatcher_take_result (lane_dispatcher (served_lane n) n) of
        (None, d) \<Rightarrow> n
      | (Some pending, d) \<Rightarrow>
          (let n1 = set_lane_dispatcher (served_lane n) d n in
           case sender_start (pn_peer_index pending) EspNowFrameKind.RESULT (pn_transaction_id pending)
                  (Some (pn_payload pending)) (nc_sender n1) of
             (False, s) \<Rightarrow>
               n1\<lparr>nc_sender := s, nc_result_delivery_failure_count := nc_result_delivery_failure_count n1 + 1\<rparr>
           | (True, s) \<Rightarrow> n1\<lparr>nc_sender := s, nc_reliable_message_owner := DISPATCHER_RESULT\<rparr>))"

text \<open>A delivery that timed out asks the radio for a refresh of the peer and for a recovery.\<close>

definition request_recovery :: "EspIdf \<Rightarrow> u32 \<Rightarrow> NetComponent \<Rightarrow> NetComponent" where
  "request_recovery idf millis n =
     n\<lparr>nc_radio := snd (request_radio_recovery idf millis
         (snd (request_peer_refresh (rs_peer_index (nc_sender n)) (nc_radio n))))\<rparr>"

definition process_owned_sender_completion :: "EspIdf \<Rightarrow> u32 \<Rightarrow> u32 \<Rightarrow> NetComponent \<Rightarrow> NetComponent" where
  "process_owned_sender_completion idf request_ms fail_ms n =
     (let state = rs_state (nc_sender n); slot = nc_command_sender_slot n;
          n1 = (if state = ReliableSenderState.TIMED_OUT then request_recovery idf request_ms n else n)
      in case nc_reliable_message_owner n of
        COMMAND_CLIENT \<Rightarrow>
          (if state = ReliableSenderState.ACKNOWLEDGED then
             (let n2 = reset_sender n in
              if slot = 0 \<or> \<not> nc_dual n2
              then n2\<lparr>nc_client := (nc_client n2)\<lparr>cc_state := CommandClientState.WAITING_FOR_RESULT\<rparr>\<rparr>
              else n2\<lparr>nc_client_2 := (nc_client_2 n2)\<lparr>cc_state := CommandClientState.WAITING_FOR_RESULT\<rparr>\<rparr>)
           else if state = ReliableSenderState.REJECTED then
             fail_command_client REMOTE_REJECTED ''delivery rejected'' fail_ms slot (reset_sender n)
           else if state = ReliableSenderState.TIMED_OUT then
             fail_command_client NetErrorCode.TIMED_OUT ''delivery acknowledgement timed out'' fail_ms slot
               (reset_sender n1)
           else n)
      | BACKGROUND_RESULT \<Rightarrow>
          (if state = ReliableSenderState.ACKNOWLEDGED then
             reset_sender (n\<lparr>nc_background_result_success_count := nc_background_result_success_count n + 1,
               nc_background_result_succeeded := True, nc_background_result_completion_ready := True\<rparr>)
           else if state = ReliableSenderState.REJECTED \<or> state = ReliableSenderState.TIMED_OUT then
             reset_sender (n1\<lparr>nc_background_result_failure_count := nc_background_result_failure_count n1 + 1,
               nc_background_result_succeeded := False, nc_background_result_completion_ready := True\<rparr>)
           else n)
      | DISPATCHER_RESULT \<Rightarrow>
          (if state = ReliableSenderState.ACKNOWLEDGED then
             reset_sender (n\<lparr>nc_result_delivery_success_count := nc_result_delivery_success_count n + 1\<rparr>)
           else if state = ReliableSenderState.REJECTED \<or> state = ReliableSenderState.TIMED_OUT then
             reset_sender (n1\<lparr>nc_result_delivery_failure_count := nc_result_delivery_failure_count n1 + 1\<rparr>)
           else n)
      | _ \<Rightarrow> n)"

definition process_send_completion :: "u32 \<Rightarrow> NetComponent \<Rightarrow> NetComponent" where
  "process_send_completion now_ms n =
     (case take_send_completion (nc_radio n) of
        (None, r) \<Rightarrow> n\<lparr>nc_radio := r\<rparr>
      | (Some completion, r) \<Rightarrow>
          (let n1 = n\<lparr>nc_radio := r\<rparr> in
           if nc_radio_transmission_owner n1 = RadioTransmissionOwner.NONE \<or>
              sc_peer_index completion \<noteq> nc_radio_transmission_peer n1 then n1
           else
             (let n2 = (if nc_radio_transmission_owner n1 = SENDER \<and> rs_frame_in_flight (nc_sender n1)
                        then n1\<lparr>nc_sender := snd (sender_complete_frame (sc_succeeded completion) now_ms (nc_sender n1))\<rparr>
                        else n1)
              in n2\<lparr>nc_radio_transmission_owner := RadioTransmissionOwner.NONE,
                    nc_radio_transmission_peer := INVALID_PEER_INDEX\<rparr>)))"

definition component_receive_heartbeat ::
    "u32 \<Rightarrow> EspNowReceivedFrame \<Rightarrow> NetComponent \<Rightarrow> bool \<times> NetComponent" where
  "component_receive_heartbeat millis received n =
     (if \<not> nc_heartbeat_built n then (False, n)
      else
        (let (consumed, hb) = receive_heartbeat (nc_local_boot_id n) received millis (nc_heartbeat n)
         in (consumed, n\<lparr>nc_heartbeat := hb\<rparr>)))"

definition accept_received_frame :: "EspNowReceivedFrame \<Rightarrow> NetComponent \<Rightarrow> NetComponent" where
  "accept_received_frame received n =
     (let (accepted, rt) = runtime_accept received (nc_runtime n) in
      if accepted \<noteq> DELIVERY_ACK_READY then n\<lparr>nc_runtime := rt\<rparr>
      else case take_delivery_ack rt of
        (None, rt1) \<Rightarrow> n\<lparr>nc_runtime := rt1\<rparr>
      | (Some ack, rt1) \<Rightarrow> n\<lparr>nc_runtime := rt1, nc_sender := snd (sender_accept_ack ack (nc_sender n))\<rparr>)"

definition process_received_frame :: "u32 \<Rightarrow> NetComponent \<Rightarrow> NetComponent" where
  "process_received_frame millis n =
     (case take_received_frame (nc_radio n) of
        (None, r) \<Rightarrow> n\<lparr>nc_radio := r\<rparr>
      | (Some received, r) \<Rightarrow>
          (case component_receive_heartbeat millis received (n\<lparr>nc_radio := r\<rparr>) of
             (True, n1) \<Rightarrow> n1
           | (False, n1) \<Rightarrow> accept_received_frame received n1))"

definition dispatch_sender_frame :: "EspIdf \<Rightarrow> u32 \<Rightarrow> NetComponent \<Rightarrow> NetComponent" where
  "dispatch_sender_frame idf now_ms n =
     (if nc_radio_transmission_owner n \<noteq> RadioTransmissionOwner.NONE then n
      else case sender_take_frame (nc_sender n) of
        (None, s) \<Rightarrow> n\<lparr>nc_sender := s\<rparr>
      | (Some (peer, frame), s) \<Rightarrow>
          (case radio_send_frame idf peer (Some frame) (nc_radio n) of
             (False, r) \<Rightarrow> n\<lparr>nc_radio := r, nc_sender := snd (sender_complete_frame False now_ms s)\<rparr>
           | (True, r) \<Rightarrow>
               n\<lparr>nc_radio := r, nc_sender := s, nc_radio_transmission_owner := SENDER,
                 nc_radio_transmission_peer := peer\<rparr>))"

text \<open>The frame that carries an acknowledgement.\<close>

definition ack_frame :: "u64 \<Rightarrow> u32 \<Rightarrow> EspNowAckPayload \<Rightarrow> bytes \<Rightarrow> EspNowFrameError + bytes" where
  "ack_frame boot sequence ack payload =
     encode_fragment (EspNowFrameEnvelope_init\<lparr>env_kind := EspNowFrameKind.ACK, env_source_boot_id := boot,
         env_transaction_id := dk_transaction_id (ack_acknowledged ack), env_sequence := sequence\<rparr>)
       (Some payload) (length payload) 0"

definition dispatch_application_ack :: "EspIdf \<Rightarrow> NetComponent \<Rightarrow> NetComponent" where
  "dispatch_application_ack idf n =
     (if nc_radio_transmission_owner n \<noteq> RadioTransmissionOwner.NONE then n
      else case take_application_ack (nc_runtime n) of
        (None, rt) \<Rightarrow> n\<lparr>nc_runtime := rt\<rparr>
      | (Some pending, rt) \<Rightarrow>
          (case ack_encode (pa_payload pending) of
             None \<Rightarrow> n\<lparr>nc_runtime := rt\<rparr>
           | Some payload \<Rightarrow>
               (let n1 = n\<lparr>nc_runtime := rt, nc_ack_sequence := next_sequence (nc_ack_sequence n)\<rparr> in
                case ack_frame (nc_local_boot_id n1) (nc_ack_sequence n1) (pa_payload pending) payload of
                  Inl _ \<Rightarrow> n1
                | Inr frame \<Rightarrow>
                    (case radio_send_frame idf (pa_peer_index pending) (Some frame) (nc_radio n1) of
                       (False, r) \<Rightarrow> n1\<lparr>nc_radio := r\<rparr>
                     | (True, r) \<Rightarrow>
                         n1\<lparr>nc_radio := r, nc_radio_transmission_owner := RadioTransmissionOwner.ACK,
                            nc_radio_transmission_peer := pa_peer_index pending\<rparr>))))"

subsection \<open>The loop\<close>

definition transmitter_idle :: "NetComponent \<Rightarrow> bool" where
  "transmitter_idle n \<longleftrightarrow>
     nc_radio_transmission_owner n = RadioTransmissionOwner.NONE \<and>
     nc_reliable_message_owner n = ReliableMessageOwner.NONE \<and>
     rs_state (nc_sender n) = ReliableSenderState.IDLE"

definition recovery_permitted :: "NetComponent \<Rightarrow> bool" where
  "recovery_permitted n \<longleftrightarrow>
     transmitter_idle n \<and> cc_state (nc_client n) = CommandClientState.IDLE \<and>
     (nc_dual n \<longrightarrow> cc_state (nc_client_2 n) = CommandClientState.IDLE)"

definition component_heartbeat_tick :: "u32 \<Rightarrow> NetComponent \<Rightarrow> NetComponent" where
  "component_heartbeat_tick now_ms n =
     (if nc_heartbeat_built n
      then n\<lparr>nc_heartbeat := snd (heartbeat_tick (transmitter_idle n) now_ms (nc_heartbeat n))\<rparr> else n)"

definition component_dispatch_heartbeat :: "EspIdf \<Rightarrow> u32 \<Rightarrow> NetComponent \<Rightarrow> NetComponent" where
  "component_dispatch_heartbeat idf now_ms n =
     (if \<not> nc_heartbeat_built n then n
      else
        (let peer = hb_peer (nc_heartbeat n);
             (sent, hb, r) = dispatch_heartbeat (transmitter_idle n) (nc_local_boot_id n)
               (\<lambda>payload r. radio_send_frame idf peer (Some payload) r) now_ms (nc_heartbeat n) (nc_radio n);
             n1 = n\<lparr>nc_heartbeat := hb, nc_radio := r\<rparr>
         in case sent of None \<Rightarrow> n1
              | Some _ \<Rightarrow> n1\<lparr>nc_radio_transmission_owner := HEARTBEAT, nc_radio_transmission_peer := peer\<rparr>))"

text \<open>What one pass reads from outside: the platform, the clock at its start and at the later
  readings, the log client and the Wi-Fi component.\<close>

record LoopInput =
  li_idf :: EspIdf
  li_now_ms :: u32
  li_tick_ms :: u32
  li_frame_ms :: u32
  li_request_ms :: u32
  li_fail_ms :: u32
  li_log_connected :: bool
  li_wifi_disabled :: bool

definition dispatchers_loop ::
    "'h NetCommandHandler \<Rightarrow> u32 \<Rightarrow> NetComponent \<Rightarrow> 'h \<Rightarrow> (NetComponent \<times> 'h) option" where
  "dispatchers_loop handler now_ms n h =
     (case dispatcher_loop handler now_ms (nc_command_dispatcher n) h of None \<Rightarrow> None
      | Some (d, h1) \<Rightarrow>
          (let n1 = n\<lparr>nc_command_dispatcher := d\<rparr> in
           case (if nc_parallel_inbound n1 then dispatcher_loop handler now_ms (nc_parallel_dispatcher n1) h1
                 else Some (nc_parallel_dispatcher n1, h1)) of None \<Rightarrow> None
           | Some (d2, h2) \<Rightarrow>
               (let n2 = n1\<lparr>nc_parallel_dispatcher := d2\<rparr> in
                case (if nc_interruptible_inbound n2 then dispatcher_loop handler now_ms (nc_interrupt_dispatcher n2) h2
                      else Some (nc_interrupt_dispatcher n2, h2)) of None \<Rightarrow> None
                | Some (d3, h3) \<Rightarrow> Some (n2\<lparr>nc_interrupt_dispatcher := d3\<rparr>, h3))))"

text \<open>The part of the pass before the tests that end it early, and the two halves of the rest.\<close>

definition loop_supervision :: "LoopInput \<Rightarrow> NetComponent \<Rightarrow> NetComponent" where
  "loop_supervision li n =
     (let permitted = recovery_permitted n;
          n1 = n\<lparr>nc_recovery := reconnect_peer_recovery_tick (li_idf li) (li_log_connected li) (li_wifi_disabled li)
                   (nc_runtime_enabled n \<and> \<not> nc_failed n) (li_tick_ms li) permitted (nc_radio n) (nc_recovery n)\<rparr>;
          n2 = n1\<lparr>nc_radio := radio_loop (li_idf li) (li_now_ms li) (set_recovery_permitted permitted (nc_radio n1))\<rparr>
      in component_heartbeat_tick (li_now_ms li) n2)"

definition loop_inbound ::
    "'h NetCommandHandler \<Rightarrow> (observer_call \<Rightarrow> component_call list) \<Rightarrow> LoopInput \<Rightarrow> NetComponent \<Rightarrow> 'h \<Rightarrow>
     (NetComponent \<times> 'h) option" where
  "loop_inbound handler app li n h =
     (let now = li_now_ms li;
          n1 = process_received_frame (li_frame_ms li)
                 (process_send_completion now (dispatch_command_result_notification app n));
          (n2, h1) = process_application_message handler app now n1 h;
          n3 = expire_command_client now 0 n2;
          n4 = (if nc_dual n3 then expire_command_client now 1 n3 else n3)
      in dispatchers_loop handler now n4 h1)"

definition loop_outbound :: "LoopInput \<Rightarrow> NetComponent \<Rightarrow> NetComponent" where
  "loop_outbound li n =
     (let now = li_now_ms li; idf = li_idf li;
          n1 = n\<lparr>nc_sender := sender_loop now (nc_sender n)\<rparr>;
          n2 = process_dispatcher (process_owned_sender_completion idf (li_request_ms li) (li_fail_ms li) n1)
      in component_dispatch_heartbeat idf now (dispatch_sender_frame idf now (dispatch_application_ack idf n2)))"

text \<open>\<open>None\<close> is the dereference of a null handler.\<close>

definition component_loop ::
    "'h NetCommandHandler \<Rightarrow> (observer_call \<Rightarrow> component_call list) \<Rightarrow> LoopInput \<Rightarrow> NetComponent \<Rightarrow> 'h \<Rightarrow>
     (NetComponent \<times> 'h) option" where
  "component_loop handler app li n h =
     (let n1 = loop_supervision li n in
      if \<not> nr_initialized (nc_radio n1) \<or> nc_failed n1 then Some (n1, h)
      else if \<not> nc_runtime_enabled n1 then Some (discard_radio_events n1, h)
      else case loop_inbound handler app li n1 h of None \<Rightarrow> None
        | Some (n2, h1) \<Rightarrow> Some (loop_outbound li n2, h1))"

text \<open>Every state of the component: the application's calls, \<open>setup\<close>, passes of the loop once
  \<open>setup\<close> has drawn a boot identifier, and the callbacks of the radio, in any order and with
  any behaviour of the platform, the application and the handler's own state.\<close>

inductive component_reach :: "'h NetCommandHandler \<Rightarrow> NetComponent \<Rightarrow> 'h \<Rightarrow> bool" for handler where
  component_start: "component_reach handler (component_init dual heartbeat diagnostics) h"
| component_called: "component_reach handler n h \<Longrightarrow> component_reach handler (apply_call c n) h"
| component_set_up: "component_reach handler n h \<Longrightarrow> component_reach handler (component_setup high low n) h"
| component_looped: "component_reach handler n h \<Longrightarrow> nc_local_boot_id n \<noteq> 0 \<Longrightarrow>
    component_loop handler app li n h = Some (n', h') \<Longrightarrow> component_reach handler n' h'"
| component_received: "component_reach handler n h \<Longrightarrow>
    component_reach handler (n\<lparr>nc_radio := receive_callback info data len (nc_radio n)\<rparr>) h"
| component_sent: "component_reach handler n h \<Longrightarrow>
    component_reach handler (n\<lparr>nc_radio := send_callback address ok (nc_radio n)\<rparr>) h"
| component_handler: "component_reach handler n h \<Longrightarrow> component_reach handler n h'"

end
