(* ===== verification/Component_Invariant.thy ===== *)
theory Component_Invariant
  imports Component_Loop
begin

text \<open>
  Every reachable state of the component satisfies \<open>component_inv\<close>: the invariants of its parts
  hold together, and the fields by which the parts refer to each other (who owns the sender,
  whose frame is in the air, which client waits) agree with the parts.
\<close>

subsection \<open>Which fields matter\<close>

lemmas inv_defs = component_inv_def parts_ok_def clients_ok_def owners_ok_def client_at_def

lemma component_inv_other [simp]:
  "component_inv (n\<lparr>nc_parallel_inbound := b\<rparr>) = component_inv n"
  "component_inv (n\<lparr>nc_interruptible_inbound := b\<rparr>) = component_inv n"
  "component_inv (n\<lparr>nc_peer_application_identity := i\<rparr>) = component_inv n"
  "component_inv (n\<lparr>nc_retry_policy := p\<rparr>) = component_inv n"
  "component_inv (n\<lparr>nc_result_message := m\<rparr>) = component_inv n"
  "component_inv (n\<lparr>nc_result_delivery_success_count := k\<rparr>) = component_inv n"
  "component_inv (n\<lparr>nc_result_delivery_failure_count := k\<rparr>) = component_inv n"
  "component_inv (n\<lparr>nc_background_result_success_count := k\<rparr>) = component_inv n"
  "component_inv (n\<lparr>nc_background_result_failure_count := k\<rparr>) = component_inv n"
  "component_inv (n\<lparr>nc_background_result_transaction_id := t\<rparr>) = component_inv n"
  "component_inv (n\<lparr>nc_background_result_completion_ready := b\<rparr>) = component_inv n"
  "component_inv (n\<lparr>nc_background_result_succeeded := b\<rparr>) = component_inv n"
  "component_inv (n\<lparr>nc_command_result_observers := os\<rparr>) = component_inv n"
  "component_inv (n\<lparr>nc_unsolicited_result_observers := os\<rparr>) = component_inv n"
  "component_inv (n\<lparr>nc_verified_command_observer := b\<rparr>) = component_inv n"
  "component_inv (n\<lparr>nc_notification := r\<rparr>) = component_inv n"
  "component_inv (n\<lparr>nc_notification_peer := i2\<rparr>) = component_inv n"
  "component_inv (n\<lparr>nc_notification_ready := b\<rparr>) = component_inv n"
  "component_inv (n\<lparr>nc_next_declarative_transaction_id := t\<rparr>) = component_inv n"
  "component_inv (n\<lparr>nc_command_client_progress_count := k\<rparr>) = component_inv n"
  "component_inv (n\<lparr>nc_command_client_success_count := k\<rparr>) = component_inv n"
  "component_inv (n\<lparr>nc_command_client_failure_count := k\<rparr>) = component_inv n"
  "component_inv (n\<lparr>nc_command_client_cancel_count := k\<rparr>) = component_inv n"
  "component_inv (n\<lparr>nc_last_terminal_peer := i2\<rparr>) = component_inv n"
  "component_inv (n\<lparr>nc_last_terminal_transaction_id := t\<rparr>) = component_inv n"
  "component_inv (n\<lparr>nc_local_boot_id := boot\<rparr>) = component_inv n"
  "component_inv (n\<lparr>nc_ack_sequence := k\<rparr>) = component_inv n"
  "component_inv (n\<lparr>nc_runtime_enabled := b\<rparr>) = component_inv n"
  "component_inv (n\<lparr>nc_failed := b\<rparr>) = component_inv n"
  "component_inv (n\<lparr>nc_calls := cs\<rparr>) = component_inv n"
  by (simp_all add: inv_defs)

lemma component_inv_parts:
  assumes "component_inv n"
  shows "radio_inv r \<Longrightarrow> component_inv (n\<lparr>nc_radio := r\<rparr>)"
    and "runtime_inv rt \<Longrightarrow> rt_active_peer_index rt < 16 \<Longrightarrow> rt_application_peer_index rt < 16 \<Longrightarrow>
      component_inv (n\<lparr>nc_runtime := rt\<rparr>)"
    and "lane_ok d \<Longrightarrow> component_inv (n\<lparr>nc_command_dispatcher := d\<rparr>)"
    and "lane_ok d \<Longrightarrow> component_inv (n\<lparr>nc_parallel_dispatcher := d\<rparr>)"
    and "lane_ok d \<Longrightarrow> component_inv (n\<lparr>nc_interrupt_dispatcher := d\<rparr>)"
    and "heartbeat_inv hb \<Longrightarrow> component_inv (n\<lparr>nc_heartbeat := hb\<rparr>)"
    and "history_wf w \<Longrightarrow> component_inv (n\<lparr>nc_recovery := w\<rparr>)"
  using assms by (simp_all add: inv_defs split del: if_split cong: if_cong)

lemma component_inv_sender:
  assumes "component_inv n" and "continues (nc_sender n) s" and "sender_inv s"
  shows "component_inv (n\<lparr>nc_sender := s\<rparr>)"
  using assms owners_ok_continue by (simp add: component_inv_def parts_ok_sender)

lemma component_invD:
  assumes "component_inv n"
  shows "radio_inv (nc_radio n)" "runtime_inv (nc_runtime n)" "rt_active_peer_index (nc_runtime n) < 16"
    "rt_application_peer_index (nc_runtime n) < 16" "sender_inv (nc_sender n)"
    "lane_ok (nc_command_dispatcher n)" "lane_ok (nc_parallel_dispatcher n)" "lane_ok (nc_interrupt_dispatcher n)"
    "heartbeat_inv (nc_heartbeat n)" "history_wf (nc_recovery n)"
  using assms by (simp_all add: component_inv_def parts_ok_def)

subsection \<open>Owning and releasing the sender\<close>

lemma reset_sender_inv: "component_inv n \<Longrightarrow> component_inv (reset_sender n)"
  using owners_ok_reset [of n "nc_sender n"] sender_reset_inv [of "nc_sender n"]
  by (simp add: component_inv_def reset_sender_def parts_ok_def)

lemma start_inv:
  assumes "component_inv n" and "sender_start p k t v (nc_sender n) = (ok, s)"
  shows "\<not> ok \<Longrightarrow> component_inv (n\<lparr>nc_sender := s\<rparr>)"
    and "ok \<Longrightarrow> owner \<noteq> ReliableMessageOwner.NONE \<Longrightarrow> owner \<noteq> COMMAND_CLIENT \<Longrightarrow>
      component_inv (n\<lparr>nc_sender := s, nc_reliable_message_owner := owner\<rparr>)"
proof -
  have s: "sender_inv s" using sender_start_inv [OF component_invD(5) [OF assms(1)]] assms(2) by (metis snd_conv)
  show "component_inv (n\<lparr>nc_sender := s\<rparr>)" if "\<not> ok"
    using that sender_start_cases [OF component_invD(5) [OF assms(1)] assms(2)] s
    by (intro component_inv_sender [OF assms(1)]) auto
  show "component_inv (n\<lparr>nc_sender := s, nc_reliable_message_owner := owner\<rparr>)"
    if "ok" "owner \<noteq> ReliableMessageOwner.NONE" "owner \<noteq> COMMAND_CLIENT"
    using that assms s owners_ok_start [of n p k t v s owner]
    by (simp add: component_inv_def parts_ok_def)
qed

lemma start_reliable_inv: "component_inv n \<Longrightarrow> component_inv (snd (start_reliable_message p k t d n))"
  by (auto simp: start_reliable_message_def start_inv split: prod.split bool.split)

lemma start_background_inv: "component_inv n \<Longrightarrow> component_inv (snd (start_background_result p r n))"
  by (auto simp: start_background_result_def start_inv split: prod.split bool.split sum.split)

lemma start_command_inv:
  assumes "component_inv n"
  shows "component_inv (snd (start_command p c now n))"
proof (cases "\<exists>encoded s. can_start_command n \<and> p \<noteq> INVALID_PEER_INDEX \<and> NetCommand_valid c \<and>
    command_encode c = Inr encoded \<and>
    sender_start p EspNowFrameKind.COMMAND (cmd_transaction_id c) (Some encoded) (nc_sender n) = (True, s)")
  case True
  then obtain encoded s where
      s: "sender_start p EspNowFrameKind.COMMAND (cmd_transaction_id c) (Some encoded) (nc_sender n) = (True, s)"
    and ok: "can_start_command n" "p \<noteq> INVALID_PEER_INDEX" "NetCommand_valid c" "command_encode c = Inr encoded"
    by blast
  have "sender_inv s" using sender_start_inv [OF component_invD(5) [OF assms]] s by (metis snd_conv)
  then show ?thesis
    using assms s ok sender_start_cases [OF component_invD(5) [OF assms] s]
    by (simp add: start_command_def component_inv_def parts_ok_def)
      (auto simp: owner_defs clients_ok_def client_ok_def can_start_command_def)
next
  case False
  then show ?thesis
    using assms by (auto simp: start_command_def start_inv split: prod.split bool.split sum.split)
qed

lemma send_command_inv: "component_inv n \<Longrightarrow> component_inv (snd (send_command p d r c v t now n))"
  by (auto simp: send_command_def Let_def intro!: start_command_inv split: prod.split)

subsection \<open>Releasing the client\<close>

text \<open>A client may be cleared unless it owns the sender.\<close>

lemma clear_client_inv:
  assumes "component_inv n"
    and "nc_reliable_message_owner n = COMMAND_CLIENT \<Longrightarrow> nc_command_sender_slot n \<noteq> slot"
    and "slot = 0 \<or> slot = 1"
  shows "component_inv (clear_command_client slot n)"
  using assms
  by (auto simp: component_inv_def clear_command_client_def Let_def)
    (auto simp: owner_defs clients_ok_def client_ok_def)

lemma client_of_transaction_slot: "client_of_transaction t n = Some slot \<Longrightarrow> slot = 0 \<or> slot = 1"
  by (auto simp: client_of_transaction_def split: if_splits)

lemma cancel_command_inv:
  assumes "component_inv n"
  shows "component_inv (snd (cancel_command t n))"
proof (cases "client_of_transaction t n")
  case (Some slot)
  have "component_inv (reset_sender n)" using assms by (rule reset_sender_inv)
  then show ?thesis
    using assms Some client_of_transaction_slot [OF Some]
    by (auto simp: cancel_command_def Let_def intro!: clear_client_inv) (simp_all add: reset_sender_def)
qed (use assms in \<open>simp add: cancel_command_def\<close>)

lemma external_deadline_inv: "component_inv n \<Longrightarrow> component_inv (snd (use_external_result_deadline t n))"
  by (auto simp: use_external_result_deadline_def component_inv_def split: option.split)
    (auto simp: owner_defs clients_ok_def client_ok_def)

subsection \<open>The application's calls\<close>

text \<open>While no frame of the sender is in flight, the transmission may change hands.\<close>

lemma transmission_inv:
  "component_inv n \<Longrightarrow> \<not> rs_frame_in_flight (nc_sender n) \<Longrightarrow>
     component_inv (n\<lparr>nc_radio_transmission_owner := w, nc_radio_transmission_peer := i\<rparr>)"
  by (simp add: inv_defs split del: if_split cong: if_cong)

lemma discard_received_inv: "radio_inv r \<Longrightarrow> radio_inv (discard_received_frames k r)"
  by (induction k arbitrary: r) (auto split: prod.split option.split dest: take_received_frame_inv)

lemma discard_completions_inv: "radio_inv r \<Longrightarrow> radio_inv (discard_send_completions k r)"
  by (induction k arbitrary: r) (auto split: prod.split option.split dest: take_send_completion_inv)

lemma discard_inv: "component_inv n \<Longrightarrow> component_inv (discard_radio_events n)"
  unfolding discard_radio_events_def
  by (intro component_inv_parts(1) discard_completions_inv discard_received_inv component_invD(1))

lemma cancel_keeps_quiet:
  "\<not> rs_frame_in_flight (nc_sender n) \<Longrightarrow> \<not> rs_frame_in_flight (nc_sender (snd (cancel_command t n)))"
  by (auto simp: cancel_command_def clear_command_client_def Let_def split: option.split)

lemma stop_heartbeat_inv: "component_inv n \<Longrightarrow> component_inv (stop_heartbeat n)"
  by (auto simp: stop_heartbeat_def heartbeat_inv_def exchange_reset_def intro!: component_inv_parts(6))

lemma cancel_active_inv:
  assumes "component_inv n" and "\<not> rs_frame_in_flight (nc_sender n)"
  shows "component_inv (cancel_active_clients n) \<and> \<not> rs_frame_in_flight (nc_sender (cancel_active_clients n))"
  using assms by (simp add: cancel_active_clients_def cancel_command_inv cancel_keeps_quiet Let_def)

lemma runtime_enabled_inv:
  assumes "component_inv n"
  shows "component_inv (set_runtime_enabled b n)"
proof -
  let ?n = "reset_sender (stop_heartbeat (n\<lparr>nc_runtime_enabled := False\<rparr>))"
  have "component_inv ?n" by (simp add: assms stop_heartbeat_inv reset_sender_inv)
  then have "component_inv (cancel_active_clients ?n) \<and> \<not> rs_frame_in_flight (nc_sender (cancel_active_clients ?n))"
    by (rule cancel_active_inv) (simp add: reset_sender_def)
  then show ?thesis using assms by (simp add: set_runtime_enabled_def discard_inv transmission_inv)
qed

lemma heartbeat_calls_inv:
  "heartbeat_inv hb \<Longrightarrow> heartbeat_inv (configure_heartbeat p i t hb)"
  "heartbeat_inv hb \<Longrightarrow> heartbeat_inv (diagnostic_peer_trial_phase ph now hb)"
  "heartbeat_inv hb \<Longrightarrow> heartbeat_inv (diagnostic_callback_trial_phase ph now hb)"
  by (simp_all add: heartbeat_inv_def configure_heartbeat_def diagnostic_peer_trial_phase_def
      diagnostic_callback_trial_phase_def Let_def)

lemma history_wf_flags [simp]:
  "history_wf (p\<lparr>pw_attempt := b\<rparr>) = history_wf p" "history_wf (p\<lparr>pw_pending := b\<rparr>) = history_wf p"
  "history_wf (p\<lparr>pw_wifi := b\<rparr>) = history_wf p" "history_wf (p\<lparr>pw_dump_due := t\<rparr>) = history_wf p"
  "history_wf (p\<lparr>pw_dump_requested := b\<rparr>) = history_wf p" "history_wf (p\<lparr>pw_dump_active := b\<rparr>) = history_wf p"
  by (simp_all add: history_wf_def)

lemma record_event_wf: "history_wf p \<Longrightarrow> history_wf (record_recovery_event idf ms r ev e i p)"
  by (simp add: record_recovery_event_def history_wf_put)

lemma recovery_calls_wf:
  "history_wf p \<Longrightarrow> history_wf (request_recovery_history ms p)"
  "history_wf p \<Longrightarrow> history_wf (set_wifi_reconnect_recovery p)"
  "history_wf p \<Longrightarrow> history_wf (reconnect_peer_recovery_phase idf ms r ph p)"
  by (simp_all add: request_recovery_history_def set_wifi_reconnect_recovery_def reconnect_peer_recovery_phase_def
      record_event_wf Let_def)

lemma lane_ok_registered:
  "lane_ok d \<Longrightarrow> lane_ok (set_handler True d)" "lane_ok d \<Longrightarrow> lane_ok (set_identity_observer b d)"
  by (simp_all add: lane_ok_def dispatcher_inv_def serves_command_def set_handler_def set_identity_observer_def)

lemma radio_calls_inv:
  assumes "radio_inv r"
  shows "radio_inv (snd (radio_send_frame idf p d r))" "radio_inv (snd (request_peer_refresh p r))"
    "radio_inv (snd (request_radio_recovery idf ms r))" "radio_inv (set_recovery_permitted b r)"
    "radio_inv (snd (take_received_frame r))" "radio_inv (snd (take_send_completion r))"
  using radio_machine.inv_step [OF assms, of "NSend idf p d"] radio_machine.inv_step [OF assms, of "NRefresh p"]
    radio_machine.inv_step [OF assms, of "NRecovery idf ms"] radio_machine.inv_step [OF assms, of "NPermit b"]
    radio_machine.inv_step [OF assms, of NTakeFrame] radio_machine.inv_step [OF assms, of NTakeCompletion]
  by simp_all

lemma handler_calls_inv:
  assumes "component_inv n"
  shows "component_inv (set_command_handler True n)" and "component_inv (set_observe_application_identity b n)"
  using assms lane_ok_registered by (simp_all add: inv_defs set_command_handler_def set_observe_application_identity_def
      split del: if_split cong: if_cong)

lemma apply_call_inv:
  assumes "component_inv n"
  shows "component_inv (apply_call c n)"
proof -
  note parts = component_inv_parts [OF assms] and d = component_invD [OF assms]
  show ?thesis
    using assms
    by (cases c)
      (simp_all add: start_reliable_inv start_background_inv take_background_result_completion_def reset_sender_inv
        component_take_application_message_def handler_calls_inv set_expected_application_source_def
        send_command_inv start_command_inv cancel_command_inv external_deadline_inv runtime_enabled_inv
        case_prod_beta parts(1,3,6,7) d lane_ok_registered heartbeat_calls_inv recovery_calls_wf radio_calls_inv
        radio_configure_inv radio_add_peer_inv)
qed

lemma fold_calls_inv: "component_inv n \<Longrightarrow> component_inv (fold apply_call cs n)"
  by (induction cs arbitrary: n) (simp_all add: apply_call_inv)

lemma call_observer_inv: "component_inv n \<Longrightarrow> component_inv (call_observer app call n)"
  by (simp add: call_observer_def fold_calls_inv)

lemma notify_observers_inv: "component_inv n \<Longrightarrow> component_inv (notify_observers app obs call is n)"
  by (induction "is" arbitrary: n) (auto simp: call_observer_inv split: option.split)

subsection \<open>The inbound half of the loop\<close>

text \<open>The runtime only knows peers that frames came from.\<close>

definition peers_below :: "EspNowProtocolRuntime \<Rightarrow> bool" where
  "peers_below rt \<longleftrightarrow> rt_active_peer_index rt < 16 \<and> rt_application_peer_index rt < 16"

lemma peers_below_fields [simp]:
  "peers_below (rt\<lparr>rt_reassembler := r\<rparr>) = peers_below rt" "peers_below (rt\<lparr>rt_assembling := b\<rparr>) = peers_below rt"
  "peers_below (rt\<lparr>rt_invalid_frame_count := k\<rparr>) = peers_below rt"
  "peers_below (rt\<lparr>rt_duplicate_count := k\<rparr>) = peers_below rt"
  "peers_below (rt\<lparr>rt_rejected_count := k\<rparr>) = peers_below rt"
  "peers_below (rt\<lparr>rt_delivery_ack := a\<rparr>) = peers_below rt"
  "peers_below (rt\<lparr>rt_delivery_ack_ready := b\<rparr>) = peers_below rt"
  "peers_below (rt\<lparr>rt_application_ack := p\<rparr>) = peers_below rt"
  "peers_below (rt\<lparr>rt_application_ack_ready := b\<rparr>) = peers_below rt"
  "peers_below (rt\<lparr>rt_application_message_ready := b\<rparr>) = peers_below rt"
  "peers_below (rt\<lparr>rt_duplicates := c\<rparr>) = peers_below rt" "peers_below (rt\<lparr>rt_local_boot_id := t\<rparr>) = peers_below rt"
  by (simp_all add: peers_below_def)

lemma reassemble_peers: "peers_below rt \<Longrightarrow> peers_below (snd (runtime_reassemble f rt))"
  by (auto simp: runtime_reassemble_def drop_assembly_def Let_def split: prod.split)

lemma complete_peers: "peers_below rt \<Longrightarrow> peers_below (snd (runtime_complete rt))"
proof -
  assume p: "peers_below rt"
  have app: "peers_below (snd (accept_application_message env rt'))" if "peers_below rt'" for env rt'
    using that
    by (simp add: accept_application_message_def Let_def) (simp add: peers_below_def)
  have "peers_below (snd (accept_delivery_ack rt'))" if "peers_below rt'" for rt'
    using that by (simp add: accept_delivery_ack_def Let_def split: option.split)
  with p app show ?thesis
    by (simp add: runtime_complete_def Let_def split: prod.split bool.split option.split)
qed

lemma accept_peers:
  assumes "peers_below rt" and "rf_peer_index f < 16"
  shows "peers_below (snd (runtime_accept f rt))"
proof -
  obtain ok rt1 where re: "runtime_reassemble f rt = (ok, rt1)" by force
  then have rt1: "peers_below rt1" using reassemble_peers [OF assms(1), of f] by simp
  then have "peers_below (rt1\<lparr>rt_active_peer_index := rf_peer_index f\<rparr>)" using assms(2) by (simp add: peers_below_def)
  with rt1 show ?thesis using assms(1) re complete_peers by (simp add: runtime_accept_def Let_def)
qed

lemma component_inv_runtime:
  "component_inv n \<Longrightarrow> runtime_inv rt \<Longrightarrow> peers_below rt \<Longrightarrow> component_inv (n\<lparr>nc_runtime := rt\<rparr>)"
  by (simp add: component_inv_parts(2) peers_below_def)

lemma component_inv_peers: "component_inv n \<Longrightarrow> peers_below (nc_runtime n)"
  by (simp add: component_invD peers_below_def)

lemma component_receive_heartbeat_inv:
  assumes "component_inv n" and "nc_local_boot_id n \<noteq> 0"
  shows "component_inv (snd (component_receive_heartbeat ms f n))"
  using assms receive_heartbeat_inv [OF component_invD(9), of n "nc_local_boot_id n" f ms]
  by (simp add: component_receive_heartbeat_def case_prod_beta component_inv_parts(6))

lemma accept_received_inv:
  assumes "component_inv n" and "rf_peer_index f < 16"
  shows "component_inv (accept_received_frame f n)"
proof -
  obtain res rt where acc: "runtime_accept f (nc_runtime n) = (res, rt)" by force
  have rt: "runtime_inv rt" "peers_below rt"
    using runtime_accept_inv [OF component_invD(2) [OF assms(1)], of f]
      accept_peers [OF component_inv_peers [OF assms(1)] assms(2)] acc by simp_all
  obtain a rt1 where ack: "take_delivery_ack rt = (a, rt1)" by force
  have rt1: "runtime_inv rt1" "peers_below rt1"
    using rt runtime_collect_inv(2) [OF rt(1)] ack by (auto simp: take_delivery_ack_def split: if_splits)
  note n1 = component_inv_runtime [OF assms(1) rt1]
  have "component_inv (n\<lparr>nc_runtime := rt1, nc_sender := snd (sender_accept_ack y (nc_sender n))\<rparr>)" for y
    using component_inv_sender [OF n1] sender_ack_continues sender_accept_ack_inv component_invD(5) [OF assms(1)]
    by simp
  then show ?thesis
    using acc ack n1 component_inv_runtime [OF assms(1) rt]
    by (simp add: accept_received_frame_def split: option.split)
qed

lemma process_received_inv:
  assumes "component_inv n" and "nc_local_boot_id n \<noteq> 0"
  shows "component_inv (process_received_frame ms n)"
proof -
  obtain f r where take: "take_received_frame (nc_radio n) = (f, r)" by force
  note r = take_received_frame_inv [OF component_invD(1) [OF assms(1)] take]
  then have n1: "component_inv (n\<lparr>nc_radio := r\<rparr>)" using assms(1) by (simp add: component_inv_parts(1))
  have "component_inv (snd (component_receive_heartbeat ms x (n\<lparr>nc_radio := r\<rparr>)))" for x
    using component_receive_heartbeat_inv [OF n1] assms(2) by simp
  then show ?thesis
    using take n1 r accept_received_inv
    by (auto simp: process_received_frame_def split: option.split prod.split bool.split) (metis snd_conv)+
qed

lemma process_completion_inv:
  assumes "component_inv n"
  shows "component_inv (process_send_completion now n)"
proof -
  obtain c r where take: "take_send_completion (nc_radio n) = (c, r)" by force
  define n1 where "n1 = n\<lparr>nc_radio := r\<rparr>"
  have n1: "component_inv n1"
    using take_send_completion_inv [OF component_invD(1) [OF assms] take] assms
    by (simp add: n1_def component_inv_parts(1))
  have completed: "component_inv (n1\<lparr>nc_sender := snd (sender_complete_frame ok now (nc_sender n1)),
      nc_radio_transmission_owner := RadioTransmissionOwner.NONE, nc_radio_transmission_peer := INVALID_PEER_INDEX\<rparr>)" for ok
    using component_invD(5) [OF n1] sender_complete_continues [of "nc_sender n1" ok now]
      sender_complete_frame_inv [of "nc_sender n1" ok now]
      transmission_inv [OF component_inv_sender [OF n1]] by fastforce
  have "component_inv (n1\<lparr>nc_radio_transmission_owner := RadioTransmissionOwner.NONE,
      nc_radio_transmission_peer := INVALID_PEER_INDEX\<rparr>)" if "\<not> rs_frame_in_flight (nc_sender n1)"
    using transmission_inv [OF n1 that] by simp
  moreover have "nc_radio_transmission_owner n1 = SENDER" if "rs_frame_in_flight (nc_sender n1)"
    using n1 that by (simp add: component_inv_def owners_ok_def)
  ultimately show ?thesis
    using take n1 completed
    by (auto simp: process_send_completion_def n1_def [symmetric] Let_def split: option.split)
qed

subsection \<open>The dispatchers\<close>

lemma lane_ok_accept:
  assumes "lane_ok d" and "dispatcher_accept handler inbound now d h = (ok, seen, d', h')"
  shows "lane_ok d'"
proof -
  have inv: "dispatcher_inv d'" using assms(1) dispatcher_accept_inv [OF _ assms(2)] by (simp add: lane_ok_def)
  from assms(2) show ?thesis
  proof (cases rule: dispatcher_accept_cases)
    case (failed d1 code s b)
    then have "\<not> serves_command d'" using complete_failure_eq [of d1 code s b now] by (simp add: serves_command_def)
    then show ?thesis using inv by (simp add: lane_ok_def)
  next
    case (started c)
    then show ?thesis using inv by (simp add: lane_ok_def)
  qed (use assms(1) in simp)
qed

lemma complete_result_handler [simp]: "cd_handler (complete_result r d) = cd_handler d"
  by (auto simp: complete_result_def stage_result_def dispatcher_reset_def Let_def split: sum.split prod.split bool.split)

lemma dispatcher_loop_handler: "dispatcher_loop handler now d h = Some (d', h') \<Longrightarrow> cd_handler d' = cd_handler d"
  by (auto simp: dispatcher_loop_def complete_failure_def Let_def split: if_splits prod.splits option.splits)

lemma lane_ok_loop:
  assumes "lane_ok d" and "bounded_handler handler"
  shows "\<exists>d' h'. dispatcher_loop handler now d h = Some (d', h') \<and> lane_ok d'"
proof -
  have "cd_state d = ACTIVE \<Longrightarrow> cd_handler d" using assms(1) by (simp add: lane_ok_def serves_command_def)
  then have "dispatcher_loop handler now d h \<noteq> None"
    by (auto simp: dispatcher_loop_def Let_def split: prod.splits option.splits)
  then obtain d' h' where run: "dispatcher_loop handler now d h = Some (d', h')" by auto
  have "cd_state d \<noteq> ACTIVE \<Longrightarrow> d' = d" using run by (simp add: dispatcher_loop_def)
  then have "lane_ok d'"
    using assms(1) dispatcher_loop_inv [OF _ assms(2) run] dispatcher_loop_handler [OF run]
    by (cases "cd_state d = ACTIVE") (auto simp: lane_ok_def serves_command_def)
  with run show ?thesis by blast
qed

lemma lane_ok_take:
  assumes "lane_ok d" and "dispatcher_take_result d = (p, d')"
  shows "lane_ok d'"
  using assms dispatcher_take_inv [OF _ assms(2)]
  by (auto simp: lane_ok_def dispatcher_take_result_def dispatcher_has_result_def dispatcher_reset_def
      serves_command_def Let_def split: if_splits)

lemma on_command_identity_inv [simp]: "component_inv (on_command_identity seen n) = component_inv n"
  by (auto simp: on_command_identity_def split: option.split)

lemma on_command_identity_fields [simp]:
  "nc_command_dispatcher (on_command_identity seen n) = nc_command_dispatcher n"
  "nc_parallel_dispatcher (on_command_identity seen n) = nc_parallel_dispatcher n"
  "nc_interrupt_dispatcher (on_command_identity seen n) = nc_interrupt_dispatcher n"
  "nc_parallel_inbound (on_command_identity seen n) = nc_parallel_inbound n"
  "nc_interruptible_inbound (on_command_identity seen n) = nc_interruptible_inbound n"
  "nc_runtime (on_command_identity seen n) = nc_runtime n"
  by (auto simp: on_command_identity_def split: option.split)

lemma lane_ok_interrupt:
  "lane_ok d \<Longrightarrow> accept_interrupt handler inbound operation now d h = (ok, seen, d', h') \<Longrightarrow> lane_ok d'"
  by (auto simp: accept_interrupt_def intro: lane_ok_accept split: if_splits)

lemma offer_interrupt_inv:
  assumes "component_inv n"
  shows "component_inv (fst (snd (offer_interrupt handler inbound now n h)))"
proof -
  obtain ok seen d h1 where i: "accept_interrupt handler inbound (nc_command_dispatcher n) now
      (nc_interrupt_dispatcher n) h = (ok, seen, d, h1)" by (metis prod_cases4)
  note d = lane_ok_interrupt [OF component_invD(8) [OF assms] i]
  obtain ok2 seen2 d2 h2 where i2: "accept_interrupt handler inbound (nc_parallel_dispatcher n) now d h1 =
      (ok2, seen2, d2, h2)" by (metis prod_cases4)
  let ?n1 = "on_command_identity seen (n\<lparr>nc_interrupt_dispatcher := d\<rparr>)"
  have n1: "component_inv ?n1" using component_inv_parts(5) [OF assms d] by simp
  have "component_inv (?n1\<lparr>nc_interrupt_dispatcher := d2\<rparr>)"
    using component_inv_parts(5) [OF n1 lane_ok_interrupt [OF d i2]] .
  with n1 show ?thesis using assms i i2 by (simp add: offer_interrupt_def Let_def)
qed

lemma offer_command_inv:
  assumes "component_inv n"
  shows "component_inv (fst (snd (offer_command handler inbound now n h)))"
proof -
  obtain ok n1 h1 where o1: "offer_interrupt handler inbound now n h = (ok, n1, h1)" by (metis prod_cases3)
  have n1: "component_inv n1" using offer_interrupt_inv [OF assms] o1 by (metis fst_conv snd_conv)
  obtain ok2 seen d h2 where a: "dispatcher_accept handler inbound now (nc_command_dispatcher n1) h1 = (ok2, seen, d, h2)"
    by (metis prod_cases4)
  obtain ok3 seen3 d3 h3 where b: "dispatcher_accept handler inbound now (nc_parallel_dispatcher n1) h2 =
      (ok3, seen3, d3, h3)" by (metis prod_cases4)
  let ?n2 = "on_command_identity seen (n1\<lparr>nc_command_dispatcher := d\<rparr>)"
  have n2: "component_inv ?n2" using component_inv_parts(3) [OF n1 lane_ok_accept [OF component_invD(6) [OF n1] a]] by simp
  have "component_inv (?n2\<lparr>nc_parallel_dispatcher := d3\<rparr>)"
    using component_inv_parts(4) [OF n2 lane_ok_accept [OF component_invD(7) [OF n1] b]] .
  with n1 n2 show ?thesis using o1 a b by (simp add: offer_command_def Let_def)
qed

lemma dispatchers_loop_inv:
  assumes "component_inv n" and "bounded_handler handler"
  shows "\<exists>n' h'. dispatchers_loop handler now n h = Some (n', h') \<and> component_inv n'"
proof -
  have opt: "\<exists>d' h'. (if b then dispatcher_loop handler now d h else Some (d, h)) = Some (d', h') \<and> lane_ok d'"
    if "lane_ok d" for b d h
    using lane_ok_loop [OF that assms(2), of now h] that by (cases b) auto
  obtain d1 h1 where l1: "dispatcher_loop handler now (nc_command_dispatcher n) h = Some (d1, h1)" "lane_ok d1"
    using lane_ok_loop [OF component_invD(6) [OF assms(1)] assms(2)] by blast
  obtain d2 h2 where l2: "(if nc_parallel_inbound n then dispatcher_loop handler now (nc_parallel_dispatcher n) h1
      else Some (nc_parallel_dispatcher n, h1)) = Some (d2, h2)" "lane_ok d2"
    using opt [OF component_invD(7) [OF assms(1)]] by blast
  obtain d3 h3 where l3: "(if nc_interruptible_inbound n then dispatcher_loop handler now (nc_interrupt_dispatcher n) h2
      else Some (nc_interrupt_dispatcher n, h2)) = Some (d3, h3)" "lane_ok d3"
    using opt [OF component_invD(8) [OF assms(1)]] by blast
  have "dispatchers_loop handler now n h = Some (n\<lparr>nc_command_dispatcher := d1, nc_parallel_dispatcher := d2,
      nc_interrupt_dispatcher := d3\<rparr>, h3)"
    using l1(1) l2(1) l3(1) by (simp add: dispatchers_loop_def Let_def split del: if_split cong: if_cong)
  then show ?thesis
    using component_inv_parts(5) [OF component_inv_parts(4) [OF component_inv_parts(3) [OF assms(1) l1(2)] l2(2)] l3(2)]
    by simp
qed

subsection \<open>The command client\<close>

lemma queue_notification_inv [simp]: "component_inv (queue_command_result_notification p r n) = component_inv n"
  by (simp add: queue_command_result_notification_def)

lemma finish_client_inv:
  assumes "component_inv n" and "slot = 0 \<or> slot = 1"
    and "nc_reliable_message_owner n = COMMAND_CLIENT \<Longrightarrow> nc_command_sender_slot n \<noteq> slot"
  shows "component_inv (finish_command_client r slot n)"
  unfolding finish_command_client_def Let_def queue_notification_inv
  by (rule clear_client_inv) (use assms in simp_all)

lemma fail_client_inv:
  assumes "component_inv n" and "slot = 0 \<or> slot = 1"
    and "nc_reliable_message_owner n = COMMAND_CLIENT \<Longrightarrow> nc_command_sender_slot n \<noteq> slot"
  shows "component_inv (fail_command_client e s now slot n)"
  unfolding fail_command_client_def by (rule finish_client_inv) (use assms in simp_all)

text \<open>A client that waits for its result does not own the sender.\<close>

lemma waiting_client_released:
  assumes "component_inv n" and "cc_state (client_at slot n) = CommandClientState.WAITING_FOR_RESULT"
    and "nc_reliable_message_owner n = COMMAND_CLIENT"
  shows "nc_command_sender_slot n \<noteq> slot"
  using assms by (auto simp: component_inv_def owners_ok_def client_owns_def)

lemma client_result_inv:
  assumes "component_inv n" and "slot = 0 \<or> slot = 1"
    and "cc_state (client_at slot n) = CommandClientState.WAITING_FOR_RESULT"
  shows "component_inv (process_command_client_result inbound now slot n)"
  using assms waiting_client_released [OF assms(1,3)]
  by (auto simp: process_command_client_result_def Let_def intro!: fail_client_inv finish_client_inv split: sum.split)

lemma expire_client_inv:
  assumes "component_inv n" and "slot = 0 \<or> slot = 1"
  shows "component_inv (expire_command_client now slot n)"
  using assms waiting_client_released [OF assms(1)]
  by (auto simp: expire_command_client_def Let_def intro!: fail_client_inv)

lemma client_at_runtime [simp]: "client_at slot (n\<lparr>nc_runtime := rt\<rparr>) = client_at slot n"
  by (simp add: client_at_def)

lemma matching_client:
  assumes "matching_command_client n = Some slot"
  shows "slot = 0 \<or> slot = 1" and "cc_state (client_at slot n) = CommandClientState.WAITING_FOR_RESULT"
    and "cc_peer (client_at slot n) = application_message_peer_index (nc_runtime n)"
    and "cmd_transaction_id (cc_command (client_at slot n)) = application_message_transaction_id (nc_runtime n)"
    and "application_message_kind (nc_runtime n) = EspNowFrameKind.RESULT"
  using assms by (auto simp: matching_command_client_def client_at_def Let_def split: if_splits)

lemma dispatch_unsolicited_inv:
  "component_inv n \<Longrightarrow> component_inv (snd (dispatch_unsolicited_result app inbound n))"
  by (simp add: dispatch_unsolicited_result_def notify_observers_inv del: notify_observers.simps split: sum.split)

lemma process_application_message_inv:
  assumes "component_inv n"
  shows "component_inv (fst (process_application_message handler app now n h))"
proof (cases "take_application_message (nc_runtime n)")
  case (Pair im rt)
  have "runtime_inv rt" using take_application_message_inv [OF component_invD(2) [OF assms]] Pair by simp
  moreover have "peers_below rt"
    using component_inv_peers [OF assms] Pair by (auto simp: take_application_message_def split: option.splits)
  ultimately have n1: "component_inv (n\<lparr>nc_runtime := rt\<rparr>)" by (rule component_inv_runtime [OF assms])
  have "component_inv (process_command_client_result inbound now slot (n\<lparr>nc_runtime := rt\<rparr>))"
    if "matching_command_client n = Some slot" for inbound slot
    by (rule client_result_inv [OF n1]) (use matching_client(1,2) [OF that] in simp_all)
  moreover have "component_inv (snd (dispatch_unsolicited_result app inbound (n\<lparr>nc_runtime := rt\<rparr>)))" for inbound
    using dispatch_unsolicited_inv [OF n1] .
  moreover have "component_inv (fst (snd (offer_command handler inbound now (n\<lparr>nc_runtime := rt\<rparr>) h)))" for inbound
    using offer_command_inv [OF n1] .
  ultimately show ?thesis
    using Pair n1 assms
    by (auto simp: process_application_message_def Let_def split: option.split prod.split bool.split)
      (metis snd_conv)+
qed

lemma dispatch_notification_inv:
  "component_inv n \<Longrightarrow> component_inv (dispatch_command_result_notification app n)"
  unfolding dispatch_command_result_notification_def by (auto simp del: notify_observers.simps intro!: notify_observers_inv)

subsection \<open>The outbound half of the loop\<close>

lemma set_lane_inv:
  "component_inv n \<Longrightarrow> lane_ok d \<Longrightarrow> component_inv (set_lane_dispatcher lane d n)"
  by (cases lane) (simp_all add: component_inv_parts(3,4,5))

lemma lane_dispatcher_ok: "component_inv n \<Longrightarrow> lane_ok (lane_dispatcher lane n)"
  by (cases lane) (simp_all add: component_invD)

lemma set_lane_fields [simp]: "nc_sender (set_lane_dispatcher lane d n) = nc_sender n"
  by (cases lane) simp_all

lemma process_dispatcher_inv:
  assumes "component_inv n"
  shows "component_inv (process_dispatcher n)"
proof -
  obtain p d where take: "dispatcher_take_result (lane_dispatcher (served_lane n) n) = (p, d)" by force
  have n1: "component_inv (set_lane_dispatcher (served_lane n) d n)"
    using set_lane_inv [OF assms lane_ok_take [OF lane_dispatcher_ok [OF assms] take]] .
  show ?thesis
    using assms take n1
    by (auto simp: process_dispatcher_def Let_def intro!: start_inv(2) split: option.split prod.split bool.split)
      (use start_inv(1) [OF n1] in \<open>simp\<close>)
qed

lemma request_recovery_inv:
  "component_inv n \<Longrightarrow> component_inv (request_recovery idf ms n)"
  unfolding request_recovery_def by (intro component_inv_parts(1) radio_calls_inv component_invD(1))

lemma delivered_inv:
  assumes "component_inv n" and "nc_reliable_message_owner n = COMMAND_CLIENT"
  shows "nc_command_sender_slot n = 0 \<or> \<not> nc_dual n \<Longrightarrow>
      component_inv ((reset_sender n)\<lparr>nc_client := (nc_client n)\<lparr>cc_state := CommandClientState.WAITING_FOR_RESULT\<rparr>\<rparr>)"
    and "nc_command_sender_slot n \<noteq> 0 \<Longrightarrow> nc_dual n \<Longrightarrow>
      component_inv ((reset_sender n)\<lparr>nc_client_2 := (nc_client_2 n)\<lparr>cc_state := CommandClientState.WAITING_FOR_RESULT\<rparr>\<rparr>)"
  using reset_sender_inv [OF assms(1)] assms
  by (auto simp: component_inv_def reset_sender_def owner_defs clients_ok_def client_ok_def)

lemma process_owned_inv:
  assumes "component_inv n"
  shows "component_inv (process_owned_sender_completion idf ms1 ms2 n)"
proof -
  note n1 = request_recovery_inv [OF assms, of idf ms1]
  have slot: "nc_command_sender_slot n = 0 \<or> nc_command_sender_slot n = 1"
    using assms by (auto simp: component_inv_def owners_ok_def)
  have fail: "component_inv (fail_command_client e s ms2 (nc_command_sender_slot n) (reset_sender m))"
    if "component_inv m" for e s m
    using fail_client_inv [OF reset_sender_inv [OF that] slot] by (simp add: reset_sender_def)
  have fields: "nc_client (reset_sender n) = nc_client n" "nc_client_2 (reset_sender n) = nc_client_2 n"
      "nc_dual (reset_sender n) = nc_dual n"
    by (simp_all add: reset_sender_def)
  show ?thesis
    using assms n1 fail delivered_inv [OF assms]
    by (cases "nc_reliable_message_owner n")
      (auto simp: process_owned_sender_completion_def Let_def fields reset_sender_inv)
qed

lemma dispatch_sender_frame_inv:
  assumes "component_inv n"
  shows "component_inv (dispatch_sender_frame idf now n)"
proof -
  let ?s = "nc_sender n"
  have inv: "sender_inv ?s" using component_invD(5) [OF assms] .
  note take = sender_take_frame_eq [OF inv]
  define s1 where "s1 = ?s\<lparr>rs_frame_in_flight := True, rs_state := FRAME_IN_FLIGHT\<rparr>"
  have radio: "component_inv (n\<lparr>nc_radio := snd (radio_send_frame idf p d (nc_radio n))\<rparr>)" for p d
    using assms by (intro component_inv_parts(1) radio_calls_inv component_invD(1))
  have sent: "component_inv (n\<lparr>nc_radio := r, nc_sender := s1, nc_radio_transmission_owner := SENDER,
      nc_radio_transmission_peer := rs_peer_index ?s\<rparr>)"
    if "rs_state ?s = READY" "component_inv (n\<lparr>nc_radio := r\<rparr>)" for r
    using that sender_take_frame_inv [OF inv] unfolding take
    by (simp add: component_inv_def parts_ok_def s1_def) (simp add: owner_defs clients_ok_def split del: if_split cong: if_cong)
  have failed: "component_inv (n\<lparr>nc_radio := r, nc_sender := snd (sender_complete_frame False now s1)\<rparr>)"
    if "rs_state ?s = READY" "component_inv (n\<lparr>nc_radio := r\<rparr>)" for r
  proof -
    have s1: "sender_inv s1" using sender_take_frame_inv [OF inv] that(1) unfolding take s1_def by simp
    then have "continues ?s (snd (sender_complete_frame False now s1))"
      using sender_complete_continues [OF s1, of False now] that(1) by (auto simp: continues_def s1_def)
    then show ?thesis
      using component_inv_sender [OF that(2)] sender_complete_frame_inv [OF s1] by simp
  qed
  show ?thesis
    using assms sent failed radio unfolding dispatch_sender_frame_def take s1_def [symmetric]
    by (auto split: prod.split bool.split) (metis snd_conv)+
qed

lemma dispatch_ack_inv:
  assumes "component_inv n"
  shows "component_inv (dispatch_application_ack idf n)"
proof (cases "nc_radio_transmission_owner n = RadioTransmissionOwner.NONE")
  case True
  obtain p rt where take: "take_application_ack (nc_runtime n) = (p, rt)" by force
  have "runtime_inv rt" "peers_below rt"
    using runtime_collect_inv(3) [OF component_invD(2) [OF assms]] component_inv_peers [OF assms] take
    by (auto simp: take_application_ack_def split: if_splits)
  then have n1: "component_inv (n\<lparr>nc_runtime := rt\<rparr>)" using component_inv_runtime [OF assms] by blast
  have quiet: "\<not> rs_frame_in_flight (nc_sender n)"
    using assms True by (auto simp: component_inv_def owners_ok_def)
  have sent: "component_inv (n\<lparr>nc_runtime := rt, nc_ack_sequence := q, nc_radio := snd (radio_send_frame idf i d (nc_radio n))\<rparr>)"
    for q i d
    using n1 component_invD(1) [OF n1]
    by (intro component_inv_parts(1) radio_calls_inv) simp_all
  have owned: "component_inv (n\<lparr>nc_runtime := rt, nc_ack_sequence := q, nc_radio := snd (radio_send_frame idf i d (nc_radio n)),
      nc_radio_transmission_owner := w, nc_radio_transmission_peer := j\<rparr>)" for q i d w j
    using transmission_inv [OF sent] quiet by simp
  show ?thesis
    using True take n1 sent owned
    by (auto simp: dispatch_application_ack_def Let_def split: option.split prod.split bool.split sum.split)
      (metis snd_conv)+
qed (use assms in \<open>simp add: dispatch_application_ack_def\<close>)

lemma dispatch_heartbeat_radio:
  assumes "radio_inv r" and "dispatch_heartbeat idle boot (\<lambda>d. radio_send_frame idf p (Some d)) now hb r = (f, hb', r')"
  shows "radio_inv r'"
proof -
  have "radio_inv x" if "radio_send_frame idf p d r = (b, x)" for d b x
    using radio_calls_inv(1) [OF assms(1), of idf p d] that by simp
  then show ?thesis
    using assms by (auto simp: dispatch_heartbeat_def Let_def split: if_splits prod.splits bool.splits)
qed

lemma component_dispatch_heartbeat_inv:
  assumes "component_inv n" and "nc_local_boot_id n \<noteq> 0"
  shows "component_inv (component_dispatch_heartbeat idf now n)"
proof (cases "nc_heartbeat_built n")
  case True
  obtain f hb r where run: "dispatch_heartbeat (transmitter_idle n) (nc_local_boot_id n)
      (\<lambda>d. radio_send_frame idf (hb_peer (nc_heartbeat n)) (Some d)) now (nc_heartbeat n) (nc_radio n) = (f, hb, r)"
    by (metis prod_cases3)
  have "heartbeat_inv hb"
    using dispatch_heartbeat_inv [OF component_invD(9) [OF assms(1)] assms(2)] run by (metis fst_conv snd_conv)
  then have n1: "component_inv (n\<lparr>nc_heartbeat := hb, nc_radio := r\<rparr>)"
    using component_inv_parts(1) [OF component_inv_parts(6) [OF assms(1)]]
      dispatch_heartbeat_radio [OF component_invD(1) [OF assms(1)] run] by simp
  moreover have "\<not> rs_frame_in_flight (nc_sender n)" if "f \<noteq> None"
  proof -
    have "transmitter_idle n" using that run by (auto simp: dispatch_heartbeat_def Let_def split: if_splits)
    then show ?thesis using assms(1) by (auto simp: transmitter_idle_def component_inv_def owners_ok_def)
  qed
  ultimately show ?thesis
    using True run transmission_inv [OF n1]
    by (auto simp: component_dispatch_heartbeat_def Let_def split: option.split)
qed (use assms in \<open>simp add: component_dispatch_heartbeat_def\<close>)

lemma reapply_wf: "history_wf p \<Longrightarrow> history_wf (reapply_peers idf ms r p)"
proof -
  have "history_wf (fold (\<lambda>i p. record_recovery_event idf ms r ev (f i) (g i) p) is p)" if "history_wf p"
    for ev f g p and "is" :: "nat list"
    using that by (induction "is" arbitrary: p) (simp_all add: record_event_wf)
  then show "history_wf p \<Longrightarrow> ?thesis" by (simp add: reapply_peers_def)
qed

lemma history_tick_wf: "history_wf p \<Longrightarrow> history_wf (snd (recovery_history_tick c now p))"
  by (simp add: recovery_history_tick_def Let_def) (simp add: history_wf_def)

lemma recovery_tick_wf:
  "history_wf p \<Longrightarrow> history_wf (reconnect_peer_recovery_tick idf c d u ms idle r p)"
  using history_tick_wf [of p c ms]
  by (simp add: reconnect_peer_recovery_tick_def Let_def reapply_wf)

lemma supervision_inv:
  assumes "component_inv n"
  shows "component_inv (loop_supervision li n)"
proof -
  have "heartbeat_inv (snd (heartbeat_tick idle now (nc_heartbeat n)))" for idle now
    using heartbeat_tick_inv component_invD(9) [OF assms] .
  moreover have "radio_inv (radio_loop idf now (set_recovery_permitted b (nc_radio n)))" for idf now b
    using radio_loop_inv radio_calls_inv(4) component_invD(1) [OF assms] by blast
  moreover have "history_wf (reconnect_peer_recovery_tick idf c d u ms idle r (nc_recovery n))" for idf c d u ms idle r
    using recovery_tick_wf component_invD(10) [OF assms] .
  ultimately show ?thesis
    using assms
    by (simp add: loop_supervision_def component_heartbeat_tick_def Let_def component_inv_parts(1,6,7))
qed

subsection \<open>Every reachable state\<close>

lemma apply_call_boot [simp]: "nc_local_boot_id (apply_call c n) = nc_local_boot_id n"
proof -
  have cancel: "nc_local_boot_id (snd (cancel_command t m)) = nc_local_boot_id m" for t m
    by (auto simp: cancel_command_def clear_command_client_def Let_def split: option.split)
  show ?thesis
    by (cases c)
      (simp_all add: start_reliable_message_def start_background_result_def take_background_result_completion_def
        reset_sender_def component_take_application_message_def set_command_handler_def
        set_observe_application_identity_def set_expected_application_source_def send_command_def start_command_def
        cancel use_external_result_deadline_def set_runtime_enabled_def discard_radio_events_def
        cancel_active_clients_def stop_heartbeat_def Let_def case_prod_beta split: sum.split option.split prod.split bool.split)
qed

lemma notify_boot [simp]: "nc_local_boot_id (notify_observers app obs call is n) = nc_local_boot_id n"
proof -
  have "nc_local_boot_id (fold apply_call cs m) = nc_local_boot_id m" for cs m
    by (induction cs arbitrary: m) simp_all
  then have "nc_local_boot_id (call_observer app c m) = nc_local_boot_id m" for c m by (simp add: call_observer_def)
  then show ?thesis by (induction "is" arbitrary: n) (auto split: option.split)
qed

lemma client_steps_boot [simp]:
  "nc_local_boot_id (queue_command_result_notification p r n) = nc_local_boot_id n"
  "nc_local_boot_id (clear_command_client slot n) = nc_local_boot_id n"
  "nc_local_boot_id (finish_command_client r slot n) = nc_local_boot_id n"
  "nc_local_boot_id (fail_command_client e s now slot n) = nc_local_boot_id n"
  "nc_local_boot_id (process_command_client_result inbound now slot n) = nc_local_boot_id n"
  "nc_local_boot_id (expire_command_client now slot n) = nc_local_boot_id n"
proof -
  show q: "nc_local_boot_id (queue_command_result_notification p r n) = nc_local_boot_id n" for p r n
    by (simp add: queue_command_result_notification_def)
  show c: "nc_local_boot_id (clear_command_client slot n) = nc_local_boot_id n" for n
    by (simp add: clear_command_client_def Let_def)
  show f: "nc_local_boot_id (finish_command_client r slot n) = nc_local_boot_id n" for r n
    by (simp add: finish_command_client_def Let_def q c)
  show g: "nc_local_boot_id (fail_command_client e s now slot n) = nc_local_boot_id n" for e s
    by (simp add: fail_command_client_def f)
  show "nc_local_boot_id (process_command_client_result inbound now slot n) = nc_local_boot_id n"
    by (simp add: process_command_client_result_def Let_def q f g split: sum.split)
  show "nc_local_boot_id (expire_command_client now slot n) = nc_local_boot_id n"
    by (simp add: expire_command_client_def Let_def g)
qed

lemma inbound_steps_boot [simp]:
  "nc_local_boot_id (on_command_identity seen n) = nc_local_boot_id n"
  "nc_local_boot_id (dispatch_command_result_notification app n) = nc_local_boot_id n"
  "nc_local_boot_id (process_send_completion now n) = nc_local_boot_id n"
  "nc_local_boot_id (process_received_frame ms n) = nc_local_boot_id n"
  by (auto simp: on_command_identity_def dispatch_command_result_notification_def process_send_completion_def
      process_received_frame_def component_receive_heartbeat_def accept_received_frame_def Let_def
      simp del: notify_observers.simps split: option.splits prod.splits bool.splits if_splits)

lemma process_message_boot [simp]:
  "nc_local_boot_id (fst (process_application_message handler app now n h)) = nc_local_boot_id n"
proof -
  have i: "nc_local_boot_id (fst (snd (offer_interrupt handler inbound now m h))) = nc_local_boot_id m" for inbound m h
    by (simp add: offer_interrupt_def Let_def case_prod_beta)
  have "nc_local_boot_id (fst (snd (offer_command handler inbound now m h))) = nc_local_boot_id m" for inbound m
    by (simp add: offer_command_def Let_def case_prod_beta i)
  moreover have "nc_local_boot_id m' = nc_local_boot_id m" if "dispatch_unsolicited_result app inbound m = (b, m')"
    for inbound m b m'
    using that by (auto simp: dispatch_unsolicited_result_def simp del: notify_observers.simps split: sum.splits if_splits)
  ultimately show ?thesis
    by (auto simp: process_application_message_def Let_def split: option.split prod.split bool.split)
qed

lemma dispatchers_loop_boot:
  "dispatchers_loop handler now n h = Some (n', h') \<Longrightarrow> nc_local_boot_id n' = nc_local_boot_id n"
  by (auto simp: dispatchers_loop_def Let_def split: option.splits)

text \<open>The two deadline tests of the pass, and the part of a pass up to the dispatchers.\<close>

definition expire_all :: "u32 \<Rightarrow> NetComponent \<Rightarrow> NetComponent" where
  "expire_all now n =
     (let n1 = expire_command_client now 0 n in if nc_dual n1 then expire_command_client now 1 n1 else n1)"

definition loop_receiving :: "(observer_call \<Rightarrow> component_call list) \<Rightarrow> LoopInput \<Rightarrow> NetComponent \<Rightarrow> NetComponent" where
  "loop_receiving app li n = process_received_frame (li_frame_ms li)
     (process_send_completion (li_now_ms li) (dispatch_command_result_notification app n))"

lemma loop_inbound_eq:
  "loop_inbound handler app li n h =
     (let (n2, h2) = process_application_message handler app (li_now_ms li) (loop_receiving app li n) h
      in dispatchers_loop handler (li_now_ms li) (expire_all (li_now_ms li) n2) h2)"
  by (simp add: loop_inbound_def loop_receiving_def expire_all_def Let_def)

lemma loop_before_dispatchers:
  assumes "component_inv n" and "nc_local_boot_id n \<noteq> 0"
    and "process_application_message handler app (li_now_ms li) (loop_receiving app li n) h = (n2, h2)"
  shows "component_inv (expire_all (li_now_ms li) n2)" and "nc_local_boot_id (expire_all (li_now_ms li) n2) \<noteq> 0"
proof -
  let ?n1 = "loop_receiving app li n"
  have n1: "component_inv ?n1" "nc_local_boot_id ?n1 \<noteq> 0"
    unfolding loop_receiving_def
    using assms(1,2) by (simp_all add: process_received_inv process_completion_inv dispatch_notification_inv)
  have n2: "component_inv n2" "nc_local_boot_id n2 \<noteq> 0"
    using process_application_message_inv [OF n1(1), of handler app "li_now_ms li" h]
      process_message_boot [of handler app "li_now_ms li" ?n1 h] n1(2) by (simp_all add: assms(3))
  then show "component_inv (expire_all (li_now_ms li) n2)" "nc_local_boot_id (expire_all (li_now_ms li) n2) \<noteq> 0"
    by (simp_all add: expire_all_def Let_def expire_client_inv)
qed

lemma loop_inbound_inv:
  assumes "component_inv n" and "nc_local_boot_id n \<noteq> 0" and "bounded_handler handler"
  shows "\<exists>n' h'. loop_inbound handler app li n h = Some (n', h') \<and> component_inv n' \<and> nc_local_boot_id n' \<noteq> 0"
proof -
  obtain n2 h2 where m: "process_application_message handler app (li_now_ms li) (loop_receiving app li n) h = (n2, h2)"
    by force
  note n4 = loop_before_dispatchers [OF assms(1,2) m]
  obtain n' h' where run: "dispatchers_loop handler (li_now_ms li) (expire_all (li_now_ms li) n2) h2 = Some (n', h')"
      "component_inv n'"
    using dispatchers_loop_inv [OF n4(1) assms(3)] by blast
  then show ?thesis using dispatchers_loop_boot [OF run(1)] n4(2) m by (simp add: loop_inbound_eq)
qed

lemma outbound_boot:
  "nc_local_boot_id (process_owned_sender_completion idf ms1 ms2 n) = nc_local_boot_id n"
  "nc_local_boot_id (process_dispatcher n) = nc_local_boot_id n"
  "nc_local_boot_id (dispatch_application_ack idf n) = nc_local_boot_id n"
  "nc_local_boot_id (dispatch_sender_frame idf now n) = nc_local_boot_id n"
proof -
  have r: "nc_local_boot_id (reset_sender m) = nc_local_boot_id m" "nc_local_boot_id (request_recovery idf ms m) = nc_local_boot_id m"
    "nc_local_boot_id (set_lane_dispatcher lane d m) = nc_local_boot_id m" for m ms lane d
    by (simp_all add: reset_sender_def request_recovery_def) (cases lane; simp)
  show "nc_local_boot_id (process_owned_sender_completion idf ms1 ms2 n) = nc_local_boot_id n"
    by (cases "nc_reliable_message_owner n") (simp_all add: process_owned_sender_completion_def Let_def r)
  show "nc_local_boot_id (process_dispatcher n) = nc_local_boot_id n"
    by (auto simp: process_dispatcher_def Let_def r split: option.split prod.split bool.split)
  show "nc_local_boot_id (dispatch_application_ack idf n) = nc_local_boot_id n"
    by (auto simp: dispatch_application_ack_def Let_def split: option.split prod.split bool.split sum.split)
  show "nc_local_boot_id (dispatch_sender_frame idf now n) = nc_local_boot_id n"
    by (auto simp: dispatch_sender_frame_def split: option.split prod.split bool.split)
qed

lemma loop_outbound_inv:
  assumes "component_inv n" and "nc_local_boot_id n \<noteq> 0"
  shows "component_inv (loop_outbound li n)"
proof -
  have "component_inv (n\<lparr>nc_sender := sender_loop (li_now_ms li) (nc_sender n)\<rparr>)"
    using assms(1) by (intro component_inv_sender sender_loop_continues sender_loop_inv component_invD(5))
  then show ?thesis
    using assms(2)
    by (simp add: loop_outbound_def Let_def component_dispatch_heartbeat_inv dispatch_sender_frame_inv dispatch_ack_inv
        process_dispatcher_inv process_owned_inv outbound_boot)
qed

text \<open>A pass of the loop always returns: it never calls a handler that is not there.\<close>

lemma component_loop_inv:
  assumes "component_inv n" and "nc_local_boot_id n \<noteq> 0" and "bounded_handler handler"
  shows "\<exists>n' h'. component_loop handler app li n h = Some (n', h') \<and> component_inv n'"
proof -
  note n1 = supervision_inv [OF assms(1), of li]
  have boot: "nc_local_boot_id (loop_supervision li n) \<noteq> 0"
    using assms(2) by (simp add: loop_supervision_def component_heartbeat_tick_def Let_def)
  obtain n2 h2 where "loop_inbound handler app li (loop_supervision li n) h = Some (n2, h2)"
      "component_inv n2" "nc_local_boot_id n2 \<noteq> 0"
    using loop_inbound_inv [OF n1 boot assms(3)] by blast
  then show ?thesis using n1 discard_inv loop_outbound_inv by (simp add: component_loop_def Let_def)
qed

lemma configure_protocol_inv:
  assumes "component_inv n"
  shows "component_inv (configure_protocol n)"
proof -
  let ?b = "nc_local_boot_id n"
  obtain ok rt where rt: "runtime_configure ?b (nc_runtime n) = (ok, rt)" by force
  have "runtime_inv rt" "peers_below rt"
    using runtime_collect_inv(1) [OF component_invD(2) [OF assms], of ?b] component_inv_peers [OF assms] rt
    by (auto simp: runtime_configure_def split: if_splits)
  then have n1: "component_inv (n\<lparr>nc_runtime := rt\<rparr>)" using component_inv_runtime [OF assms] by blast
  obtain ok2 s where s: "sender_configure ?b (nc_retry_policy n) (nc_sender n) = (ok2, s)" by force
  have "sender_inv s" using sender_configure_inv [OF component_invD(5) [OF assms], of ?b "nc_retry_policy n"] s by simp
  moreover have "continues (nc_sender n) (s\<lparr>rs_local_boot_id := rs_local_boot_id (nc_sender n)\<rparr>)"
    using s by (auto simp: sender_configure_def continues_def split: if_splits prod.splits bool.splits)
  ultimately have "component_inv (n\<lparr>nc_runtime := rt, nc_sender := s\<rparr>)"
    using n1 by (auto simp: component_inv_def parts_ok_def owner_defs clients_ok_def continues_def)
  then show ?thesis using n1 rt s by (simp add: configure_protocol_def split: bool.split)
qed

lemma setup_inv: "component_inv n \<Longrightarrow> component_inv (component_setup high low n)"
  by (simp add: component_setup_def configure_protocol_inv)

lemma component_init_inv: "component_inv (component_init dual heartbeat diagnostics)"
proof -
  have "lane_ok dispatcher_init" by (simp add: lane_ok_def dispatcher_inv_def dispatcher_init_def serves_command_def)
  moreover have "heartbeat_inv heartbeat_init" by (simp add: heartbeat_inv_def heartbeat_init_def exchange_init_def)
  ultimately show ?thesis
    using radio_init_inv runtime_machine.inv_start [of 0] sender_init_inv
    by (simp add: component_inv_def parts_ok_def owner_defs clients_ok_def client_ok_def component_init_def client_init_def)
      (simp add: runtime_init_def sender_init_def)
qed

lemma component_reach_inv:
  assumes "component_reach handler n h" and "bounded_handler handler"
  shows "component_inv n"
  using assms
proof (induction rule: component_reach.induct)
  case (component_looped n h app li n' h')
  then show ?case using component_loop_inv [of n handler app li h] by auto
next
  case (component_received n h info data len)
  then show ?case by (intro component_inv_parts(1) receive_callback_inv component_invD(1)) auto
next
  case (component_sent n h address ok)
  then show ?case by (intro component_inv_parts(1) send_callback_inv component_invD(1)) auto
qed (simp_all add: component_init_inv apply_call_inv setup_inv)

end
