(* ===== verification/Component_Properties.thy ===== *)
theory Component_Properties
  imports Component_Invariant
begin

text \<open>
  What the component promises its application: the parts agree in every reachable state and the
  loop always returns; an accepted command is never dropped between the radio and a
  dispatcher; a result reaches the client that waits for it; and the one case in which the
  application is not told how its command ended.
\<close>

subsection \<open>Vocabulary\<close>

text \<open>A lane has taken a message: it was idle and now serves the message's transaction.\<close>

definition lane_took :: "EspNowInboundApplicationMessage \<Rightarrow> InboundCommandDispatcher \<Rightarrow> InboundCommandDispatcher \<Rightarrow> bool" where
  "lane_took inbound d d' \<longleftrightarrow>
     cd_state d = InboundCommandDispatcherState.IDLE \<and> cd_state d' \<noteq> InboundCommandDispatcherState.IDLE \<and>
     cd_transaction_id d' = env_transaction_id (rm_envelope (im_message inbound)) \<and>
     cd_peer_index d' = im_peer_index inbound"

text \<open>The lanes of two states of the component, up to one that took the message.\<close>

definition one_lane_took :: "EspNowInboundApplicationMessage \<Rightarrow> NetComponent \<Rightarrow> NetComponent \<Rightarrow> bool" where
  "one_lane_took im n n' \<longleftrightarrow>
     (\<exists>lane. lane_took im (lane_dispatcher lane n) (lane_dispatcher lane n') \<and>
        (\<forall>other. other \<noteq> lane \<longrightarrow> lane_dispatcher other n' = lane_dispatcher other n))"

definition example_envelope :: "EspNowFrameKind \<Rightarrow> EspNowFrameEnvelope" where
  "example_envelope kind =
     \<lparr>env_kind = kind, env_flags = 1, env_source_boot_id = 7, env_transaction_id = 9, env_sequence = 4\<rparr>"

definition example_runtime :: "EspNowFrameKind \<Rightarrow> bytes \<Rightarrow> EspNowProtocolRuntime" where
  "example_runtime kind m = accept_frames 5 [frame_of (example_envelope kind) m 0] (runtime_init 1)"

definition example_client :: CommandClient where
  "example_client =
     \<lparr>cc_command = \<lparr>cmd_transaction_id = 9, cmd_device_id = [65], cmd_resource = [], cmd_name = [66], cmd_payload = [],
        cmd_source_device_id = [], cmd_source_boot_id = 0, cmd_timeout_ms = 100\<rparr>,
      cc_peer = 5, cc_started_ms = 1000, cc_state = CommandClientState.WAITING_FOR_RESULT, cc_external_deadline = False\<rparr>"

text \<open>A component with one observer, whose client waits for a result of transaction 9 from peer 5.\<close>

definition example_component :: "EspNowFrameKind \<Rightarrow> bytes \<Rightarrow> NetComponent" where
  "example_component kind m =
     (component_init False False False)\<lparr>nc_runtime := example_runtime kind m, nc_client := example_client,
       nc_command_result_observers := [Some 0, None]\<rparr>"

definition example_input :: LoopInput where
  "example_input =
     \<lparr>li_idf = example_idf, li_now_ms = 100, li_tick_ms = 101, li_frame_ms = 102, li_request_ms = 103, li_fail_ms = 104,
      li_log_connected = False, li_wifi_disabled = False\<rparr>"

definition example_progress :: NetResult where
  "example_progress =
     NetResult_init\<lparr>res_transaction_id := 9, res_status := IN_PROGRESS,
       res_execution := NetExecutionContext_init\<lparr>ex_started := True, ex_has_estimated_completion := True,
         ex_estimated_completion_ms := 50\<rparr>\<rparr>"

subsection \<open>Messages in the runtime\<close>

lemma peek_fields:
  assumes "peek_application_message rt = Some im"
  shows "rt_application_message_ready rt" "application_message_kind rt = env_kind (rm_envelope (im_message im))"
    "application_message_transaction_id rt = env_transaction_id (rm_envelope (im_message im))"
    "application_message_peer_index rt = im_peer_index im" "im_peer_index im = rt_application_peer_index rt"
    "fst (take_application_message rt) = Some im"
    "\<not> rt_application_message_ready (snd (take_application_message rt))"
  using assms
  by (auto simp: peek_application_message_def application_message_kind_def application_message_transaction_id_def
      application_message_peer_index_def take_application_message_def split: if_splits option.splits prod.splits bool.splits)

lemma held_message_valid:
  assumes "runtime_inv rt" and "peek_application_message rt = Some im"
  shows "env_transaction_id (rm_envelope (im_message im)) \<noteq> 0"
proof -
  have ready: "rt_application_message_ready rt" using peek_fields(1) [OF assms(2)] .
  then have "reassembler_inv (rt_reassembler rt)" "reassembler_complete (rt_reassembler rt)"
    using assms(1) by (auto simp: runtime_inv_def message_held_def)
  then show ?thesis using peek_held [OF assms(1) ready] assms(2) complete_size_bounds by (auto simp: envelope_ok_def)
qed

lemma example_runtime_holds:
  assumes "kind \<noteq> EspNowFrameKind.ACK" and "0 < length m" and "length m \<le> 214"
  shows "runtime_inv (example_runtime kind m)" and "peers_below (example_runtime kind m)"
    and "peek_application_message (example_runtime kind m) =
      Some \<lparr>im_peer_index = 5, im_message = \<lparr>rm_envelope = example_envelope kind, rm_data = m\<rparr>\<rparr>"
proof -
  have "peers_below (runtime_init 1)" by (simp add: peers_below_def runtime_init_def)
  then show "peers_below (example_runtime kind m)"
    using accept_peers [of "runtime_init 1" "received_from 5 f" for f] by (simp add: example_runtime_def received_from_def)
  show "runtime_inv (example_runtime kind m)"
    using runtime_accept_inv [OF runtime_machine.inv_start] by (simp add: example_runtime_def)
  have "\<exists>rt'. accept_frames 5 (map (frame_of (example_envelope kind) m) [0]) (runtime_init 1) =
      snd (accept_application_message (example_envelope kind) rt') \<and> collected (example_envelope kind) m 5 rt' \<and>
      rt_duplicates rt' = rt_duplicates (runtime_init 1)"
    by (rule accept_whole_message [OF runtime_machine.inv_start])
      (use assms in \<open>simp_all add: runtime_open_def runtime_init_def envelope_ok_def example_envelope_def one_fragment\<close>)
  then show "peek_application_message (example_runtime kind m) =
      Some \<lparr>im_peer_index = 5, im_message = \<lparr>rm_envelope = example_envelope kind, rm_data = m\<rparr>\<rparr>"
    using collected_outcome(3) [of "example_envelope kind" m 5] assms
    by (auto simp: example_runtime_def runtime_init_def cache_contains_def cache_init_def)
      (auto simp: example_envelope_def)
qed

lemma example_component_inv:
  assumes "kind \<noteq> EspNowFrameKind.ACK" and "0 < length m" and "length m \<le> 214"
  shows "component_inv (example_component kind m)"
proof -
  have "component_inv ((component_init False False False)\<lparr>nc_runtime := example_runtime kind m\<rparr>)"
    using component_inv_runtime [OF component_init_inv] example_runtime_holds [OF assms] by blast
  then show ?thesis
    by (auto simp: component_inv_def example_component_def parts_ok_def owner_defs clients_ok_def client_ok_def
        example_client_def component_init_def NetCommand_valid_def INVALID_PEER_INDEX_def)
qed

subsection \<open>A command finds its lane\<close>

lemma accept_takes:
  assumes "cd_state d = InboundCommandDispatcherState.IDLE" and "im_peer_index im \<noteq> INVALID_PEER_INDEX"
    and "env_kind (rm_envelope (im_message im)) = EspNowFrameKind.COMMAND"
    and "env_transaction_id (rm_envelope (im_message im)) \<noteq> 0"
    and "dispatcher_accept handler im now d h = (ok, seen, d', h')"
  shows "ok \<and> lane_took im d d'"
proof -
  have "ok" using assms by (auto simp: dispatcher_accept_def Let_def split: sum.splits if_splits prod.splits)
  from assms(5) show ?thesis
  proof (cases rule: dispatcher_accept_cases)
    case (failed d1 code s b)
    then show ?thesis using assms(1) complete_failure_eq [of d1 code s b now] by (simp add: lane_took_def)
  qed (use \<open>ok\<close> assms(1) in \<open>auto simp: lane_took_def\<close>)
qed

lemma accept_busy:
  "cd_state d \<noteq> InboundCommandDispatcherState.IDLE \<Longrightarrow> dispatcher_accept handler im now d h = (False, None, d, h)"
  by (simp add: dispatcher_accept_def)

lemma on_command_identity_none [simp]: "on_command_identity None n = n"
  by (simp add: on_command_identity_def)

lemma accept_interrupt_takes:
  assumes "im_peer_index im \<noteq> INVALID_PEER_INDEX" and "env_kind (rm_envelope (im_message im)) = EspNowFrameKind.COMMAND"
    and "env_transaction_id (rm_envelope (im_message im)) \<noteq> 0"
    and "accept_interrupt handler im operation now d h = (ok, seen, d', h')"
  shows "if can_accept_interrupt im operation d then ok \<and> lane_took im d d'
    else \<not> ok \<and> seen = None \<and> d' = d \<and> h' = h"
  using assms accept_takes [of d im handler now h ok seen d' h']
  by (auto simp: accept_interrupt_def can_accept_interrupt_def split: if_splits)

lemma lane_all: "(\<forall>lane. P lane) \<longleftrightarrow> P CommandLane \<and> P ParallelLane \<and> P InterruptLane"
  by (metis lane.exhaust)

lemma lane_ex: "(\<exists>lane. P lane) \<longleftrightarrow> P CommandLane \<or> P ParallelLane \<or> P InterruptLane"
  by (metis lane.exhaust)

lemma one_lane_tookI:
  "lane_took im (nc_command_dispatcher n) d \<Longrightarrow> one_lane_took im n (n\<lparr>nc_command_dispatcher := d\<rparr>)"
  "lane_took im (nc_parallel_dispatcher n) d \<Longrightarrow> one_lane_took im n (n\<lparr>nc_parallel_dispatcher := d\<rparr>)"
  "lane_took im (nc_interrupt_dispatcher n) d \<Longrightarrow> one_lane_took im n (n\<lparr>nc_interrupt_dispatcher := d\<rparr>)"
  by (auto simp: one_lane_took_def lane_all lane_ex)

lemma one_lane_took_identity [simp]:
  "one_lane_took im n (on_command_identity seen n') = one_lane_took im n n'"
proof -
  have "lane_dispatcher lane (on_command_identity seen n') = lane_dispatcher lane n'" for lane by (cases lane) simp_all
  then show ?thesis by (simp add: one_lane_took_def)
qed

lemma offer_interrupt_takes:
  assumes "im_peer_index im \<noteq> INVALID_PEER_INDEX" and "env_kind (rm_envelope (im_message im)) = EspNowFrameKind.COMMAND"
    and "env_transaction_id (rm_envelope (im_message im)) \<noteq> 0"
  shows "if nc_interruptible_inbound n \<and>
        (can_accept_interrupt im (nc_command_dispatcher n) (nc_interrupt_dispatcher n) \<or>
         nc_parallel_inbound n \<and> can_accept_interrupt im (nc_parallel_dispatcher n) (nc_interrupt_dispatcher n))
      then fst (offer_interrupt handler im now n h) \<and> one_lane_took im n (fst (snd (offer_interrupt handler im now n h)))
      else offer_interrupt handler im now n h = (False, n, h)"
proof -
  obtain ok seen d h1 where i: "accept_interrupt handler im (nc_command_dispatcher n) now
      (nc_interrupt_dispatcher n) h = (ok, seen, d, h1)" by (metis prod_cases4)
  obtain ok2 seen2 d2 h2 where i2: "accept_interrupt handler im (nc_parallel_dispatcher n) now
      (nc_interrupt_dispatcher n) h = (ok2, seen2, d2, h2)" by (metis prod_cases4)
  show ?thesis
    using i i2 accept_interrupt_takes [OF assms i] accept_interrupt_takes [OF assms i2]
    by (cases "can_accept_interrupt im (nc_command_dispatcher n) (nc_interrupt_dispatcher n)";
        cases "can_accept_interrupt im (nc_parallel_dispatcher n) (nc_interrupt_dispatcher n)")
      (simp_all add: offer_interrupt_def Let_def one_lane_tookI)
qed

lemma offer_command_takes:
  assumes "im_peer_index im \<noteq> INVALID_PEER_INDEX" and "env_kind (rm_envelope (im_message im)) = EspNowFrameKind.COMMAND"
    and "env_transaction_id (rm_envelope (im_message im)) \<noteq> 0"
    and "cd_state (nc_command_dispatcher n) = InboundCommandDispatcherState.IDLE \<or> parallel_lane_available n \<or>
      valid_interrupt im n"
  shows "one_lane_took im n (fst (snd (offer_command handler im now n h)))"
proof (cases "offer_interrupt handler im now n h = (False, n, h)")
  case False
  then show ?thesis
    using offer_interrupt_takes [OF assms(1-3), of n handler now h]
    by (auto simp: offer_command_def case_prod_beta split: if_splits)
next
  case True
  obtain ok seen d h1 where a: "dispatcher_accept handler im now (nc_command_dispatcher n) h = (ok, seen, d, h1)"
    by (metis prod_cases4)
  show ?thesis
  proof (cases "cd_state (nc_command_dispatcher n) = InboundCommandDispatcherState.IDLE")
    case idle: True
    have "ok \<and> lane_took im (nc_command_dispatcher n) d" using accept_takes [OF idle assms(1-3) a] .
    then show ?thesis using True a one_lane_tookI(1) by (simp add: offer_command_def)
  next
    case busy: False
    then have "ok = False \<and> seen = None \<and> d = nc_command_dispatcher n \<and> h1 = h" using a by (simp add: accept_busy)
    moreover have "\<not> valid_interrupt im n"
    proof
      assume v: "valid_interrupt im n"
      then have "fst (offer_interrupt handler im now n h)"
        using offer_interrupt_takes [OF assms(1-3), of n handler now h]
        by (auto simp: valid_interrupt_def interrupt_lane_available_def split: if_splits)
      with True show False by simp
    qed
    then have par: "parallel_lane_available n" using assms(4) busy by simp
    obtain ok2 seen2 d2 h2 where b: "dispatcher_accept handler im now (nc_parallel_dispatcher n) h = (ok2, seen2, d2, h2)"
      by (metis prod_cases4)
    moreover have "ok2 \<and> lane_took im (nc_parallel_dispatcher n) d2"
      using accept_takes [OF _ assms(1-3) b] par by (simp add: parallel_lane_available_def)
    ultimately show ?thesis
      using True a par one_lane_tookI(2) by (simp add: offer_command_def parallel_lane_available_def Let_def)
  qed
qed

text \<open>What a result does to a waiting client while the notification slot is free.\<close>

lemma queue_when_free:
  assumes "\<not> nc_notification_ready n" and "Some x \<in> set (nc_command_result_observers n)"
  shows "queue_command_result_notification p r n =
    n\<lparr>nc_notification := r, nc_notification_peer := p, nc_notification_ready := True\<rparr>"
  using assms by (auto simp: queue_command_result_notification_def)

lemma clear_client_fields [simp]:
  "nc_notification_ready (clear_command_client slot n) = nc_notification_ready n"
  "nc_command_result_observers (clear_command_client slot n) = nc_command_result_observers n"
  "nc_last_terminal_transaction_id (clear_command_client slot n) = nc_last_terminal_transaction_id n"
  "nc_runtime (clear_command_client slot n) = nc_runtime n" "nc_calls (clear_command_client slot n) = nc_calls n"
  "nc_notification (clear_command_client slot n) = nc_notification n"
  by (simp_all add: clear_command_client_def Let_def)

lemma client_at_clear:
  "nc_dual n \<or> slot = 0 \<Longrightarrow> slot = 0 \<or> slot = 1 \<Longrightarrow>
     cc_state (client_at slot (clear_command_client slot n)) = CommandClientState.IDLE"
  by (auto simp: client_at_def clear_command_client_def Let_def)

lemma client_at_fields [simp]:
  "client_at slot (n\<lparr>nc_notification := r, nc_notification_peer := p, nc_notification_ready := b\<rparr>) = client_at slot n"
  "client_at slot (n\<lparr>nc_command_client_progress_count := k\<rparr>) = client_at slot n"
  "client_at slot (n\<lparr>nc_command_client_success_count := k\<rparr>) = client_at slot n"
  "client_at slot (n\<lparr>nc_command_client_failure_count := k\<rparr>) = client_at slot n"
  by (simp_all add: client_at_def)

lemma finish_when_free:
  assumes "\<not> nc_notification_ready n" and "Some x \<in> set (nc_command_result_observers n)"
    and "nc_dual n \<or> slot = 0" and "slot = 0 \<or> slot = 1"
    and "n' = finish_command_client r slot n"
  shows "nc_notification_ready n'" "nc_notification n' = r" "nc_notification_peer n' = cc_peer (client_at slot n)"
    "cc_state (client_at slot n') = CommandClientState.IDLE" "nc_last_terminal_transaction_id n' = res_transaction_id r"
  using assms(1-4) client_at_clear [of _ slot]
  unfolding assms(5) finish_command_client_def Let_def
  by (simp_all add: queue_when_free [of _ x])

lemma client_result_queued:
  assumes "\<not> nc_notification_ready n" and "Some x \<in> set (nc_command_result_observers n)"
    and "nc_dual n \<or> slot = 0" and "slot = 0 \<or> slot = 1"
    and "n' = process_command_client_result im now slot n"
  shows "nc_notification_ready n' \<and> nc_notification_peer n' = cc_peer (client_at slot n) \<and>
    (case result_decode (cmd_transaction_id (cc_command (client_at slot n))) (Some (rm_data (im_message im)))
            (now - cc_started_ms (client_at slot n)) of
       Inr r \<Rightarrow>
         nc_notification n' = r \<and>
         (if res_status r = IN_PROGRESS then client_at slot n' = client_at slot n
          else cc_state (client_at slot n') = CommandClientState.IDLE \<and>
            nc_last_terminal_transaction_id n' = res_transaction_id r)
     | Inl _ \<Rightarrow>
         cc_state (client_at slot n') = CommandClientState.IDLE \<and>
         nc_notification n' = client_failure PROTOCOL_ERROR ''invalid functional result'' now (client_at slot n))"
  using assms(1-4) unfolding assms(5)
  by (auto simp: process_command_client_result_def fail_command_client_def Let_def queue_when_free [of _ x]
      finish_when_free [OF _ _ _ _ refl, of _ x] split: sum.split)

lemma client_result_runtime [simp]:
  "nc_runtime (process_command_client_result im now slot n) = nc_runtime n"
  "nc_local_boot_id (process_command_client_result im now slot n) = nc_local_boot_id n"
  "nc_ack_sequence (process_command_client_result im now slot n) = nc_ack_sequence n"
proof -
  have q: "nc_runtime (queue_command_result_notification p r m) = nc_runtime m"
    "nc_local_boot_id (queue_command_result_notification p r m) = nc_local_boot_id m"
    "nc_ack_sequence (queue_command_result_notification p r m) = nc_ack_sequence m" for p r m
    by (simp_all add: queue_command_result_notification_def)
  have c: "nc_local_boot_id (clear_command_client s m) = nc_local_boot_id m"
    "nc_ack_sequence (clear_command_client s m) = nc_ack_sequence m" for s m
    by (simp_all add: clear_command_client_def Let_def)
  have f: "nc_runtime (finish_command_client r s m) = nc_runtime m"
    "nc_local_boot_id (finish_command_client r s m) = nc_local_boot_id m"
    "nc_ack_sequence (finish_command_client r s m) = nc_ack_sequence m" for r s m
    by (simp_all add: finish_command_client_def Let_def q c)
  show "nc_runtime (process_command_client_result im now slot n) = nc_runtime n"
    "nc_local_boot_id (process_command_client_result im now slot n) = nc_local_boot_id n"
    "nc_ack_sequence (process_command_client_result im now slot n) = nc_ack_sequence n"
    by (simp_all add: process_command_client_result_def fail_command_client_def Let_def q f split: sum.split)
qed

lemma offer_command_runtime: "nc_runtime (fst (snd (offer_command handler im now n h))) = nc_runtime n"
  by (simp add: offer_command_def offer_interrupt_def Let_def case_prod_beta)

subsection \<open>Properties\<close>

text \<open>C5 (invariant): in every reachable state the parts of the component agree about each other: the
  sender is idle exactly when nobody owns it; a frame of the sender that is in flight is the
  transmission the component waits for, to the peer it was sent to; and a command under
  delivery is the command of the client that started it. A pass of the loop never calls a
  handler that is not registered.\<close>

theorem component_always_consistent:
  assumes "component_reach handler n h" and "bounded_handler handler"
  shows "(nc_reliable_message_owner n = ReliableMessageOwner.NONE \<longleftrightarrow> rs_state (nc_sender n) = ReliableSenderState.IDLE) \<and>
    (rs_frame_in_flight (nc_sender n) \<longrightarrow>
       nc_radio_transmission_owner n = SENDER \<and> nc_radio_transmission_peer n = rs_peer_index (nc_sender n)) \<and>
    (nc_reliable_message_owner n = COMMAND_CLIENT \<longrightarrow>
       (let c = client_at (nc_command_sender_slot n) n in
        cc_state c = CommandClientState.WAITING_FOR_DELIVERY_ACK \<and> NetCommand_valid (cc_command c) \<and>
        env_transaction_id (rs_envelope (nc_sender n)) = cmd_transaction_id (cc_command c) \<and>
        rs_peer_index (nc_sender n) = cc_peer c)) \<and>
    (nc_local_boot_id n \<noteq> 0 \<longrightarrow> component_loop handler app li n h \<noteq> None)"
proof -
  have inv: "component_inv n" using component_reach_inv [OF assms] .
  have "component_loop handler app li n h \<noteq> None" if "nc_local_boot_id n \<noteq> 0"
    using component_loop_inv [OF inv that assms(2), of app li h] by auto
  moreover have "NetCommand_valid (cc_command (client_at slot n))"
    if "cc_state (client_at slot n) = CommandClientState.WAITING_FOR_DELIVERY_ACK" for slot
    using that inv by (auto simp: component_inv_def clients_ok_def client_ok_def client_at_def split: if_splits)
  ultimately show ?thesis using inv by (auto simp: component_inv_def owners_ok_def client_owns_def Let_def)
qed

lemma component_always_consistent_witness:
  "component_loop silent_handler (\<lambda>_. []) example_input (component_setup 1 2 (component_init True True True)) () \<noteq> None"
proof -
  let ?n = "component_setup 1 2 (component_init True True True)"
  have reach: "component_reach silent_handler ?n ()" by (intro component_set_up component_start)
  have bounded: "bounded_handler silent_handler" by (simp add: bounded_handler_def silent_handler_def)
  have "boot_id_from 1 2 \<noteq> 0" by (simp add: boot_id_from_def Let_def)
  then have "nc_local_boot_id ?n \<noteq> 0"
    by (auto simp: component_setup_def configure_protocol_def split: prod.split bool.split)
  then show ?thesis
    by (rule component_always_consistent [OF reach bounded, THEN conjunct2, THEN conjunct2, THEN conjunct2, rule_format])
qed

text \<open>C4 (safety): a command whose delivery was accepted is never dropped on its way to a dispatcher:
  the component either leaves it in the runtime, untouched, or hands it to exactly one idle
  lane, which from then on serves its transaction for its peer. If the ordinary lane is idle
  the command is handed over.\<close>

theorem accepted_command_reaches_dispatcher:
  assumes "component_inv n" and "peek_application_message (nc_runtime n) = Some im"
    and "env_kind (rm_envelope (im_message im)) = EspNowFrameKind.COMMAND"
    and "process_application_message handler app now n h = (n', h')"
  shows "(n' = n \<and> h' = h \<or> one_lane_took im n n' \<and> \<not> rt_application_message_ready (nc_runtime n')) \<and>
    (cd_state (nc_command_dispatcher n) = InboundCommandDispatcherState.IDLE \<longrightarrow> one_lane_took im n n')"
proof -
  note im = peek_fields [OF assms(2)]
  obtain rt where take: "take_application_message (nc_runtime n) = (Some im, rt)" using im(6) by (metis prod.collapse)
  define n1 where "n1 = n\<lparr>nc_runtime := rt\<rparr>"
  have tx: "env_transaction_id (rm_envelope (im_message im)) \<noteq> 0"
    using held_message_valid [OF component_invD(2) [OF assms(1)] assms(2)] .
  have "im_peer_index im < 16" using im(5) component_invD(4) [OF assms(1)] by simp
  then have peer: "im_peer_index im \<noteq> INVALID_PEER_INDEX" by (auto simp: INVALID_PEER_INDEX_def)
  let ?kept = "message_must_wait n \<or> only_an_interrupt_fits n \<and> \<not> valid_interrupt im n"
  have run: "(n', h') = (if ?kept then (n, h) else snd (offer_command handler im now n1 h))"
    unfolding assms(4) [symmetric] process_application_message_def take n1_def using assms(2,3) im(1) by simp
  have free: "\<not> ?kept" if "cd_state (nc_command_dispatcher n) = InboundCommandDispatcherState.IDLE"
    using that im(2) assms(3) by (auto simp: message_must_wait_def only_an_interrupt_fits_def Let_def)
  have lanes: "lane_dispatcher l n1 = lane_dispatcher l n" for l by (cases l) (simp_all add: n1_def)
  have "one_lane_took im n n' \<and> \<not> rt_application_message_ready (nc_runtime n')" if "\<not> ?kept"
  proof -
    have "cd_state (nc_command_dispatcher n1) = InboundCommandDispatcherState.IDLE \<or> parallel_lane_available n1 \<or>
        valid_interrupt im n1"
      using that im(2) assms(3)
      by (auto simp: only_an_interrupt_fits_def n1_def parallel_lane_available_def valid_interrupt_def
          interrupt_lane_available_def)
    then have "one_lane_took im n1 n'"
      using offer_command_takes [OF peer assms(3) tx, of n1 handler now h] run that by (metis fst_conv)
    moreover have "nc_runtime n' = rt"
      using offer_command_runtime [of handler im now n1 h] run that by (simp add: n1_def) (metis fst_conv)
    ultimately show ?thesis using im(7) take lanes by (auto simp: one_lane_took_def)
  qed
  with run free show ?thesis by (auto split: if_splits)
qed

lemma example_lanes [simp]:
  "cd_state (nc_command_dispatcher (example_component kind m)) = InboundCommandDispatcherState.IDLE"
  "nc_runtime (example_component kind m) = example_runtime kind m" "nc_client (example_component kind m) = example_client"
  "nc_command_result_observers (example_component kind m) = [Some 0, None]" "\<not> nc_dual (example_component kind m)"
  "\<not> nc_notification_ready (example_component kind m)"
  by (simp_all add: example_component_def component_init_def dispatcher_init_def)

lemma accepted_command_reaches_dispatcher_witness:
  "one_lane_took \<lparr>im_peer_index = 5, im_message = \<lparr>rm_envelope = example_envelope EspNowFrameKind.COMMAND, rm_data = [1, 2]\<rparr>\<rparr>
     (example_component EspNowFrameKind.COMMAND [1, 2])
     (fst (process_application_message silent_handler (\<lambda>_. []) 50 (example_component EspNowFrameKind.COMMAND [1, 2]) ()))"
proof -
  let ?n = "example_component EspNowFrameKind.COMMAND [1, 2]"
  have inv: "component_inv ?n" by (rule example_component_inv) simp_all
  have peek: "peek_application_message (nc_runtime ?n) = Some \<lparr>im_peer_index = 5,
      im_message = \<lparr>rm_envelope = example_envelope EspNowFrameKind.COMMAND, rm_data = [1, 2]\<rparr>\<rparr>"
    using example_runtime_holds(3) [of EspNowFrameKind.COMMAND "[1, 2]"] by simp
  show ?thesis
    using accepted_command_reaches_dispatcher
      [OF inv peek _ prod.collapse [symmetric], of silent_handler "\<lambda>_. []" 50 "()"]
    by (simp add: example_envelope_def)
qed

lemma waiting_client_gets_result:
  assumes "peek_application_message (nc_runtime n) = Some im" and "matching_command_client n = Some slot"
    and "\<not> nc_notification_ready n" and "Some x \<in> set (nc_command_result_observers n)"
    and "nc_dual n \<or> slot = 0"
    and "process_application_message handler app now n h = (n', h')"
  shows "nc_runtime n' = snd (take_application_message (nc_runtime n)) \<and> nc_local_boot_id n' = nc_local_boot_id n \<and>
    nc_ack_sequence n' = nc_ack_sequence n \<and> \<not> rt_application_message_ready (nc_runtime n') \<and> h' = h \<and>
    nc_notification_ready n' \<and> nc_notification_peer n' = im_peer_index im \<and>
    (case result_decode (env_transaction_id (rm_envelope (im_message im))) (Some (rm_data (im_message im)))
            (now - cc_started_ms (client_at slot n)) of
       Inr r \<Rightarrow>
         nc_notification n' = r \<and>
         (if res_status r = IN_PROGRESS then client_at slot n' = client_at slot n
          else cc_state (client_at slot n') = CommandClientState.IDLE \<and>
            nc_last_terminal_transaction_id n' = res_transaction_id r)
     | Inl _ \<Rightarrow>
         cc_state (client_at slot n') = CommandClientState.IDLE \<and> res_status (nc_notification n') = FAILED \<and>
         er_code (res_error (nc_notification n')) = PROTOCOL_ERROR \<and>
         ex_started (res_execution (nc_notification n')))"
proof -
  note im = peek_fields [OF assms(1)] and match = matching_client [OF assms(2)]
  obtain rt where take: "take_application_message (nc_runtime n) = (Some im, rt)" using im(6) by (metis prod.collapse)
  let ?n1 = "n\<lparr>nc_runtime := rt\<rparr>"
  have kind: "env_kind (rm_envelope (im_message im)) = EspNowFrameKind.RESULT" using match(5) im(2) by simp
  have wait: "\<not> message_must_wait n" "\<not> only_an_interrupt_fits n"
    using kind im(2) assms(2,3) by (auto simp: message_must_wait_def only_an_interrupt_fits_def Let_def)
  have run: "(n', h') = (process_command_client_result im now slot ?n1, h)"
    unfolding assms(6) [symmetric] process_application_message_def take
    using im(1) wait kind assms(2) by simp
  have fields: "nc_runtime n' = rt" "\<not> rt_application_message_ready rt" "snd (take_application_message (nc_runtime n)) = rt"
    "nc_local_boot_id n' = nc_local_boot_id n" "nc_ack_sequence n' = nc_ack_sequence n"
    using run client_result_runtime [of im now slot ?n1] im(7) take by simp_all
  have n1: "client_at slot ?n1 = client_at slot n" "nc_dual ?n1 \<or> slot = 0" "\<not> nc_notification_ready ?n1"
    "Some x \<in> set (nc_command_result_observers ?n1)"
    using assms(3-5) by simp_all
  show ?thesis
    using client_result_queued [OF n1(3,4,2) match(1) refl, of im now] match(2-4) run im(3,4) fields
    by (cases "result_decode (env_transaction_id (rm_envelope (im_message im))) (Some (rm_data (im_message im)))
        (now - cc_started_ms (client_at slot n))") (simp_all add: client_failure_def NetResult_init_def)
qed

text \<open>C6 (functional): a result for a command that waits for it is handed to the application and to
  nobody else: with the notification slot free, the pass that finds the result in the
  runtime queues exactly the decoded result for the observers; progress keeps the client
  waiting, a terminal result frees it, and an undecodable one frees it with
  \<open>PROTOCOL_ERROR\<close>, marked as possibly executed.\<close>

theorem result_reaches_client:
  assumes "peek_application_message (nc_runtime n) = Some im" and "matching_command_client n = Some slot"
    and "\<not> nc_notification_ready n" and "Some x \<in> set (nc_command_result_observers n)"
    and "nc_dual n \<or> slot = 0"
    and "process_application_message handler app now n h = (n', h')"
  shows "\<not> rt_application_message_ready (nc_runtime n') \<and> h' = h \<and>
    nc_notification_ready n' \<and> nc_notification_peer n' = im_peer_index im \<and>
    (case result_decode (env_transaction_id (rm_envelope (im_message im))) (Some (rm_data (im_message im)))
            (now - cc_started_ms (client_at slot n)) of
       Inr r \<Rightarrow>
         nc_notification n' = r \<and>
         (if res_status r = IN_PROGRESS then client_at slot n' = client_at slot n
          else cc_state (client_at slot n') = CommandClientState.IDLE \<and>
            nc_last_terminal_transaction_id n' = res_transaction_id r)
     | Inl _ \<Rightarrow>
         cc_state (client_at slot n') = CommandClientState.IDLE \<and> res_status (nc_notification n') = FAILED \<and>
         er_code (res_error (nc_notification n')) = PROTOCOL_ERROR \<and>
         ex_started (res_execution (nc_notification n')))"
  using waiting_client_gets_result [OF assms] by blast

lemma example_progress_ok: "sendable 9 example_progress" "length (result_bytes example_progress) \<le> 214"
  "0 < length (result_bytes example_progress)"
  by (simp_all add: sendable_def example_progress_def message_inits consistency_defs NetResult_wf_def
      NetStateSnapshot_wf_def result_total_def expected_part_def remote_part_def error_part_def has_remote_def
      has_error_def result_bytes_def)

lemma example_match:
  assumes "0 < length m" and "length m \<le> 214"
  shows "matching_command_client (example_component EspNowFrameKind.RESULT m) = Some 0"
proof -
  note peek = example_runtime_holds(3) [of EspNowFrameKind.RESULT m, OF _ assms, simplified]
  show ?thesis
    using peek_fields(2-4) [OF peek]
    by (simp add: matching_command_client_def example_client_def example_envelope_def Let_def)
qed

lemma result_reaches_client_witness:
  "nc_notification (fst (process_application_message silent_handler (\<lambda>_. []) 1040
     (example_component EspNowFrameKind.RESULT (result_bytes example_progress)) ())) = result_carried 40 example_progress"
proof -
  let ?m = "result_bytes example_progress"
  let ?n = "example_component EspNowFrameKind.RESULT ?m"
  have peek: "peek_application_message (nc_runtime ?n) = Some \<lparr>im_peer_index = 5,
      im_message = \<lparr>rm_envelope = example_envelope EspNowFrameKind.RESULT, rm_data = ?m\<rparr>\<rparr>"
    using example_runtime_holds(3) [of EspNowFrameKind.RESULT ?m] example_progress_ok by simp
  have "result_decode 9 (Some ?m) 40 = Inr (result_carried 40 example_progress)"
    using result_decode_encoded [of example_progress 40] example_progress_ok(1) by (simp add: sendable_def)
  then show ?thesis
    using result_reaches_client [OF peek example_match _ _ _ prod.collapse [symmetric],
        of 0 silent_handler "\<lambda>_. []" 1040 "()"] example_progress_ok(2,3)
    by (simp add: client_at_def example_client_def) (simp add: example_envelope_def)
qed

text \<open>C27 (error): the observers are not always told how a command ended. When progress arrives in the
  very pass in which the command's deadline has passed, the progress takes the only
  notification slot; the deadline then frees the client, and the failure it reports is
  dropped because the slot is taken. What is left to be announced is the progress of a
  command that is already over, and a later result of it is discarded as late.\<close>

theorem terminal_notification_lost:
  assumes "cc_state (client_at slot n) = CommandClientState.WAITING_FOR_RESULT" and "\<not> cc_external_deadline (client_at slot n)"
    and "cmd_timeout_ms (cc_command (client_at slot n)) \<le> now - cc_started_ms (client_at slot n)"
    and "result_decode (cmd_transaction_id (cc_command (client_at slot n))) (Some (rm_data (im_message im)))
      (now - cc_started_ms (client_at slot n)) = Inr r"
    and "res_status r = IN_PROGRESS"
    and "\<not> nc_notification_ready n" and "Some x \<in> set (nc_command_result_observers n)"
    and "nc_dual n \<or> slot = 0" and "slot = 0 \<or> slot = 1"
  shows "let n' = expire_command_client now slot (process_command_client_result im now slot n) in
    cc_state (client_at slot n') = CommandClientState.IDLE \<and>
    nc_command_client_failure_count n' = nc_command_client_failure_count n + 1 \<and>
    nc_last_terminal_transaction_id n' = cmd_transaction_id (cc_command (client_at slot n)) \<and>
    nc_notification_ready n' \<and> nc_notification n' = r \<and> nc_calls n' = nc_calls n"
proof -
  define m where "m = n\<lparr>nc_command_client_progress_count := nc_command_client_progress_count n + 1,
    nc_notification := r, nc_notification_peer := cc_peer (client_at slot n), nc_notification_ready := True\<rparr>"
  have "process_command_client_result im now slot n = m"
    using assms(4-7) by (simp add: process_command_client_result_def queue_when_free [of _ x] m_def Let_def)
  moreover have "client_at slot m = client_at slot n" by (simp add: m_def client_at_def)
  moreover have "queue_command_result_notification p q w = w" if "nc_notification_ready w" for p q w
    using that by (simp add: queue_command_result_notification_def)
  ultimately show ?thesis
    using assms(1-3,8,9) client_at_clear [of "m\<lparr>nc_command_client_failure_count := k, nc_last_terminal_peer := i,
        nc_last_terminal_transaction_id := t\<rparr>" slot for k i t]
    by (simp add: expire_command_client_def fail_command_client_def finish_command_client_def client_failure_def Let_def)
      (simp add: m_def clear_command_client_def Let_def)
qed

lemma terminal_notification_lost_witness:
  "let n = example_component EspNowFrameKind.RESULT [0];
       im = \<lparr>im_peer_index = 5, im_message = \<lparr>rm_envelope = example_envelope EspNowFrameKind.RESULT,
         rm_data = result_bytes example_progress\<rparr>\<rparr>;
       n' = expire_command_client 1200 0 (process_command_client_result im 1200 0 n)
   in cc_state (client_at 0 n') = CommandClientState.IDLE \<and> res_status (nc_notification n') = IN_PROGRESS"
proof -
  have "result_decode 9 (Some (result_bytes example_progress)) 200 = Inr (result_carried 200 example_progress)"
    using result_decode_encoded [of example_progress 200] example_progress_ok(1) by (simp add: sendable_def)
  then show ?thesis
    using terminal_notification_lost [of 0 "example_component EspNowFrameKind.RESULT [0]" 1200
        "\<lparr>im_peer_index = 5, im_message = \<lparr>rm_envelope = example_envelope EspNowFrameKind.RESULT,
           rm_data = result_bytes example_progress\<rparr>\<rparr>" "result_carried 200 example_progress" 0]
    by (simp add: client_at_def example_client_def result_carried_def example_progress_def Let_def)
qed

end
