(* ===== verification/Switch_And_Action.thy ===== *)
theory Switch_And_Action
  imports Component_Properties
begin

text \<open>
  \<open>espnow_net_protocol_switch.h\<close> and \<open>.cpp\<close>, the switch that enables and disables the runtime, and
  \<open>send_command_action.h\<close>, the automation action that sends a command. The base classes of
  both belong to ESPHome: of the switch the model keeps the parent and the state it has
  published.
\<close>

record EspNowNetProtocolSwitch =
  sw_parent :: bool
  sw_failed :: bool
  sw_state :: "bool option"

definition switch_init :: "bool \<Rightarrow> EspNowNetProtocolSwitch" where
  "switch_init parent = \<lparr>sw_parent = parent, sw_failed = False, sw_state = None\<rparr>"

text \<open>\<open>restored\<close> is the state that the restore mode gives, if it gives one.\<close>

definition switch_setup ::
    "bool option \<Rightarrow> EspNowNetProtocolSwitch \<Rightarrow> NetComponent \<Rightarrow> EspNowNetProtocolSwitch \<times> NetComponent" where
  "switch_setup restored sw n =
     (if \<not> sw_parent sw then (sw\<lparr>sw_failed := True\<rparr>, n)
      else
        (let enabled = (case restored of None \<Rightarrow> True | Some b \<Rightarrow> b)
         in (sw\<lparr>sw_state := Some enabled\<rparr>, set_runtime_enabled enabled n)))"

definition switch_write_state ::
    "bool \<Rightarrow> EspNowNetProtocolSwitch \<Rightarrow> NetComponent \<Rightarrow> EspNowNetProtocolSwitch \<times> NetComponent" where
  "switch_write_state state sw n =
     (if \<not> sw_parent sw then (sw, n) else (sw\<lparr>sw_state := Some state\<rparr>, set_runtime_enabled state n))"

record EspNowSendCommandAction =
  sa_peer :: "cstring option"
  sa_device :: "cstring option"
  sa_resource :: "cstring option"
  sa_command :: "cstring option"
  sa_payload :: "cstring option"
  sa_timeout_ms :: u32

definition action_init :: EspNowSendCommandAction where
  "action_init =
     \<lparr>sa_peer = None, sa_device = None, sa_resource = None, sa_command = None, sa_payload = Some (cstr ''''),
      sa_timeout_ms = 5000\<rparr>"

text \<open>\<open>play\<close>; the flag, which the code only logs, is whether the command was started.\<close>

definition action_play :: "u32 \<Rightarrow> EspNowSendCommandAction \<Rightarrow> NetComponent \<Rightarrow> bool \<times> NetComponent" where
  "action_play millis a n =
     send_command (sa_peer a) (sa_device a) (sa_resource a) (sa_command a) (sa_payload a) (sa_timeout_ms a) millis n"

subsection \<open>A disabled component\<close>

text \<open>Nothing is being sent, awaited or announced.\<close>

definition quiet :: "NetComponent \<Rightarrow> bool" where
  "quiet n \<longleftrightarrow>
     \<not> nc_runtime_enabled n \<and> recovery_permitted n \<and> \<not> nc_notification_ready n \<and> nc_result_message n = None"

primrec component_passes ::
    "'h NetCommandHandler \<Rightarrow> (observer_call \<Rightarrow> component_call list) \<Rightarrow> LoopInput list \<Rightarrow> NetComponent \<Rightarrow> 'h \<Rightarrow>
     (NetComponent \<times> 'h) option" where
  "component_passes handler app [] n h = Some (n, h)"
| "component_passes handler app (li # lis) n h =
     (case component_loop handler app li n h of None \<Rightarrow> None
      | Some (n1, h1) \<Rightarrow> component_passes handler app lis n1 h1)"

text \<open>The part of the state that a quiet component does not touch.\<close>

definition protocol_state :: "NetComponent \<Rightarrow> NetComponent" where
  "protocol_state n =
     n\<lparr>nc_radio := radio_init, nc_recovery := recovery_init False, nc_heartbeat := heartbeat_init\<rparr>"

lemma quiet_protocol_state: "quiet (protocol_state n) = quiet n"
  by (simp add: quiet_def recovery_permitted_def transmitter_idle_def protocol_state_def)

lemma supervision_protocol_state: "protocol_state (loop_supervision li n) = protocol_state n"
  by (simp add: protocol_state_def loop_supervision_def component_heartbeat_tick_def Let_def)

lemma quiet_pass:
  assumes "quiet n"
  shows "\<exists>n'. component_loop handler app li n h = Some (n', h) \<and> protocol_state n' = protocol_state n"
proof -
  have "\<not> nc_runtime_enabled (loop_supervision li n)"
    using assms quiet_protocol_state [of n] quiet_protocol_state [of "loop_supervision li n"]
      supervision_protocol_state [of li n] by (simp add: quiet_def)
  moreover have "protocol_state (discard_radio_events n1) = protocol_state n1" for n1
    by (simp add: protocol_state_def discard_radio_events_def)
  ultimately show ?thesis using supervision_protocol_state [of li n] by (simp add: component_loop_def Let_def)
qed

lemma quiet_passes:
  "quiet n \<Longrightarrow> \<exists>n'. component_passes handler app lis n h = Some (n', h) \<and> protocol_state n' = protocol_state n"
proof (induction lis arbitrary: n)
  case (Cons li lis)
  obtain n1 where n1: "component_loop handler app li n h = Some (n1, h)" "protocol_state n1 = protocol_state n"
    using quiet_pass [OF Cons.prems, of handler app li h] by blast
  then have "quiet n1" using Cons.prems quiet_protocol_state by metis
  then show ?case using Cons.IH n1 by fastforce
qed simp

lemma cancel_first:
  assumes "client_ok (nc_client n)" and "cc_state (nc_client n) \<noteq> CommandClientState.IDLE"
  shows "cc_state (nc_client (snd (cancel_command (cmd_transaction_id (cc_command (nc_client n))) n))) = CommandClientState.IDLE"
    and "nc_client_2 (snd (cancel_command (cmd_transaction_id (cc_command (nc_client n))) n)) = nc_client_2 n"
  using assms
  by (simp_all add: cancel_command_def client_of_transaction_def clear_command_client_def client_ok_def
      NetCommand_valid_def Let_def)

lemma cancel_second:
  assumes "client_ok (nc_client_2 n)" and "cc_state (nc_client_2 n) \<noteq> CommandClientState.IDLE"
    and "cc_state (nc_client n) = CommandClientState.IDLE" and "nc_dual n"
  shows "cc_state (nc_client_2 (snd (cancel_command (cmd_transaction_id (cc_command (nc_client_2 n))) n))) = CommandClientState.IDLE"
    and "nc_client (snd (cancel_command (cmd_transaction_id (cc_command (nc_client_2 n))) n)) = nc_client n"
  using assms
  by (simp_all add: cancel_command_def client_of_transaction_def clear_command_client_def client_ok_def
      NetCommand_valid_def Let_def)

lemma cancel_dual [simp]: "nc_dual (snd (cancel_command t n)) = nc_dual n"
  by (auto simp: cancel_command_def clear_command_client_def Let_def split: option.split)

lemma cancelled_clients_idle:
  assumes "client_ok (nc_client n)" and "client_ok (nc_client_2 n)"
  shows "cc_state (nc_client (cancel_active_clients n)) = CommandClientState.IDLE"
    and "nc_dual n \<Longrightarrow> cc_state (nc_client_2 (cancel_active_clients n)) = CommandClientState.IDLE"
proof -
  define n1 where "n1 = (if cc_state (nc_client n) \<noteq> CommandClientState.IDLE
    then snd (cancel_command (cmd_transaction_id (cc_command (nc_client n))) n) else n)"
  have n1: "cc_state (nc_client n1) = CommandClientState.IDLE" "nc_client_2 n1 = nc_client_2 n" "nc_dual n1 = nc_dual n"
    using cancel_first [OF assms(1)] by (simp_all add: n1_def)
  have eq: "cancel_active_clients n = (if nc_dual n1 \<and> cc_state (nc_client_2 n1) \<noteq> CommandClientState.IDLE
      then snd (cancel_command (cmd_transaction_id (cc_command (nc_client_2 n1))) n1) else n1)"
    by (simp add: cancel_active_clients_def n1_def Let_def)
  show "cc_state (nc_client (cancel_active_clients n)) = CommandClientState.IDLE"
    using n1 cancel_second [of n1] assms(2) unfolding eq by auto
  show "cc_state (nc_client_2 (cancel_active_clients n)) = CommandClientState.IDLE" if "nc_dual n"
    using n1 cancel_second [of n1] assms(2) that unfolding eq by auto
qed

text \<open>The part of the state that holds what the component does for its peers: the commands it
  executes, and the received message with its acknowledgement.\<close>

definition inbound_work :: "NetComponent \<Rightarrow>
    InboundCommandDispatcher \<times> InboundCommandDispatcher \<times> InboundCommandDispatcher \<times> EspNowProtocolRuntime" where
  "inbound_work n =
     (nc_command_dispatcher n, nc_parallel_dispatcher n, nc_interrupt_dispatcher n, nc_runtime n)"

lemma cancel_keeps_inbound: "inbound_work (snd (cancel_command t n)) = inbound_work n"
  by (auto simp: inbound_work_def cancel_command_def clear_command_client_def Let_def split: option.split)

lemma switched_off_keeps_inbound: "inbound_work (set_runtime_enabled False n) = inbound_work n"
proof -
  have "inbound_work (cancel_active_clients n) = inbound_work n" for n
    by (simp add: cancel_active_clients_def cancel_keeps_inbound Let_def)
  then show ?thesis
    by (simp add: set_runtime_enabled_def inbound_work_def discard_radio_events_def reset_sender_def stop_heartbeat_def)
qed

lemma cancel_sender:
  assumes "nc_reliable_message_owner n = ReliableMessageOwner.NONE"
  shows "nc_sender (snd (cancel_command t n)) = nc_sender n"
    and "nc_reliable_message_owner (snd (cancel_command t n)) = ReliableMessageOwner.NONE"
    and "nc_runtime_enabled (snd (cancel_command t n)) = nc_runtime_enabled n"
    and "nc_calls (snd (cancel_command t n)) = nc_calls n"
  using assms by (auto simp: cancel_command_def clear_command_client_def Let_def split: option.split)

lemma switched_off:
  assumes "component_inv n" and "nc_runtime_enabled n"
  shows "quiet (set_runtime_enabled False n)" and "nc_calls (set_runtime_enabled False n) = nc_calls n"
proof -
  define n1 where "n1 = reset_sender (stop_heartbeat (n\<lparr>nc_runtime_enabled := False\<rparr>))"
  have n1: "nc_reliable_message_owner n1 = ReliableMessageOwner.NONE" "rs_state (nc_sender n1) = ReliableSenderState.IDLE"
    "nc_client n1 = nc_client n" "nc_client_2 n1 = nc_client_2 n" "nc_dual n1 = nc_dual n" "\<not> nc_runtime_enabled n1"
    "nc_calls n1 = nc_calls n"
    by (simp_all add: n1_def reset_sender_def stop_heartbeat_def sender_reset_def)
  have ok: "client_ok (nc_client n1)" "client_ok (nc_client_2 n1)"
    using assms(1) n1(3,4) by (simp_all add: component_inv_def clients_ok_def)
  have "nc_reliable_message_owner (cancel_active_clients n1) = ReliableMessageOwner.NONE"
    "rs_state (nc_sender (cancel_active_clients n1)) = ReliableSenderState.IDLE"
    "\<not> nc_runtime_enabled (cancel_active_clients n1)" "nc_calls (cancel_active_clients n1) = nc_calls n"
    "nc_dual (cancel_active_clients n1) = nc_dual n1"
    using n1 by (simp_all add: cancel_active_clients_def cancel_sender Let_def)
  with cancelled_clients_idle [OF ok] assms(2)
  show "quiet (set_runtime_enabled False n)" "nc_calls (set_runtime_enabled False n) = nc_calls n"
    by (simp_all add: set_runtime_enabled_def quiet_def recovery_permitted_def transmitter_idle_def
        discard_radio_events_def flip: n1_def)
qed

lemma quiet_refuses: "quiet n \<Longrightarrow> fst (send_command p d r c v t now n) = False"
  by (auto simp: send_command_def start_command_def can_start_command_def quiet_def Let_def split: prod.split)

text \<open>C29 (safety): switching the runtime off stops the component at once and for good. It cancels
  the component's own commands, the sender's delivery, the pending notification and the
  stored result without calling an observer; from then on the automation's action is
  refused, and however often the loop runs, it ends without calling the handler or an
  observer and leaves the protocol's state as it is: outside the radio, the recovery and the
  heartbeat, nothing changes. What the component does for its peers is not cancelled but
  frozen: its dispatchers with the commands they execute, and the runtime with a held message
  and a pending acknowledgement, stay exactly as they were.\<close>

theorem switched_off_is_quiet:
  assumes "component_inv n" and "nc_runtime_enabled n" and "sw_parent sw"
    and "switch_write_state False sw n = (sw', n')"
  shows "sw_state sw' = Some False \<and> quiet n' \<and> nc_calls n' = nc_calls n \<and> inbound_work n' = inbound_work n \<and>
    fst (action_play millis action n') = False \<and>
    (\<exists>n2. component_passes handler app lis n' h = Some (n2, h) \<and> quiet n2 \<and> protocol_state n2 = protocol_state n')"
proof -
  have n': "n' = set_runtime_enabled False n" and sw: "sw_state sw' = Some False"
    using assms(3,4) by (auto simp: switch_write_state_def)
  have quiet: "quiet n'" using switched_off(1) [OF assms(1,2)] n' by simp
  obtain n2 where "component_passes handler app lis n' h = Some (n2, h)" "protocol_state n2 = protocol_state n'"
    using quiet_passes [OF quiet, of handler app lis h] by blast
  moreover have "quiet n2" using calculation(2) quiet quiet_protocol_state by metis
  ultimately show ?thesis
    using sw quiet n' switched_off(2) [OF assms(1,2)] switched_off_keeps_inbound quiet_refuses [OF quiet] by (auto simp: action_play_def)
qed

definition example_busy :: NetComponent where
  "example_busy =
     snd (start_command 5 (cc_command example_client) 50
       (component_setup 1 2 (component_init True False False)))"

lemma switched_off_is_quiet_witness:
  "quiet (snd (switch_write_state False (switch_init True) example_busy)) \<and>
   (\<exists>n2. component_passes silent_handler (\<lambda>_. []) [example_input, example_input]
      (snd (switch_write_state False (switch_init True) example_busy)) () = Some (n2, ()) \<and> quiet n2)"
proof -
  have inv: "component_inv example_busy"
    unfolding example_busy_def by (intro start_command_inv setup_inv component_init_inv)
  have "nc_runtime_enabled (snd (start_command p c t n)) = nc_runtime_enabled n" for p c t n
    by (auto simp: start_command_def Let_def split: prod.split bool.split sum.split)
  then have "nc_runtime_enabled example_busy"
    by (simp add: example_busy_def component_setup_def configure_protocol_def component_init_def split: prod.split bool.split)
  moreover have "sw_parent (switch_init True)" by (simp add: switch_init_def)
  ultimately show ?thesis
    using switched_off_is_quiet [OF inv _ _ prod.collapse [symmetric], where handler = silent_handler
        and app = "\<lambda>_. []" and lis = "[example_input, example_input]" and h = "()"] by blast
qed

end
