(* ===== verification/Checksum.thy ===== *)
theory Checksum
  imports Frame
begin

text \<open>
  The checksum of \<open>frame.h\<close> against its mathematical definition: the remainder of a polynomial
  division over the field of two elements. The code shifts a register to the right and
  folds a whole byte into it at a time; the reference divides the bits of the message, lowest
  bit of each byte first, by the generator of IEEE 802.3.
\<close>

subsection \<open>The reference\<close>

text \<open>Polynomials are lists of coefficients, highest degree first; \<open>xor_head\<close> adds one to the front
  of another.\<close>

fun xor_head :: "bool list \<Rightarrow> bool list \<Rightarrow> bool list" where
  "xor_head (x # xs) (y # ys) = (x \<noteq> y) # xor_head xs ys"
| "xor_head [] ys = ys"
| "xor_head (x # xs) [] = []"

lemma length_xor_head [simp]: "length (xor_head xs ys) = length ys"
  by (induction xs ys rule: xor_head.induct) auto

text \<open>The generator, of degree 32, without its leading coefficient.\<close>

definition generator :: "bool list" where
  "generator = map (bit (0x04C11DB7 :: u32)) (rev [0..<32])"

text \<open>Long division: the leading coefficient is cancelled until fewer than 33 are left.\<close>

function poly_remainder :: "bool list \<Rightarrow> bool list" where
  "poly_remainder [] = []"
| "poly_remainder (b # bs) =
     (if length bs < 32 then b # bs else poly_remainder (if b then xor_head generator bs else bs))"
  by pat_completeness auto

termination by (relation "measure length") auto

definition message_bits :: "bytes \<Rightarrow> bool list" where
  "message_bits data = concat (map (\<lambda>b. map (bit b) [0..<8]) data)"

text \<open>The first 32 coefficients are complemented before the division, the remainder after it; the
  coefficient of the highest degree becomes the lowest bit.\<close>

definition crc_reference :: "bytes \<Rightarrow> u32" where
  "crc_reference data =
     NOT (horner_sum of_bool 2 (poly_remainder (xor_head (replicate 32 True) (message_bits data @ replicate 32 False))))"

subsection \<open>The register\<close>

definition register_bits :: "u32 \<Rightarrow> bool list" where
  "register_bits c = map (bit c) [0..<32]"

text \<open>One bit of the message is shifted into the register.\<close>

definition shift_in :: "bool \<Rightarrow> u32 \<Rightarrow> u32" where
  "shift_in b c = crc_bit (c XOR of_bool b)"

lemma nth_xor_head:
  "i < length ys \<Longrightarrow> xor_head xs ys ! i = (if i < length xs then xs ! i \<noteq> ys ! i else ys ! i)"
  by (induction xs ys arbitrary: i rule: xor_head.induct) (auto simp: nth_Cons split: nat.split)

lemma xor_head_zeros: "length xs = n \<Longrightarrow> xor_head xs (replicate n False) = xs"
  by (rule nth_equalityI) (simp_all add: nth_xor_head)

lemma register_nth [simp]: "i < 32 \<Longrightarrow> register_bits c ! i = bit c i" "length (register_bits c) = 32"
  by (simp_all add: register_bits_def)

lemma generator_register: "generator = register_bits 0xEDB88320"
  by (simp add: generator_def register_bits_def upt_rec)

lemma register_all: "register_bits 0xFFFFFFFF = replicate 32 True"
  by (simp add: register_bits_def upt_rec eval_nat_numeral)

lemma register_horner: "horner_sum of_bool 2 (register_bits c) = c"
  by (rule bit_word_eqI) (simp add: bit_horner_sum_bit_word_iff register_bits_def)

subsection \<open>The register divides\<close>

lemma shift_in_bits:
  "i < 32 \<Longrightarrow> bit (shift_in b c) i \<longleftrightarrow> (bit c (Suc i) \<noteq> ((bit c 0 \<noteq> b) \<and> bit (0xEDB88320 :: u32) i))"
  by (cases b) (auto simp: shift_in_def bit_crc_bit bit_simps)

lemma divide_step:
  assumes "32 \<le> length bs"
  shows "poly_remainder (xor_head (register_bits c) (b # bs)) =
    poly_remainder (xor_head (register_bits (shift_in b c)) bs)"
proof -
  obtain rest where rest: "register_bits c = bit c 0 # rest" "length rest = 31"
    by (cases "register_bits c") (use register_nth(1) [of 0 c] register_nth(2) [of c] in auto)
  then have bits: "rest ! i = bit c (Suc i)" if "i < 31" for i
    using register_nth(1) [of "Suc i" c] that by simp
  have shifted: "xor_head rest bs ! i \<longleftrightarrow> (bs ! i \<noteq> (i < 32 \<and> bit c (Suc i)))" if "i < length bs" for i
  proof (cases "i < 31")
    case False
    moreover have "\<not> bit c (Suc i)" if "i = 31" using that u32_no_high_bit [of c] by (simp add: eval_nat_numeral)
    ultimately show ?thesis using that rest(2) by (cases "i = 31") (auto simp: nth_xor_head)
  qed (use that rest(2) bits in \<open>auto simp: nth_xor_head\<close>)
  have tail: "(if bit c 0 \<noteq> b then xor_head generator (xor_head rest bs) else xor_head rest bs) =
      xor_head (register_bits (shift_in b c)) bs"
    unfolding generator_register
    by (rule nth_equalityI) (auto simp: nth_xor_head [where xs = "register_bits w" for w] shift_in_bits shifted split: if_splits)
  show ?thesis using assms unfolding rest(1) by (simp flip: tail)
qed

lemma register_divides:
  "poly_remainder (xor_head (register_bits c) (bs @ replicate 32 False)) = register_bits (fold shift_in bs c)"
proof (induction bs arbitrary: c)
  case Nil
  have "xor_head (register_bits c) (replicate 32 False) = register_bits c" by (rule xor_head_zeros) simp
  moreover obtain x xs where "register_bits c = x # xs" "length xs = 31"
    by (cases "register_bits c") (use register_nth(2) [of c] in auto)
  ultimately show ?case by simp
next
  case (Cons b bs)
  then show ?case using divide_step [of "bs @ replicate 32 False" c b] by simp
qed

subsection \<open>A byte at a time\<close>

lemma crc_bit_xor_even:
  assumes "\<not> bit w 0"
  shows "crc_bit (c XOR w) = crc_bit c XOR drop_bit 1 w"
  by (rule bit_word_eqI) (use assms in \<open>auto simp: bit_crc_bit bit_simps\<close>)

lemma bits_one_by_one:
  "(crc_bit ^^ n) (c XOR v) = fold (\<lambda>i. shift_in (bit v i)) [0..<n] c XOR drop_bit n v"
proof (induction n)
  case (Suc n)
  let ?f = "fold (\<lambda>i. shift_in (bit v i)) [0..<n] c"
  define w where "w = drop_bit n v XOR of_bool (bit v n)"
  have "drop_bit n v = of_bool (bit v n) XOR w" by (simp add: w_def xor.commute [of "drop_bit n v"] flip: xor.assoc)
  moreover have "\<not> bit w 0" by (simp add: w_def bit_simps)
  moreover have "drop_bit 1 w = drop_bit (Suc n) v"
    by (rule bit_word_eqI) (auto simp: w_def bit_simps)
  ultimately have "crc_bit (?f XOR drop_bit n v) = shift_in (bit v n) ?f XOR drop_bit (Suc n) v"
    using crc_bit_xor_even [of w "?f XOR of_bool (bit v n)"] by (simp add: xor.assoc shift_in_def)
  then show ?case using Suc by simp
qed simp

lemma crc_byte_bits: "crc_byte b c = fold shift_in (map (bit b) [0..<8]) c"
proof -
  have "drop_bit 8 (ucast b :: u32) = 0"
    by (rule bit_word_eqI) (auto simp: bit_simps dest: bit_imp_le_length)
  moreover have "fold (\<lambda>i. shift_in (bit (ucast b :: u32) i)) [0..<8] c = fold (\<lambda>i. shift_in (bit b i)) [0..<8] c"
    by (rule fold_cong) (auto simp: bit_simps)
  ultimately show ?thesis
    unfolding crc_byte_def bits_one_by_one by (simp add: fold_map comp_def)
qed

lemma fold_crc_bits: "fold crc_byte data c = fold shift_in (message_bits data) c"
  by (induction data arbitrary: c) (simp_all add: message_bits_def crc_byte_bits)

text \<open>C10 (equivalence): the checksum that the code computes with a shift register, a byte at a time,
  is the cyclic redundancy check of IEEE 802.3: the complemented remainder of the message,
  with 32 zero bits appended and its first 32 bits complemented, divided by the generator
  polynomial.\<close>

theorem crc32_is_polynomial_remainder: "crc32 data = crc_reference data"
  by (simp only: crc32_def crc_reference_def fold_crc_bits register_all [symmetric] register_divides register_horner)

end
