(* ===== verification/Command_Exchange.thy ===== *)
theory Command_Exchange
  imports Component_Properties
begin

text \<open>
  Two components joined by a link that loses nothing: the steps of \<open>espnow_net_protocol.cpp\<close> on
  both sides, composed in the order in which the frames travel.
\<close>

subsection \<open>Two components and a link\<close>

text \<open>The exchange that delivers a command over a link that loses nothing: the sender's frame, its
  completion, the receiver's two steps, the acknowledgement it sends, and the sender's two
  steps on it. \<open>a\<close> knows the receiver as peer \<open>pb\<close>, \<open>b\<close> knows the sender as peer \<open>pa\<close>.\<close>

definition acknowledgement :: "NetComponent \<Rightarrow> bytes option" where
  "acknowledgement b =
     (case fst (take_application_ack (nc_runtime b)) of None \<Rightarrow> None
      | Some pending \<Rightarrow>
          (case ack_encode (pa_payload pending) of None \<Rightarrow> None
           | Some payload \<Rightarrow>
               (case ack_frame (nc_local_boot_id b) (next_sequence (nc_ack_sequence b)) (pa_payload pending) payload of
                  Inl _ \<Rightarrow> None | Inr frame \<Rightarrow> Some frame)))"

definition command_exchange ::
    "'h NetCommandHandler \<Rightarrow> (observer_call \<Rightarrow> component_call list) \<Rightarrow> EspIdf \<Rightarrow> PeerIndex \<Rightarrow> PeerIndex \<Rightarrow> u32 \<Rightarrow>
     NetComponent \<Rightarrow> NetComponent \<Rightarrow> 'h \<Rightarrow> (NetComponent \<times> NetComponent \<times> 'h) option" where
  "command_exchange handler app idf pa pb now a b h =
     (case sender_take_frame (nc_sender a) of (None, _) \<Rightarrow> None
      | (Some (peer, frame), s) \<Rightarrow>
          if peer \<noteq> pb then None else
          (let a1 = a\<lparr>nc_sender := snd (sender_complete_frame True now s)\<rparr>;
               (b1, h1) = process_application_message handler app now
                 (accept_received_frame (received_from pa frame) b) h
           in case acknowledgement b1 of None \<Rightarrow> None
              | Some ack \<Rightarrow>
                  Some (process_owned_sender_completion idf now now (accept_received_frame (received_from pb ack) a1),
                        b1, h1)))"

subsection \<open>One frame at a receiver\<close>

lemma single_frame_held:
  assumes "runtime_inv rt" and "runtime_open rt" and "\<not> rt_assembling rt" and "envelope_ok env"
    and "0 < length m" and "length m \<le> 214"
  obtains r where "runtime_accept (received_from p (frame_of env m 0)) rt =
      runtime_complete (rt\<lparr>rt_reassembler := r, rt_assembling := False, rt_active_peer_index := p\<rparr>)"
    and "holds_fragments env m {i. i < fragment_count (length m)} r" and "reassembler_complete r"
proof -
  note one = one_fragment [OF assms(5,6)]
  have asm: "assembly_ok (rt_assembling rt) (rt_reassembler rt)"
    using assms(1,2) by (simp add: runtime_inv_def runtime_open_def)
  have i: "0 < fragment_count (length m)" using one by blast
  obtain r where r: "runtime_reassemble (received_from p (frame_of env m 0)) rt =
      (True, rt\<lparr>rt_reassembler := r, rt_assembling := False\<rparr>)" and held: "holds_fragments env m {0} r"
    using reassemble_start [OF asm assms(4) i, of p] assms(3) by auto
  have comp: "reassembler_complete r" using complete_iff_all_fragments [OF held] one by simp
  have "runtime_accept (received_from p (frame_of env m 0)) rt =
      runtime_complete (rt\<lparr>rt_reassembler := r, rt_assembling := False, rt_active_peer_index := p\<rparr>)"
    using assms(2) r comp by (simp add: runtime_accept_def runtime_open_def Let_def) (simp add: received_from_def)
  then show ?thesis using that [of r] held comp one by simp
qed

lemma ack_frame_accepted:
  assumes "runtime_inv rt" and "runtime_open rt" and "\<not> rt_assembling rt" and "\<not> rt_delivery_ack_ready rt"
    and "DeliveryIdentity_valid (ack_acknowledged ack)" and "boot \<noteq> 0" and "sequence \<noteq> 0"
    and "ack_encode ack = Some payload" and "ack_frame boot sequence ack payload = Inr frame"
  shows "\<exists>rt'. runtime_accept (received_from p frame) rt = (DELIVERY_ACK_READY, rt') \<and>
    fst (take_delivery_ack rt') = Some ack"
proof -
  let ?env = "EspNowFrameEnvelope_init\<lparr>env_kind := EspNowFrameKind.ACK, env_source_boot_id := boot,
    env_transaction_id := dk_transaction_id (ack_acknowledged ack), env_sequence := sequence\<rparr>"
  have env: "envelope_ok ?env"
    using assms(5-7) by (simp add: envelope_ok_def EspNowFrameEnvelope_init_def DeliveryIdentity_valid_def)
  have len: "length payload = 22" using assms(8) ack_encode_eq [OF assms(5)] by auto
  then have m: "0 < length payload" "length payload \<le> 214" "length payload \<le> 640" by simp_all
  have "0 < fragment_count (length payload)" using one_fragment [OF m(1,2)] by blast
  then have frame: "frame = frame_of ?env payload 0"
    using assms(9) encode_fragment_ok [OF env] by (simp add: ack_frame_def frame_of_def)
  obtain r where acc: "runtime_accept (received_from p frame) rt =
      runtime_complete (rt\<lparr>rt_reassembler := r, rt_assembling := False, rt_active_peer_index := p\<rparr>)"
    and held: "holds_fragments ?env payload {i. i < fragment_count (length payload)} r" and comp: "reassembler_complete r"
    using single_frame_held [OF assms(1-3) env m(1,2)] unfolding frame by metis
  have hdr: "ra_envelope r = ?env" "unat (ra_message_size r) = length payload"
    using held all_fragments_nonempty [OF m(1,3)] m(3) by (auto simp: holds_fragments_def)
  have "complete_span r = Some payload"
    using comp hdr all_fragments_message [OF held m(1,3)]
    by (simp add: complete_span_def complete_data_def complete_size_def)
  moreover have "ack_decode (Some payload) = Some ack" using ack_decode_encode [OF assms(5)] assms(8) by simp
  ultimately show ?thesis
    unfolding acc runtime_complete_def
    using take_all_fragments(1) [OF held m(1,3)] comp hdr assms(4)
    by (simp add: complete_envelope_def accept_delivery_ack_def take_delivery_ack_def Let_def)
qed


lemma message_frame_accepted:
  assumes "runtime_inv rt" and "runtime_open rt" and "\<not> rt_assembling rt"
    and "envelope_ok env" and "env_flags env = FLAG_ACK_REQUIRED" and "env_kind env \<noteq> EspNowFrameKind.ACK"
    and "0 < length m" and "length m \<le> 214" and "\<not> cache_contains (envelope_key env) (rt_duplicates rt)"
  shows "\<exists>rt'. runtime_accept (received_from p (frame_of env m 0)) rt = (APPLICATION_MESSAGE_READY, rt') \<and>
    peek_application_message rt' = Some \<lparr>im_peer_index = p, im_message = \<lparr>rm_envelope = env, rm_data = m\<rparr>\<rparr> \<and>
    rt_application_ack_ready rt' \<and>
    rt_application_ack rt' = \<lparr>pa_peer_index = p,
      pa_payload = \<lparr>ack_acknowledged = envelope_key env, ack_status = ACCEPTED\<rparr>\<rparr>"
proof -
  have m: "length m \<le> 640" using assms(8) by simp
  have flag: "env_flags env AND FLAG_ACK_REQUIRED \<noteq> 0" using assms(5) by simp
  obtain r where acc: "runtime_accept (received_from p (frame_of env m 0)) rt =
      runtime_complete (rt\<lparr>rt_reassembler := r, rt_assembling := False, rt_active_peer_index := p\<rparr>)"
    and held: "holds_fragments env m {i. i < fragment_count (length m)} r"
    using single_frame_held [OF assms(1-4,7,8)] by metis
  define rt1 where "rt1 = rt\<lparr>rt_reassembler := r, rt_assembling := False, rt_active_peer_index := p\<rparr>"
  have held1: "holds_fragments env m {i. i < fragment_count (length m)} (rt_reassembler rt1)" using held by (simp add: rt1_def)
  have col: "collected env m p rt1" using held assms(2) by (simp add: collected_def rt1_def runtime_open_def)
  have fresh: "\<not> cache_contains (envelope_key env) (rt_duplicates rt1)" using assms(9) by (simp add: rt1_def)
  have run: "runtime_accept (received_from p (frame_of env m 0)) rt = accept_application_message env rt1"
    using acc complete_collected [OF held1 assms(7) m assms(6)] by (cases rt) (simp add: rt1_def)
  moreover have "fst (accept_application_message env rt1) = APPLICATION_MESSAGE_READY"
    using fresh flag assms(2,6) unfolding accept_application_message_def Let_def
    by (simp add: rt1_def runtime_open_def)
  ultimately show ?thesis
    using collected_outcome(1) [OF col assms(7) m flag assms(6)] collected_outcome(3) [OF col assms(7) m flag assms(6) fresh]
    by (intro exI [of _ "snd (accept_application_message env rt1)"]) (simp add: prod_eq_iff)
qed

subsection \<open>One command at an idle receiver\<close>

lemma dispatcher_accept_started:
  assumes "cd_state d = InboundCommandDispatcherState.IDLE" and "im_peer_index im \<noteq> INVALID_PEER_INDEX"
    and "env_kind (rm_envelope (im_message im)) = EspNowFrameKind.COMMAND"
    and "env_transaction_id (rm_envelope (im_message im)) \<noteq> 0"
    and "command_decode (env_transaction_id (rm_envelope (im_message im))) (Some (rm_data (im_message im))) = Inr c"
    and "cd_handler d" and "nh_start handler c now h = (STARTED, h')"
  shows "\<exists>seen. dispatcher_accept handler im now d h =
    (True, seen, d\<lparr>cd_peer_index := im_peer_index im,
       cd_transaction_id := env_transaction_id (rm_envelope (im_message im)), cd_started_ms := now,
       cd_command := c, cd_state := ACTIVE\<rparr>, h')"
  using assms by (simp add: dispatcher_accept_def Let_def)

lemma idle_lane_takes_command:
  assumes "peek_application_message (nc_runtime n) = Some im"
    and "im_peer_index im \<noteq> INVALID_PEER_INDEX" and "env_transaction_id (rm_envelope (im_message im)) \<noteq> 0"
    and "env_kind (rm_envelope (im_message im)) = EspNowFrameKind.COMMAND"
    and "command_decode (env_transaction_id (rm_envelope (im_message im))) (Some (rm_data (im_message im))) = Inr c"
    and "cd_state (nc_command_dispatcher n) = InboundCommandDispatcherState.IDLE" and "\<not> nc_interruptible_inbound n"
    and "cd_handler (nc_command_dispatcher n)" and "nh_start handler c now h = (STARTED, h')"
  obtains seen where "process_application_message handler app now n h =
    (on_command_identity seen (n\<lparr>nc_runtime := snd (take_application_message (nc_runtime n)),
       nc_command_dispatcher := (nc_command_dispatcher n)\<lparr>cd_peer_index := im_peer_index im,
         cd_transaction_id := env_transaction_id (rm_envelope (im_message im)), cd_started_ms := now,
         cd_command := c, cd_state := ACTIVE\<rparr>\<rparr>), h')"
proof -
  note im = peek_fields [OF assms(1)]
  obtain rt where take: "take_application_message (nc_runtime n) = (Some im, rt)" using im(6) by (metis prod.collapse)
  obtain seen where acc: "dispatcher_accept handler im now (nc_command_dispatcher n) h =
      (True, seen, (nc_command_dispatcher n)\<lparr>cd_peer_index := im_peer_index im,
         cd_transaction_id := env_transaction_id (rm_envelope (im_message im)), cd_started_ms := now,
         cd_command := c, cd_state := ACTIVE\<rparr>, h')"
    using dispatcher_accept_started [OF assms(6,2,4,3,5,8,9)] by blast
  have "\<not> message_must_wait n" "\<not> only_an_interrupt_fits n"
    using im(2) assms(4,6) by (auto simp: message_must_wait_def only_an_interrupt_fits_def Let_def)
  then show ?thesis
    using that [of seen] im(1) take acc assms(4,7)
    by (simp add: process_application_message_def offer_command_def offer_interrupt_def Let_def)
qed

subsection \<open>The sender's side\<close>

lemma start_command_sender:
  assumes "component_inv a0" and "start_command p c t a0 = (True, a)" and "NetCommand_wf c"
  shows "rs_state (nc_sender a) = READY" "rs_message (nc_sender a) = command_bytes c" "rs_peer_index (nc_sender a) = p"
    "rs_fragment_index (nc_sender a) = 0" "env_kind (rs_envelope (nc_sender a)) = EspNowFrameKind.COMMAND"
    "env_transaction_id (rs_envelope (nc_sender a)) = cmd_transaction_id c"
    "nc_reliable_message_owner a = COMMAND_CLIENT" "nc_runtime a = nc_runtime a0"
    "NetCommand_valid c" "cc_command (client_at (nc_command_sender_slot a) a) = c"
proof -
  have valid: "NetCommand_valid c" using assms(2) by (simp add: start_command_def split: if_splits)
  note enc = command_encode_ok [OF this assms(3)]
  obtain s where s: "sender_start p EspNowFrameKind.COMMAND (cmd_transaction_id c) (Some (command_bytes c)) (nc_sender a0) = (True, s)"
    using assms(2) enc by (auto simp: start_command_def Let_def split: if_splits prod.splits bool.splits)
  then have "rs_state s = READY \<and> rs_message s = command_bytes c \<and> rs_peer_index s = p \<and> rs_fragment_index s = 0 \<and>
      env_kind (rs_envelope s) = EspNowFrameKind.COMMAND \<and> env_transaction_id (rs_envelope s) = cmd_transaction_id c"
    unfolding sender_start_eq [OF component_invD(5) [OF assms(1)]] by (auto split: if_splits)
  then show "rs_state (nc_sender a) = READY" "rs_message (nc_sender a) = command_bytes c" "rs_peer_index (nc_sender a) = p"
    "rs_fragment_index (nc_sender a) = 0" "env_kind (rs_envelope (nc_sender a)) = EspNowFrameKind.COMMAND"
    "env_transaction_id (rs_envelope (nc_sender a)) = cmd_transaction_id c"
    "nc_reliable_message_owner a = COMMAND_CLIENT" "nc_runtime a = nc_runtime a0"
    "NetCommand_valid c" "cc_command (client_at (nc_command_sender_slot a) a) = c"
    using assms(2) enc s valid by (auto simp: start_command_def client_at_def Let_def split: if_splits)
qed

lemma single_frame_sent:
  assumes "sender_inv s" and "rs_state s = READY" and "rs_fragment_index s = 0" and "length (rs_message s) \<le> 214"
  defines "s1 \<equiv> s\<lparr>rs_frame_in_flight := True, rs_state := FRAME_IN_FLIGHT\<rparr>"
  shows "sender_take_frame s = (Some (rs_peer_index s, frame_of (rs_envelope s) (rs_message s) 0), s1)"
    and "rs_state (snd (sender_complete_frame True now s1)) = ReliableSenderState.WAITING_FOR_ACK"
    and "sender_inv (snd (sender_complete_frame True now s1))"
    and "rs_envelope (snd (sender_complete_frame True now s1)) = rs_envelope s"
    and "continues s (snd (sender_complete_frame True now s1))"
proof -
  show take: "sender_take_frame s = (Some (rs_peer_index s, frame_of (rs_envelope s) (rs_message s) 0), s1)"
    using assms(2,3) by (simp add: sender_take_frame_eq [OF assms(1)] s1_def)
  have inv: "sender_inv s1" using sender_take_frame_inv [OF assms(1)] take by simp
  have fl: "rs_frame_in_flight s1" by (simp add: s1_def)
  have "sending s" using assms(1,2) by (simp add: sender_inv_def)
  then have "{i. i < rs_fragment_count s} = {0}"
    using one_fragment [of "length (rs_message s)"] assms(4) by (simp add: sending_def)
  then have "\<not> 1 < rs_fragment_count s" by (metis mem_Collect_eq singletonD zero_neq_one)
  then have "\<not> rs_fragment_index s1 + 1 < rs_fragment_count s1" using assms(3) by (simp add: s1_def)
  then show "rs_state (snd (sender_complete_frame True now s1)) = ReliableSenderState.WAITING_FOR_ACK"
    "rs_envelope (snd (sender_complete_frame True now s1)) = rs_envelope s"
    by (simp_all add: sender_complete_frame_eq [OF inv fl]) (simp add: s1_def)
  show "continues s (snd (sender_complete_frame True now s1))"
    using sender_complete_continues [OF inv, of True now] assms(2) by (simp add: continues_def s1_def)
  show "sender_inv (snd (sender_complete_frame True now s1))" using sender_complete_frame_inv [OF inv] by simp
qed

lemma waiting_sender_acknowledged:
  assumes "sender_inv s" and "rs_state s = ReliableSenderState.WAITING_FOR_ACK"
    and "ack_acknowledged ack = envelope_key (rs_envelope s)" and "ack_status ack = ACCEPTED"
  shows "rs_state (snd (sender_accept_ack ack s)) = ReliableSenderState.ACKNOWLEDGED"
  using assms
  by (simp add: sender_accept_ack_def delivery_accept_ack_def sender_inv_def sending_def envelope_key_def
      DeliveryIdentity_eq_def)

subsection \<open>From one client to the other's handler\<close>

lemma acknowledgement_of:
  assumes "rt_application_ack_ready (nc_runtime b)"
    and "rt_application_ack (nc_runtime b) = \<lparr>pa_peer_index = p, pa_payload = ack\<rparr>"
    and "DeliveryIdentity_valid (ack_acknowledged ack)" and "nc_local_boot_id b \<noteq> 0"
  obtains payload f where "acknowledgement b = Some f" and "ack_encode ack = Some payload"
    and "ack_frame (nc_local_boot_id b) (next_sequence (nc_ack_sequence b)) ack payload = Inr f"
proof -
  have enc: "ack_encode ack \<noteq> None" and len: "\<And>payload. ack_encode ack = Some payload \<Longrightarrow> length payload = 22"
    using ack_encode_eq [OF assms(3)] by auto
  then obtain payload where payload: "ack_encode ack = Some payload" "length payload = 22" by blast
  let ?env = "EspNowFrameEnvelope_init\<lparr>env_kind := EspNowFrameKind.ACK, env_source_boot_id := nc_local_boot_id b,
    env_transaction_id := dk_transaction_id (ack_acknowledged ack), env_sequence := next_sequence (nc_ack_sequence b)\<rparr>"
  have "envelope_ok ?env"
    using assms(3,4) by (simp add: envelope_ok_def EspNowFrameEnvelope_init_def DeliveryIdentity_valid_def)
  moreover have "0 < fragment_count (length payload)" using payload(2) one_fragment [of "length payload"] by auto
  ultimately obtain f where "ack_frame (nc_local_boot_id b) (next_sequence (nc_ack_sequence b)) ack payload = Inr f"
    using encode_fragment_ok [of ?env 0 payload] by (simp add: ack_frame_def)
  with payload that [of f payload] assms(1,2) show ?thesis
    by (simp add: acknowledgement_def take_application_ack_def)
qed

lemma waiting_client_delivered:
  assumes "nc_reliable_message_owner n = COMMAND_CLIENT" and "rs_state (nc_sender n) = ReliableSenderState.ACKNOWLEDGED"
    and "nc_command_sender_slot n = 0 \<or> nc_dual n \<and> nc_command_sender_slot n = 1"
  shows "client_at (nc_command_sender_slot n) (process_owned_sender_completion idf t1 t2 n) =
      (client_at (nc_command_sender_slot n) n)\<lparr>cc_state := CommandClientState.WAITING_FOR_RESULT\<rparr>"
    and "nc_reliable_message_owner (process_owned_sender_completion idf t1 t2 n) = ReliableMessageOwner.NONE"
  using assms by (auto simp: process_owned_sender_completion_def reset_sender_def client_at_def Let_def)

text \<open>The receiver serves the command and acknowledges its frame.\<close>

lemma receiver_serves_command:
  assumes "component_inv b" and "runtime_open (nc_runtime b)" and "\<not> rt_assembling (nc_runtime b)"
    and env: "envelope_ok env" "env_flags env = FLAG_ACK_REQUIRED" "env_kind env = EspNowFrameKind.COMMAND"
      "env_transaction_id env = cmd_transaction_id c"
    and c: "NetCommand_valid c" "NetCommand_wf c" "length (command_bytes c) \<le> 214"
    and "\<not> cache_contains (envelope_key env) (rt_duplicates (nc_runtime b))" and "pa < 16"
    and "nc_local_boot_id b \<noteq> 0" and "cd_state (nc_command_dispatcher b) = InboundCommandDispatcherState.IDLE"
    and "\<not> nc_interruptible_inbound b" and "cd_handler (nc_command_dispatcher b)"
    and "nh_start handler c now h = (STARTED, h')"
  obtains b' f payload where "process_application_message handler app now
      (accept_received_frame (received_from pa (frame_of env (command_bytes c) 0)) b) h = (b', h')"
    and "cd_state (nc_command_dispatcher b') = ACTIVE" and "cd_command (nc_command_dispatcher b') = c"
    and "cd_peer_index (nc_command_dispatcher b') = pa" and "acknowledgement b' = Some f"
    and "ack_encode \<lparr>ack_acknowledged = envelope_key env, ack_status = ACCEPTED\<rparr> = Some payload"
    and "ack_frame (nc_local_boot_id b) (next_sequence (nc_ack_sequence b')) \<lparr>ack_acknowledged = envelope_key env, ack_status = ACCEPTED\<rparr> payload = Inr f"
proof -
  have m: "0 < length (command_bytes c)" by (simp add: command_bytes_def)
  have kind: "env_kind env \<noteq> EspNowFrameKind.ACK" using env(3) by simp
  obtain rt where acc: "runtime_accept (received_from pa (frame_of env (command_bytes c) 0)) (nc_runtime b) =
      (APPLICATION_MESSAGE_READY, rt)"
    and peek: "peek_application_message rt = Some \<lparr>im_peer_index = pa, im_message = \<lparr>rm_envelope = env, rm_data = command_bytes c\<rparr>\<rparr>"
    and ack: "rt_application_ack_ready rt" "rt_application_ack rt = \<lparr>pa_peer_index = pa, pa_payload = \<lparr>ack_acknowledged = envelope_key env, ack_status = ACCEPTED\<rparr>\<rparr>"
    using message_frame_accepted [OF component_invD(2) [OF assms(1)] assms(2,3) env(1,2) kind m c(3) assms(11)] by metis
  define b1 where "b1 = accept_received_frame (received_from pa (frame_of env (command_bytes c) 0)) b"
  have b1: "b1 = b\<lparr>nc_runtime := rt\<rparr>" using acc by (simp add: b1_def accept_received_frame_def)
  have "pa \<noteq> INVALID_PEER_INDEX" using assms(12) by (auto simp: INVALID_PEER_INDEX_def)
  then obtain seen where run: "process_application_message handler app now b1 h =
      (on_command_identity seen (b1\<lparr>nc_runtime := snd (take_application_message rt),
        nc_command_dispatcher := (nc_command_dispatcher b)\<lparr>cd_peer_index := pa,
         cd_transaction_id := cmd_transaction_id c, cd_started_ms := now, cd_command := c, cd_state := ACTIVE\<rparr>\<rparr>), h')"
    using idle_lane_takes_command [of b1 "\<lparr>im_peer_index = pa, im_message = \<lparr>rm_envelope = env, rm_data = command_bytes c\<rparr>\<rparr>"
        c handler now h h' app] peek env assms(14-17) command_decode_encoded [OF c(1,2)]
    by (auto simp: b1 envelope_ok_def)
  define b2 where "b2 = fst (process_application_message handler app now b1 h)"
  have rt2: "nc_runtime b2 = snd (take_application_message rt)" and boot: "nc_local_boot_id b2 = nc_local_boot_id b"
    using run by (simp_all add: b2_def b1)
  have "rt_application_ack_ready (nc_runtime b2)" "rt_application_ack (nc_runtime b2) = \<lparr>pa_peer_index = pa, pa_payload = \<lparr>ack_acknowledged = envelope_key env, ack_status = ACCEPTED\<rparr>\<rparr>"
    using ack rt2 by (simp_all add: take_application_message_def split: option.splits)
  moreover have "DeliveryIdentity_valid (ack_acknowledged \<lparr>ack_acknowledged = envelope_key env, ack_status = ACCEPTED\<rparr>)"
    using env(1) by (simp add: envelope_ok_def envelope_key_def DeliveryIdentity_valid_def)
  moreover have "nc_local_boot_id b2 \<noteq> 0" using boot assms(13) by simp
  ultimately obtain f payload where "acknowledgement b2 = Some f" "ack_encode \<lparr>ack_acknowledged = envelope_key env, ack_status = ACCEPTED\<rparr> = Some payload"
      "ack_frame (nc_local_boot_id b2) (next_sequence (nc_ack_sequence b2)) \<lparr>ack_acknowledged = envelope_key env, ack_status = ACCEPTED\<rparr> payload = Inr f"
    by (rule acknowledgement_of)
  then show ?thesis using that [of b2 f payload] run boot by (simp add: b2_def b1_def [symmetric])
qed

text \<open>The acknowledgement ends the delivery at the sender, whoever owns it.\<close>

lemma acknowledged_sender:
  assumes "component_inv a" and "runtime_open (nc_runtime a)" and "\<not> rt_assembling (nc_runtime a)"
    and "\<not> rt_delivery_ack_ready (nc_runtime a)"
    and "rs_state (nc_sender a) = ReliableSenderState.WAITING_FOR_ACK" and "rs_envelope (nc_sender a) = env"
    and "boot \<noteq> 0" and "sequence \<noteq> 0"
    and "ack_encode \<lparr>ack_acknowledged = envelope_key env, ack_status = ACCEPTED\<rparr> = Some payload" and "ack_frame boot sequence \<lparr>ack_acknowledged = envelope_key env, ack_status = ACCEPTED\<rparr> payload = Inr f"
  obtains rt s where "accept_received_frame (received_from p f) a = a\<lparr>nc_runtime := rt, nc_sender := s\<rparr>"
    and "rs_state s = ReliableSenderState.ACKNOWLEDGED"
proof -
  note inv = component_invD [OF assms(1)]
  have "sending (nc_sender a)" using inv(5) assms(5) by (simp add: sender_inv_def)
  then have key: "DeliveryIdentity_valid (ack_acknowledged \<lparr>ack_acknowledged = envelope_key env, ack_status = ACCEPTED\<rparr>)"
    using assms(6) by (simp add: sending_def envelope_ok_def envelope_key_def DeliveryIdentity_valid_def)
  obtain rt where got: "runtime_accept (received_from p f) (nc_runtime a) = (DELIVERY_ACK_READY, rt)"
    and taken: "fst (take_delivery_ack rt) = Some \<lparr>ack_acknowledged = envelope_key env, ack_status = ACCEPTED\<rparr>"
    using ack_frame_accepted [OF inv(2) assms(2-4) key assms(7-10)] by metis
  show ?thesis
    using that [of "snd (sender_accept_ack \<lparr>ack_acknowledged = envelope_key env, ack_status = ACCEPTED\<rparr> (nc_sender a))" "snd (take_delivery_ack rt)"] got taken
      waiting_sender_acknowledged [OF inv(5) assms(5)] assms(6)
    by (cases "take_delivery_ack rt") (simp add: accept_received_frame_def)
qed

lemma sender_learns_delivery:
  assumes "component_inv a" and "runtime_open (nc_runtime a)" and "\<not> rt_assembling (nc_runtime a)"
    and "\<not> rt_delivery_ack_ready (nc_runtime a)"
    and "rs_state (nc_sender a) = ReliableSenderState.WAITING_FOR_ACK" and "rs_envelope (nc_sender a) = env"
    and "boot \<noteq> 0" and "sequence \<noteq> 0"
    and "ack_encode \<lparr>ack_acknowledged = envelope_key env, ack_status = ACCEPTED\<rparr> = Some payload" and "ack_frame boot sequence \<lparr>ack_acknowledged = envelope_key env, ack_status = ACCEPTED\<rparr> payload = Inr f"
    and "nc_reliable_message_owner a = COMMAND_CLIENT"
    and "a' = process_owned_sender_completion idf t1 t2 (accept_received_frame (received_from p f) a)"
  shows "client_at (nc_command_sender_slot a) a' =
      (client_at (nc_command_sender_slot a) a)\<lparr>cc_state := CommandClientState.WAITING_FOR_RESULT\<rparr> \<and>
    nc_reliable_message_owner a' = ReliableMessageOwner.NONE"
proof -
  obtain rt s where a2: "accept_received_frame (received_from p f) a = a\<lparr>nc_runtime := rt, nc_sender := s\<rparr>"
    and "rs_state s = ReliableSenderState.ACKNOWLEDGED"
    by (rule acknowledged_sender [OF assms(1-10)])
  moreover have "nc_command_sender_slot a = 0 \<or> nc_dual a \<and> nc_command_sender_slot a = 1"
    using assms(1) by (simp add: component_inv_def owners_ok_def)
  ultimately show ?thesis
    using waiting_client_delivered [of "a\<lparr>nc_runtime := rt, nc_sender := s\<rparr>" idf t1 t2] assms(11)
    by (simp add: assms(12) client_at_def)
qed

text \<open>C1 (liveness): a command of one frame that one component has started reaches the handler of
  another. Over a link that loses nothing, when the encoded command has at most 214 bytes,
  the receiver's ordinary dispatcher is idle and has a handler that answers \<open>STARTED\<close>, the
  receiver takes no interrupts and has not seen the message recently, and both sides are set
  up and hold no message, part of one or acknowledgement in its way, a single exchange makes the
  receiver's dispatcher serve exactly the command that was given to \<open>start_command\<close>, and the
  acknowledgement it sends back takes the client that started it from waiting for the
  delivery to waiting for the result and frees the sender. A longer command is not covered:
  its second frame is never sent (theory \<open>Multi_Fragment\<close>).\<close>

theorem command_end_to_end:
  assumes "component_inv a0" and "start_command pb c t a0 = (True, a)" and "component_inv b"
    and "NetCommand_wf c" and "length (command_bytes c) \<le> MAX_FRAGMENT_DATA" and "pa < 16"
    and "runtime_open (nc_runtime a0)" and "\<not> rt_assembling (nc_runtime a0)"
    and "\<not> rt_delivery_ack_ready (nc_runtime a0)"
    and "runtime_open (nc_runtime b)" and "\<not> rt_assembling (nc_runtime b)"
    and "\<not> cache_contains (envelope_key (rs_envelope (nc_sender a))) (rt_duplicates (nc_runtime b))"
    and "nc_local_boot_id b \<noteq> 0" and "cd_state (nc_command_dispatcher b) = InboundCommandDispatcherState.IDLE"
    and "\<not> nc_interruptible_inbound b" and "cd_handler (nc_command_dispatcher b)"
    and "nh_start handler c now h = (STARTED, h')"
  shows "\<exists>a' b'. command_exchange handler app idf pa pb now a b h = Some (a', b', h') \<and>
    client_at (nc_command_sender_slot a) a' =
      (client_at (nc_command_sender_slot a) a)\<lparr>cc_state := CommandClientState.WAITING_FOR_RESULT\<rparr> \<and>
    cc_command (client_at (nc_command_sender_slot a) a') = c \<and>
    nc_reliable_message_owner a' = ReliableMessageOwner.NONE \<and>
    cd_state (nc_command_dispatcher b') = ACTIVE \<and> cd_command (nc_command_dispatcher b') = c \<and>
    cd_peer_index (nc_command_dispatcher b') = pa"
proof -
  note start = start_command_sender [OF assms(1,2,4)]
  have inva: "component_inv a" using start_command_inv [OF assms(1), of pb c t] assms(2) by simp
  have "sending (nc_sender a)" using component_invD(5) [OF inva] start(1) by (simp add: sender_inv_def)
  then have env: "envelope_ok (rs_envelope (nc_sender a))" "env_flags (rs_envelope (nc_sender a)) = FLAG_ACK_REQUIRED"
    by (simp_all add: sending_def)
  have m: "length (command_bytes c) \<le> 214" using assms(5) by simp
  define s where "s = (nc_sender a)\<lparr>rs_frame_in_flight := True, rs_state := FRAME_IN_FLIGHT\<rparr>"
  note sent = single_frame_sent [OF component_invD(5) [OF inva] start(1,4), unfolded start(2,3), OF m, folded s_def]
  define a1 where "a1 = a\<lparr>nc_sender := snd (sender_complete_frame True now s)\<rparr>"
  have inv1: "component_inv a1"
    unfolding a1_def by (rule component_inv_sender [OF inva sent(5,3)])
  obtain b2 f payload where b2: "process_application_message handler app now
      (accept_received_frame (received_from pa (frame_of (rs_envelope (nc_sender a)) (command_bytes c) 0)) b) h = (b2, h')"
    "cd_state (nc_command_dispatcher b2) = ACTIVE" "cd_command (nc_command_dispatcher b2) = c"
    "cd_peer_index (nc_command_dispatcher b2) = pa" "acknowledgement b2 = Some f"
    and ack: "ack_encode \<lparr>ack_acknowledged = envelope_key (rs_envelope (nc_sender a)), ack_status = ACCEPTED\<rparr> = Some payload"
    "ack_frame (nc_local_boot_id b) (next_sequence (nc_ack_sequence b2)) \<lparr>ack_acknowledged = envelope_key (rs_envelope (nc_sender a)), ack_status = ACCEPTED\<rparr> payload = Inr f"
    using receiver_serves_command [OF assms(3,10,11) env start(5,6,9) assms(4) m assms(12,6,13-17)] by metis
  define a2 where "a2 = process_owned_sender_completion idf now now (accept_received_frame (received_from pb f) a1)"
  have "client_at (nc_command_sender_slot a1) a2 =
      (client_at (nc_command_sender_slot a1) a1)\<lparr>cc_state := CommandClientState.WAITING_FOR_RESULT\<rparr> \<and>
    nc_reliable_message_owner a2 = ReliableMessageOwner.NONE"
    by (rule sender_learns_delivery [OF inv1 _ _ _ _ _ assms(13) next_sequence_nonzero ack _ a2_def])
      (use sent(2,4) start(7,8) assms(7-9) in \<open>simp_all add: a1_def\<close>)
  moreover have "client_at i a1 = client_at i a" "nc_command_sender_slot a1 = nc_command_sender_slot a" for i
    by (simp_all add: a1_def client_at_def)
  moreover have "command_exchange handler app idf pa pb now a b h = Some (a2, b2, h')"
    using sent(1) b2(1,5) by (simp add: command_exchange_def a2_def a1_def Let_def)
  ultimately show ?thesis using b2(2-4) start(10) by simp
qed

definition example_command :: NetCommand where
  "example_command = cc_command example_client"

definition example_device :: "u32 \<Rightarrow> NetComponent" where
  "example_device seed = component_setup seed 2 (set_command_handler True (component_init False False False))"

lemma boot_id_nonzero [simp]: "boot_id_from high low \<noteq> 0"
  by (simp add: boot_id_from_def Let_def)

lemma example_device_inv: "component_inv (example_device seed)"
proof -
  have "component_inv (apply_call CRegisterHandler (component_init False False False))"
    by (rule apply_call_inv [OF component_init_inv])
  then show ?thesis by (simp add: example_device_def setup_inv)
qed

lemma example_device_fields [simp]:
  "nc_local_boot_id (example_device seed) = boot_id_from seed 2"
  "nc_runtime (example_device seed) = (runtime_init 0)\<lparr>rt_local_boot_id := boot_id_from seed 2\<rparr>"
  "nc_sender (example_device seed) = sender_init\<lparr>rs_local_boot_id := boot_id_from seed 2\<rparr>"
  "nc_command_dispatcher (example_device seed) = set_handler True dispatcher_init"
  "nc_interruptible_inbound (example_device seed) = False" "nc_runtime_enabled (example_device seed) = True"
  "nc_reliable_message_owner (example_device seed) = ReliableMessageOwner.NONE"
  "nc_client (example_device seed) = client_init" "nc_dual (example_device seed) = False"
  "nc_notification_ready (example_device seed) = False"
  by (simp_all add: example_device_def component_setup_def configure_protocol_def set_command_handler_def
      component_init_def runtime_configure_def runtime_init_def sender_configure_def sender_init_def
      delivery_configure_def delivery_init_def EspNowRetryPolicy_init_def EspNowRetryPolicy_valid_def)

lemma example_command_ok:
  "NetCommand_valid example_command" "NetCommand_wf example_command" "length (command_bytes example_command) = 12"
  by (simp_all add: example_command_def example_client_def NetCommand_valid_def NetCommand_wf_def text_ok_def
      command_bytes_def)

lemma example_start: "fst (start_command 5 example_command 50 (example_device 1))"
proof -
  have "sender_start 5 EspNowFrameKind.COMMAND (cmd_transaction_id example_command)
      (Some (command_bytes example_command)) (nc_sender (example_device 1)) \<noteq> (False, s)" for s
    unfolding sender_start_eq [OF component_invD(5) [OF example_device_inv]]
    using example_command_ok by (cases "command_bytes example_command")
      (simp_all add: start_refused_def sender_init_def INVALID_PEER_INDEX_def NetCommand_valid_def)
  then have "\<exists>s. sender_start 5 EspNowFrameKind.COMMAND (cmd_transaction_id example_command)
      (Some (command_bytes example_command)) (nc_sender (example_device 1)) = (True, s)" by (metis (full_types) prod.collapse)
  then show ?thesis
    using command_encode_ok example_command_ok
    by (auto simp: start_command_def can_start_command_def sender_init_def client_init_def INVALID_PEER_INDEX_def
        Let_def split: prod.split bool.split)
qed

lemma command_end_to_end_witness:
  "\<exists>a' b'. command_exchange silent_handler (\<lambda>_. []) example_idf 3 5 60
      (snd (start_command 5 example_command 50 (example_device 1))) (example_device 2) () = Some (a', b', ()) \<and>
    cd_command (nc_command_dispatcher b') = example_command"
proof -
  let ?a = "snd (start_command 5 example_command 50 (example_device 1))"
  have start: "start_command 5 example_command 50 (example_device 1) = (True, ?a)"
    using example_start by (simp add: prod_eq_iff)
  show ?thesis
    using command_end_to_end [OF example_device_inv start example_device_inv [of 2] example_command_ok(2), of 3
        silent_handler 60 "()" "()" "\<lambda>_. []" example_idf] example_command_ok(3)
    by (auto simp: runtime_open_def runtime_init_def cache_contains_def cache_init_def set_handler_def dispatcher_init_def
        silent_handler_def)
qed

end
