(* ===== verification/Result_Exchange.thy ===== *)
theory Result_Exchange
  imports Command_Exchange
begin

text \<open>
  The way back: the answer of a dispatcher travels to the client that waits for it, over the
  same link as in \<open>Command_Exchange\<close>, and the acknowledgement returns to the dispatcher's side.
\<close>

definition result_exchange ::
    "'h NetCommandHandler \<Rightarrow> (observer_call \<Rightarrow> component_call list) \<Rightarrow> EspIdf \<Rightarrow> PeerIndex \<Rightarrow> PeerIndex \<Rightarrow> u32 \<Rightarrow>
     NetComponent \<Rightarrow> NetComponent \<Rightarrow> 'h \<Rightarrow> (NetComponent \<times> NetComponent \<times> 'h) option" where
  "result_exchange handler app idf pa pb now a b h =
     (let b1 = process_dispatcher b in
      case sender_take_frame (nc_sender b1) of (None, _) \<Rightarrow> None
      | (Some (peer, frame), s) \<Rightarrow>
          if peer \<noteq> pa then None else
          (let b2 = b1\<lparr>nc_sender := snd (sender_complete_frame True now s)\<rparr>;
               (a1, h1) = process_application_message handler app now
                 (accept_received_frame (received_from pb frame) a) h
           in case acknowledgement a1 of None \<Rightarrow> None
              | Some ack \<Rightarrow>
                  Some (a1, process_owned_sender_completion idf now now (accept_received_frame (received_from pa ack) b2),
                        h1)))"

subsection \<open>The dispatcher's side\<close>

lemma set_lane_keeps [simp]:
  "nc_sender (set_lane_dispatcher l d n) = nc_sender n" "nc_runtime (set_lane_dispatcher l d n) = nc_runtime n"
  "nc_local_boot_id (set_lane_dispatcher l d n) = nc_local_boot_id n"
  "nc_reliable_message_owner (set_lane_dispatcher l d n) = nc_reliable_message_owner n"
  "nc_result_delivery_success_count (set_lane_dispatcher l d n) = nc_result_delivery_success_count n"
  by (cases l; simp)+

lemma lane_invariant: "component_inv n \<Longrightarrow> dispatcher_inv (lane_dispatcher l n)"
  using component_invD(6-8) by (cases l) (auto simp: lane_ok_def)

lemma result_leaves_dispatcher:
  assumes "component_inv b" and "nc_reliable_message_owner b = ReliableMessageOwner.NONE"
    and "rs_local_boot_id (nc_sender b) \<noteq> 0"
    and "dispatcher_take_result (lane_dispatcher (served_lane b) b) = (Some p, d)"
    and "b1 = process_dispatcher b"
  shows "rs_state (nc_sender b1) = READY" "rs_message (nc_sender b1) = pn_payload p"
    "rs_peer_index (nc_sender b1) = pn_peer_index p" "rs_fragment_index (nc_sender b1) = 0"
    "env_kind (rs_envelope (nc_sender b1)) = EspNowFrameKind.RESULT"
    "env_transaction_id (rs_envelope (nc_sender b1)) = pn_transaction_id p"
    "nc_reliable_message_owner b1 = DISPATCHER_RESULT" "nc_runtime b1 = nc_runtime b"
    "nc_local_boot_id b1 = nc_local_boot_id b"
    "nc_result_delivery_success_count b1 = nc_result_delivery_success_count b"
    "\<exists>r. sendable (pn_transaction_id p) r \<and> pn_payload p = result_bytes r"
proof -
  let ?d = "lane_dispatcher (served_lane b) b"
  have st: "cd_state ?d = RESULT_READY" "p = cd_pending ?d"
    using assms(4) by (auto simp: dispatcher_take_result_def dispatcher_has_result_def Let_def split: if_splits)
  then have p: "pn_peer_index p \<noteq> INVALID_PEER_INDEX" "pn_transaction_id p \<noteq> 0" "pending_answers p"
    using lane_invariant [OF assms(1), of "served_lane b"] by (auto simp: dispatcher_inv_def)
  show r: "\<exists>r. sendable (pn_transaction_id p) r \<and> pn_payload p = result_bytes r"
    using p(3) by (auto simp: pending_answers_def)
  then obtain r where "sendable (pn_transaction_id p) r" "pn_payload p = result_bytes r" by blast
  then have "length (pn_payload p) = result_total r" "result_total r \<le> 640"
    by (auto simp: sendable_def result_encode_ok(2))
  moreover have "20 \<le> result_total r" by (simp add: result_total_def)
  ultimately have len: "pn_payload p \<noteq> []" "length (pn_payload p) \<le> 640" by auto
  have idle: "rs_state (nc_sender b) = ReliableSenderState.IDLE"
    using assms(1,2) by (simp add: component_inv_def owners_ok_def)
  then obtain s where s: "sender_start (pn_peer_index p) EspNowFrameKind.RESULT (pn_transaction_id p)
      (Some (pn_payload p)) (nc_sender b) = (True, s)"
    and fields: "rs_state s = READY" "rs_message s = pn_payload p" "rs_peer_index s = pn_peer_index p"
      "rs_fragment_index s = 0" "env_kind (rs_envelope s) = EspNowFrameKind.RESULT"
      "env_transaction_id (rs_envelope s) = pn_transaction_id p"
    using sender_start_eq [OF component_invD(5) [OF assms(1)], of "pn_peer_index p" EspNowFrameKind.RESULT
        "pn_transaction_id p" "Some (pn_payload p)"] p(1,2) len assms(3)
    by (simp add: start_refused_def)
  have "b1 = (set_lane_dispatcher (served_lane b) d b)\<lparr>nc_sender := s, nc_reliable_message_owner := DISPATCHER_RESULT\<rparr>"
    using assms(2,4,5) idle s by (simp add: process_dispatcher_def Let_def)
  with fields show "rs_state (nc_sender b1) = READY" "rs_message (nc_sender b1) = pn_payload p"
    "rs_peer_index (nc_sender b1) = pn_peer_index p" "rs_fragment_index (nc_sender b1) = 0"
    "env_kind (rs_envelope (nc_sender b1)) = EspNowFrameKind.RESULT"
    "env_transaction_id (rs_envelope (nc_sender b1)) = pn_transaction_id p"
    "nc_reliable_message_owner b1 = DISPATCHER_RESULT" "nc_runtime b1 = nc_runtime b"
    "nc_local_boot_id b1 = nc_local_boot_id b"
    "nc_result_delivery_success_count b1 = nc_result_delivery_success_count b"
    by simp_all
qed

subsection \<open>The client's side\<close>

lemma client_matches:
  assumes "peek_application_message (nc_runtime n) = Some im"
    and "env_kind (rm_envelope (im_message im)) = EspNowFrameKind.RESULT"
    and "cc_state (nc_client n) = CommandClientState.WAITING_FOR_RESULT" and "cc_peer (nc_client n) = im_peer_index im"
    and "cmd_transaction_id (cc_command (nc_client n)) = env_transaction_id (rm_envelope (im_message im))"
  shows "matching_command_client n = Some 0"
  using peek_fields(2-4) [OF assms(1)] assms(2-5) by (simp add: matching_command_client_def Let_def)

lemma client_receives_result:
  assumes "component_inv a" and "runtime_open (nc_runtime a)" and "\<not> rt_assembling (nc_runtime a)"
    and env: "envelope_ok env" "env_flags env = FLAG_ACK_REQUIRED" "env_kind env = EspNowFrameKind.RESULT"
    and r: "sendable (env_transaction_id env) r" "length (result_bytes r) \<le> 214"
    and "\<not> cache_contains (envelope_key env) (rt_duplicates (nc_runtime a))" and "nc_local_boot_id a \<noteq> 0"
    and "cc_state (nc_client a) = CommandClientState.WAITING_FOR_RESULT" and "cc_peer (nc_client a) = pb"
    and "cmd_transaction_id (cc_command (nc_client a)) = env_transaction_id env"
    and "\<not> nc_notification_ready a" and "Some x \<in> set (nc_command_result_observers a)"
  obtains a' f payload where "process_application_message handler app now
      (accept_received_frame (received_from pb (frame_of env (result_bytes r) 0)) a) h = (a', h)"
    and "nc_notification_ready a'" and "nc_notification_peer a' = pb"
    and "nc_notification a' = result_carried (now - cc_started_ms (nc_client a)) r"
    and "if res_status r = IN_PROGRESS then nc_client a' = nc_client a
      else cc_state (nc_client a') = CommandClientState.IDLE"
    and "acknowledgement a' = Some f"
    and "ack_encode \<lparr>ack_acknowledged = envelope_key env, ack_status = ACCEPTED\<rparr> = Some payload"
    and "ack_frame (nc_local_boot_id a) (next_sequence (nc_ack_sequence a')) \<lparr>ack_acknowledged = envelope_key env, ack_status = ACCEPTED\<rparr> payload = Inr f"
proof -
  have total: "length (result_bytes r) = result_total r" using r(1) by (simp add: sendable_def result_encode_ok(2))
  then have m: "0 < length (result_bytes r)" by (simp add: result_total_def)
  have kind: "env_kind env \<noteq> EspNowFrameKind.ACK" using env(3) by simp
  let ?im = "\<lparr>im_peer_index = pb, im_message = \<lparr>rm_envelope = env, rm_data = result_bytes r\<rparr>\<rparr>"
  obtain rt where acc: "runtime_accept (received_from pb (frame_of env (result_bytes r) 0)) (nc_runtime a) =
      (APPLICATION_MESSAGE_READY, rt)"
    and peek: "peek_application_message rt = Some ?im"
    and ack: "rt_application_ack_ready rt" "rt_application_ack rt = \<lparr>pa_peer_index = pb, pa_payload = \<lparr>ack_acknowledged = envelope_key env, ack_status = ACCEPTED\<rparr>\<rparr>"
    using message_frame_accepted [OF component_invD(2) [OF assms(1)] assms(2,3) env(1,2) kind m r(2) assms(9)] by metis
  define a1 where "a1 = a\<lparr>nc_runtime := rt\<rparr>"
  have a1: "accept_received_frame (received_from pb (frame_of env (result_bytes r) 0)) a = a1"
    using acc by (simp add: a1_def accept_received_frame_def)
  have match: "matching_command_client a1 = Some 0"
    using client_matches [of a1 ?im] peek env(3) assms(11-13) by (simp add: a1_def)
  have decode: "result_decode (env_transaction_id env) (Some (result_bytes r)) l = Inr (result_carried l r)" for l
    using result_decode_encoded [of r l] r(1) by (simp add: sendable_def)
  obtain a' h' where run: "process_application_message handler app now a1 h = (a', h')" by fastforce
  note got = waiting_client_gets_result [OF _ match _ _ _ run, of ?im x]
  have zero: "client_at 0 n = nc_client n" for n by (simp add: client_at_def)
  have facts: "nc_runtime a' = snd (take_application_message rt)" "nc_local_boot_id a' = nc_local_boot_id a" "h' = h"
    "nc_notification_ready a'" "nc_notification_peer a' = pb"
    "nc_notification a' = result_carried (now - cc_started_ms (nc_client a)) r"
    "if res_status r = IN_PROGRESS then nc_client a' = nc_client a else cc_state (nc_client a') = CommandClientState.IDLE"
    using got peek assms(14,15) by (auto simp: a1_def zero decode result_carried_def)
  have "rt_application_ack_ready (nc_runtime a')" "rt_application_ack (nc_runtime a') = \<lparr>pa_peer_index = pb, pa_payload = \<lparr>ack_acknowledged = envelope_key env, ack_status = ACCEPTED\<rparr>\<rparr>"
    using ack facts(1) by (simp_all add: take_application_message_def split: option.splits)
  moreover have "DeliveryIdentity_valid (ack_acknowledged \<lparr>ack_acknowledged = envelope_key env, ack_status = ACCEPTED\<rparr>)"
    using env(1) by (simp add: envelope_ok_def envelope_key_def DeliveryIdentity_valid_def)
  moreover have "nc_local_boot_id a' \<noteq> 0" using facts(2) assms(10) by simp
  ultimately obtain f payload where "acknowledgement a' = Some f" "ack_encode \<lparr>ack_acknowledged = envelope_key env, ack_status = ACCEPTED\<rparr> = Some payload"
      "ack_frame (nc_local_boot_id a') (next_sequence (nc_ack_sequence a')) \<lparr>ack_acknowledged = envelope_key env, ack_status = ACCEPTED\<rparr> payload = Inr f"
    by (rule acknowledgement_of)
  then show ?thesis using that [of a' f payload] run facts a1 by simp
qed

lemma delivered_result_counted:
  assumes "nc_reliable_message_owner n = DISPATCHER_RESULT" and "rs_state (nc_sender n) = ReliableSenderState.ACKNOWLEDGED"
  shows "nc_reliable_message_owner (process_owned_sender_completion idf t1 t2 n) = ReliableMessageOwner.NONE"
    and "nc_result_delivery_success_count (process_owned_sender_completion idf t1 t2 n) =
      nc_result_delivery_success_count n + 1"
  using assms by (simp_all add: process_owned_sender_completion_def reset_sender_def Let_def)

text \<open>C2 (liveness): an answer of one frame reaches the client that waits for it. Over a link that
  loses nothing, when the encoded answer of the dispatcher has at most 214 bytes, the
  answering side's sender is free, both sides are set up and hold no message or
  acknowledgement in its way, the client's side has not seen the message recently, the first client waits for this
  transaction from this peer, its notification slot is free and an observer is registered, a
  single exchange queues for the observers the result that the handler reported, with the
  client's own latency in place of the reported one; it frees the client if the result is
  terminal and leaves it waiting if it is progress; and the acknowledgement returns the sender
  of the dispatcher's side and counts the delivery. A longer answer is not covered: its
  second frame is never sent.\<close>

theorem result_end_to_end:
  assumes "component_inv a" and "component_inv b" and "nc_reliable_message_owner b = ReliableMessageOwner.NONE"
    and "dispatcher_take_result (lane_dispatcher (served_lane b) b) = (Some p, d)" and "pn_peer_index p = pa"
    and "length (pn_payload p) \<le> MAX_FRAGMENT_DATA" and "rs_local_boot_id (nc_sender b) \<noteq> 0" and "nc_local_boot_id a \<noteq> 0"
    and "runtime_open (nc_runtime a)" and "\<not> rt_assembling (nc_runtime a)"
    and "\<not> cache_contains (envelope_key (rs_envelope (nc_sender (process_dispatcher b)))) (rt_duplicates (nc_runtime a))"
    and "runtime_open (nc_runtime b)" and "\<not> rt_assembling (nc_runtime b)" and "\<not> rt_delivery_ack_ready (nc_runtime b)"
    and "cc_state (nc_client a) = CommandClientState.WAITING_FOR_RESULT" and "cc_peer (nc_client a) = pb"
    and "cmd_transaction_id (cc_command (nc_client a)) = pn_transaction_id p"
    and "\<not> nc_notification_ready a" and "Some x \<in> set (nc_command_result_observers a)"
  shows "\<exists>a' b' r. result_exchange handler app idf pa pb now a b h = Some (a', b', h) \<and>
    sendable (pn_transaction_id p) r \<and> pn_payload p = result_bytes r \<and>
    nc_notification_ready a' \<and> nc_notification_peer a' = pb \<and>
    nc_notification a' = result_carried (now - cc_started_ms (nc_client a)) r \<and>
    (if res_status r = IN_PROGRESS then nc_client a' = nc_client a
     else cc_state (nc_client a') = CommandClientState.IDLE) \<and>
    nc_reliable_message_owner b' = ReliableMessageOwner.NONE \<and>
    nc_result_delivery_success_count b' = nc_result_delivery_success_count b + 1"
proof -
  define b1 where "b1 = process_dispatcher b"
  note left = result_leaves_dispatcher [OF assms(2,3,7,4) b1_def]
  have inv1: "component_inv b1" using process_dispatcher_inv [OF assms(2)] by (simp add: b1_def)
  obtain r where r: "sendable (pn_transaction_id p) r" "pn_payload p = result_bytes r" using left(11) by blast
  have "sending (nc_sender b1)" using component_invD(5) [OF inv1] left(1) by (simp add: sender_inv_def)
  then have env: "envelope_ok (rs_envelope (nc_sender b1))" "env_flags (rs_envelope (nc_sender b1)) = FLAG_ACK_REQUIRED"
    by (simp_all add: sending_def)
  have m: "length (result_bytes r) \<le> 214" using assms(6) r(2) by simp
  define s where "s = (nc_sender b1)\<lparr>rs_frame_in_flight := True, rs_state := FRAME_IN_FLIGHT\<rparr>"
  note sent = single_frame_sent [OF component_invD(5) [OF inv1] left(1,4), unfolded left(2,3) r(2) assms(5), OF m, folded s_def]
  define b2 where "b2 = b1\<lparr>nc_sender := snd (sender_complete_frame True now s)\<rparr>"
  have inv2: "component_inv b2" unfolding b2_def by (rule component_inv_sender [OF inv1 sent(5,3)])
  have r1: "sendable (env_transaction_id (rs_envelope (nc_sender b1))) r"
    and tx: "cmd_transaction_id (cc_command (nc_client a)) = env_transaction_id (rs_envelope (nc_sender b1))"
    using r(1) assms(17) left(6) by simp_all
  obtain a' f payload where a': "process_application_message handler app now
      (accept_received_frame (received_from pb (frame_of (rs_envelope (nc_sender b1)) (result_bytes r) 0)) a) h = (a', h)"
    "nc_notification_ready a'" "nc_notification_peer a' = pb"
    "nc_notification a' = result_carried (now - cc_started_ms (nc_client a)) r"
    "if res_status r = IN_PROGRESS then nc_client a' = nc_client a else cc_state (nc_client a') = CommandClientState.IDLE"
    "acknowledgement a' = Some f"
    and ack: "ack_encode \<lparr>ack_acknowledged = envelope_key (rs_envelope (nc_sender b1)), ack_status = ACCEPTED\<rparr> = Some payload"
      "ack_frame (nc_local_boot_id a) (next_sequence (nc_ack_sequence a')) \<lparr>ack_acknowledged = envelope_key (rs_envelope (nc_sender b1)), ack_status = ACCEPTED\<rparr> payload = Inr f"
    by (rule client_receives_result [where handler = handler and app = app and now = now and h = h,
          OF assms(1,9,10) env left(5) r1 m assms(11) [folded b1_def] assms(8,15,16) tx assms(18,19)])
  obtain rt s2 where b3: "accept_received_frame (received_from pa f) b2 = b2\<lparr>nc_runtime := rt, nc_sender := s2\<rparr>"
    and acked: "rs_state s2 = ReliableSenderState.ACKNOWLEDGED"
    by (rule acknowledged_sender [OF inv2 _ _ _ _ _ assms(8) next_sequence_nonzero ack])
      (use sent(2,4) left(8) assms(12-14) in \<open>simp_all add: b2_def\<close>)
  define b' where "b' = process_owned_sender_completion idf now now (b2\<lparr>nc_runtime := rt, nc_sender := s2\<rparr>)"
  have "nc_reliable_message_owner b' = ReliableMessageOwner.NONE"
    "nc_result_delivery_success_count b' = nc_result_delivery_success_count b + 1"
    using delivered_result_counted [of "b2\<lparr>nc_runtime := rt, nc_sender := s2\<rparr>" idf now now] acked left(7,10)
    by (simp_all add: b'_def b2_def)
  moreover have "result_exchange handler app idf pa pb now a b h = Some (a', b', h)"
    using sent(1) a'(1,6) b3 by (simp add: result_exchange_def b'_def b2_def Let_def flip: b1_def)
  ultimately show ?thesis using a'(2-5) r by blast
qed

text \<open>A dispatcher that is about to report progress to the client of \<open>example_client\<close>.\<close>

definition example_answering :: NetComponent where
  "example_answering =
     (example_device 2)\<lparr>nc_command_dispatcher := staged example_progress
        (example_active\<lparr>cd_peer_index := 3, cd_transaction_id := 9, cd_command := example_command\<rparr>)\<rparr>"

definition example_waiting :: NetComponent where
  "example_waiting = (example_device 1)\<lparr>nc_client := example_client, nc_command_result_observers := [Some 0, None]\<rparr>"

lemma example_answering_inv: "component_inv example_answering"
proof -
  have "lane_ok (staged example_progress (example_active\<lparr>cd_peer_index := 3, cd_transaction_id := 9, cd_command := example_command\<rparr>))"
    using example_command_ok(1) example_progress_ok(1)
    by (auto simp: lane_ok_def dispatcher_inv_def staged_def serves_command_def pending_answers_def example_active_def
        INVALID_PEER_INDEX_def example_command_def example_client_def)
  then show ?thesis
    unfolding example_answering_def by (rule component_inv_parts(3) [OF example_device_inv])
qed

lemma example_waiting_inv: "component_inv example_waiting"
  using example_device_inv [of 1] example_command_ok(1)
  by (auto simp: component_inv_def example_waiting_def parts_ok_def owner_defs clients_ok_def client_ok_def
      example_client_def example_command_def INVALID_PEER_INDEX_def sender_init_def)

lemma result_end_to_end_witness:
  "\<exists>a' b' r. result_exchange silent_handler (\<lambda>_. []) example_idf 3 5 1040 example_waiting example_answering () =
      Some (a', b', ()) \<and> nc_notification a' = result_carried 40 r \<and> result_bytes r = result_bytes example_progress"
proof -
  let ?d = "staged example_progress (example_active\<lparr>cd_peer_index := 3, cd_transaction_id := 9, cd_command := example_command\<rparr>)"
  have lane: "lane_dispatcher (served_lane example_answering) example_answering = ?d"
    by (simp add: served_lane_def example_answering_def dispatcher_has_result_def staged_def)
  obtain p d where take: "dispatcher_take_result ?d = (Some p, d)"
    and p: "pn_peer_index p = 3" "pn_transaction_id p = 9" "pn_payload p = result_bytes example_progress"
    by (auto simp: dispatcher_take_result_def dispatcher_has_result_def staged_def example_active_def Let_def)
  have c: "cc_state example_client = CommandClientState.WAITING_FOR_RESULT" "cc_peer example_client = 5"
    "cmd_transaction_id (cc_command example_client) = 9" "cc_started_ms example_client = 1000"
    by (simp_all add: example_client_def)
  show ?thesis
    using result_end_to_end [OF example_waiting_inv example_answering_inv, of p d 3 5 0 silent_handler "\<lambda>_. []" example_idf 1040 "()"]
      take lane p c example_progress_ok(2)
    by (auto simp: example_answering_def example_waiting_def runtime_open_def runtime_init_def cache_contains_def
        cache_init_def sender_init_def)
qed

end
