(* ===== verification/Component_Deadline.thy ===== *)
theory Component_Deadline
  imports Component_Properties
begin

text \<open>
  The deadline of a command over a whole pass of the component's loop: a client whose result
  is overdue is free when the pass ends, unless an observer starts another command.
\<close>

subsection \<open>Who changes the clients\<close>

definition clients :: "NetComponent \<Rightarrow> bool \<times> CommandClient \<times> CommandClient" where
  "clients n = (nc_dual n, nc_client n, nc_client_2 n)"

lemma client_at_clients: "clients n = clients m \<Longrightarrow> client_at slot n = client_at slot m"
  by (simp add: clients_def client_at_def)

lemma clients_update [simp]:
  "clients (n\<lparr>nc_radio := r\<rparr>) = clients n" "clients (n\<lparr>nc_runtime := rt\<rparr>) = clients n"
  "clients (n\<lparr>nc_sender := s\<rparr>) = clients n" "clients (n\<lparr>nc_heartbeat := hb\<rparr>) = clients n"
  "clients (n\<lparr>nc_recovery := w\<rparr>) = clients n" "clients (n\<lparr>nc_calls := cs\<rparr>) = clients n"
  "clients (n\<lparr>nc_notification := q\<rparr>) = clients n" "clients (n\<lparr>nc_notification_peer := i\<rparr>) = clients n"
  "clients (n\<lparr>nc_notification_ready := b\<rparr>) = clients n" "clients (n\<lparr>nc_result_message := im\<rparr>) = clients n"
  "clients (n\<lparr>nc_command_dispatcher := d\<rparr>) = clients n" "clients (n\<lparr>nc_parallel_dispatcher := d\<rparr>) = clients n"
  "clients (n\<lparr>nc_interrupt_dispatcher := d\<rparr>) = clients n"
  "clients (n\<lparr>nc_radio_transmission_owner := w1\<rparr>) = clients n" "clients (n\<lparr>nc_radio_transmission_peer := i\<rparr>) = clients n"
  "clients (n\<lparr>nc_reliable_message_owner := x\<rparr>) = clients n" "clients (n\<lparr>nc_ack_sequence := k\<rparr>) = clients n"
  "clients (n\<lparr>nc_result_delivery_failure_count := k\<rparr>) = clients n"
  "clients (n\<lparr>nc_result_delivery_success_count := k\<rparr>) = clients n"
  "clients (n\<lparr>nc_background_result_success_count := k\<rparr>) = clients n"
  "clients (n\<lparr>nc_background_result_failure_count := k\<rparr>) = clients n"
  "clients (n\<lparr>nc_background_result_succeeded := b\<rparr>) = clients n"
  "clients (n\<lparr>nc_background_result_completion_ready := b\<rparr>) = clients n"
  "clients (n\<lparr>nc_last_terminal_peer := i\<rparr>) = clients n" "clients (n\<lparr>nc_last_terminal_transaction_id := t\<rparr>) = clients n"
  "clients (n\<lparr>nc_command_client_progress_count := k\<rparr>) = clients n"
  "clients (n\<lparr>nc_command_client_success_count := k\<rparr>) = clients n"
  "clients (n\<lparr>nc_command_client_failure_count := k\<rparr>) = clients n"
  "clients (n\<lparr>nc_command_client_cancel_count := k\<rparr>) = clients n" "clients (n\<lparr>nc_runtime_enabled := b\<rparr>) = clients n"
  by (simp_all add: clients_def)

lemma clients_supervision [simp]: "clients (loop_supervision li n) = clients n"
  by (simp add: loop_supervision_def component_heartbeat_tick_def Let_def)

text \<open>The only change of the clients in a pass, apart from the end of a delivery.\<close>

definition cleared :: "CommandClient \<Rightarrow> CommandClient" where
  "cleared c = c\<lparr>cc_command := NetCommand_init, cc_peer := INVALID_PEER_INDEX, cc_started_ms := 0,
     cc_state := CommandClientState.IDLE\<rparr>"

fun clear_in :: "u8 \<Rightarrow> bool \<times> CommandClient \<times> CommandClient \<Rightarrow> bool \<times> CommandClient \<times> CommandClient" where
  "clear_in k (dual, c, c2) = (dual, if k = 0 then cleared c else c, if k \<noteq> 0 \<and> dual then cleared c2 else c2)"

fun client_in :: "u8 \<Rightarrow> bool \<times> CommandClient \<times> CommandClient \<Rightarrow> CommandClient" where
  "client_in slot (dual, c, c2) = (if dual \<and> slot = 1 then c2 else c)"

lemma client_at_in: "client_at slot n = client_in slot (clients n)"
  by (simp add: client_at_def clients_def)

lemma cleared_idle [simp]: "cc_state (cleared c) = CommandClientState.IDLE"
  by (simp add: cleared_def)

lemma cleared_again [simp]: "cleared (cleared c) = cleared c"
  by (simp add: cleared_def)

lemma client_in_cleared: "client_in slot (clear_in k x) = client_in slot x \<or> client_in slot (clear_in k x) = cleared (client_in slot x)"
  by (cases x) auto

lemma client_in_clear_own: "slot = 0 \<or> fst x \<and> slot = 1 \<Longrightarrow> client_in slot (clear_in slot x) = cleared (client_in slot x)"
  by (cases x) auto

text \<open>What the calls and messages of a pass may do to the clients: end some of them.\<close>

definition ended :: "bool \<times> CommandClient \<times> CommandClient \<Rightarrow> bool \<times> CommandClient \<times> CommandClient \<Rightarrow> bool" where
  "ended x y \<longleftrightarrow>
     fst y = fst x \<and> (\<forall>slot. client_in slot y = client_in slot x \<or> client_in slot y = cleared (client_in slot x))"

lemma ended_refl [simp]: "ended x x"
  by (simp add: ended_def)

lemma ended_trans: "ended x y \<Longrightarrow> ended y z \<Longrightarrow> ended x z"
  unfolding ended_def by (metis cleared_again)

lemma ended_clear [simp]: "ended x (clear_in k x)"
  using client_in_cleared by (cases x) (simp add: ended_def)

lemma clients_clear [simp]: "clients (clear_command_client k n) = clear_in k (clients n)"
  by (simp add: clients_def clear_command_client_def cleared_def Let_def)

lemma clients_queue [simp]: "clients (queue_command_result_notification p r n) = clients n"
  by (simp add: queue_command_result_notification_def clients_def)

lemma clients_finish [simp]: "clients (finish_command_client r k n) = clear_in k (clients n)"
  by (simp add: finish_command_client_def Let_def)

lemma clients_fail [simp]: "clients (fail_command_client e s t k n) = clear_in k (clients n)"
  by (simp add: fail_command_client_def)

subsection \<open>The calls of the application\<close>

text \<open>The calls that neither start a command nor take its deadline over. The observers of the
  application may react with any others.\<close>

fun leaves_waiting :: "component_call \<Rightarrow> bool" where
  "leaves_waiting (CSendCommand _ _ _ _ _ _ _) = False"
| "leaves_waiting (CStartCommand _ _ _) = False"
| "leaves_waiting (CExternalDeadline _) = False"
| "leaves_waiting _ = True"

definition patient :: "(observer_call \<Rightarrow> component_call list) \<Rightarrow> bool" where
  "patient app \<longleftrightarrow> (\<forall>call. list_all leaves_waiting (app call))"

lemma clients_calls [simp]:
  "clients (snd (start_reliable_message p k t d n)) = clients n" "clients (snd (start_background_result p r n)) = clients n"
  "clients (snd (take_background_result_completion n)) = clients n" "clients (reset_sender n) = clients n"
  "clients (snd (component_take_application_message n)) = clients n" "clients (set_command_handler b n) = clients n"
  "clients (set_observe_application_identity b n) = clients n"
  "clients (snd (set_expected_application_source dst src n)) = clients n"
  "clients (stop_heartbeat n) = clients n" "clients (discard_radio_events n) = clients n"
  by (auto simp: start_reliable_message_def start_background_result_def take_background_result_completion_def
      reset_sender_def component_take_application_message_def set_command_handler_def stop_heartbeat_def
      set_observe_application_identity_def set_expected_application_source_def discard_radio_events_def clients_def
      split: prod.split bool.split sum.split)

lemma ended_cancel: "ended (clients n) (clients (snd (cancel_command t n)))"
  by (auto simp: cancel_command_def Let_def split: option.split)

lemma ended_call: "leaves_waiting c \<Longrightarrow> ended (clients n) (clients (apply_call c n))"
proof (induction c)
  case (CRuntimeEnabled b)
  have "ended (clients m) (clients (cancel_active_clients m))" for m
    by (auto simp: cancel_active_clients_def Let_def intro: ended_cancel ended_trans [OF ended_cancel ended_cancel])
  from this [of "reset_sender (stop_heartbeat (n\<lparr>nc_runtime_enabled := False\<rparr>))"]
  show ?case by (simp add: set_runtime_enabled_def) (simp add: clients_def)
qed (simp_all add: ended_cancel, simp_all add: clients_def)

lemma ended_calls: "list_all leaves_waiting cs \<Longrightarrow> ended (clients n) (clients (fold apply_call cs n))"
  by (induction cs arbitrary: n) (auto intro: ended_trans ended_call)

lemma ended_notify: "patient app \<Longrightarrow> ended (clients n) (clients (notify_observers app obs f is n))"
proof (induction "is" arbitrary: n)
  case (Cons i "is")
  have "ended (clients n) (clients (call_observer app call n))" for call
    using ended_calls [of "app call" "n\<lparr>nc_calls := nc_calls n @ [call]\<rparr>"] Cons.prems
    by (simp add: call_observer_def patient_def)
  then show ?case using Cons by (auto intro: ended_trans split: option.split)
qed simp

lemma ended_notification: "patient app \<Longrightarrow> ended (clients n) (clients (dispatch_command_result_notification app n))"
  using ended_notify [of app "n\<lparr>nc_notification_ready := False\<rparr>"]
  by (simp add: dispatch_command_result_notification_def del: notify_observers.simps)

lemma ended_unsolicited: "patient app \<Longrightarrow> ended (clients n) (clients (snd (dispatch_unsolicited_result app im n)))"
  by (simp add: dispatch_unsolicited_result_def ended_notify split: sum.split del: notify_observers.simps)

subsection \<open>The steps of a pass\<close>

lemma clients_completion [simp]: "clients (process_send_completion now n) = clients n"
  by (auto simp: process_send_completion_def Let_def split: prod.split option.split)

lemma clients_accept [simp]: "clients (accept_received_frame f n) = clients n"
  by (auto simp: accept_received_frame_def Let_def split: prod.split option.split)

lemma clients_heartbeat [simp]: "clients (snd (component_receive_heartbeat t f n)) = clients n"
  by (auto simp: component_receive_heartbeat_def split: prod.split)

lemma clients_received [simp]: "clients (process_received_frame t n) = clients n"
proof -
  have "clients n1 = clients (n\<lparr>nc_radio := r\<rparr>)" if "component_receive_heartbeat t f (n\<lparr>nc_radio := r\<rparr>) = (b, n1)" for f r b n1
    using clients_heartbeat [of t f "n\<lparr>nc_radio := r\<rparr>"] that by simp
  then show ?thesis by (auto simp: process_received_frame_def split: prod.split option.split bool.split)
qed

lemma clients_identity [simp]: "clients (on_command_identity seen n) = clients n"
  by (auto simp: on_command_identity_def split: option.split)

lemma clients_offer [simp]: "clients (fst (snd (offer_command handler im now n h))) = clients n"
  by (simp add: offer_command_def offer_interrupt_def Let_def case_prod_beta)

lemma clients_dispatchers: "dispatchers_loop handler now n h = Some (n', h') \<Longrightarrow> clients n' = clients n"
  by (auto simp: dispatchers_loop_def Let_def split: option.splits)

lemma clients_dispatcher [simp]: "clients (process_dispatcher n) = clients n"
proof -
  have "clients (set_lane_dispatcher l d n) = clients n" for l d by (cases l) simp_all
  then show ?thesis by (auto simp: process_dispatcher_def Let_def split: prod.split option.split bool.split)
qed

lemma clients_sending [simp]:
  "clients (dispatch_application_ack idf n) = clients n" "clients (dispatch_sender_frame idf now n) = clients n"
  "clients (component_dispatch_heartbeat idf now n) = clients n"
  by (auto simp: dispatch_application_ack_def dispatch_sender_frame_def component_dispatch_heartbeat_def Let_def
      split: prod.split option.split sum.split bool.split)

subsection \<open>How a client ends\<close>

lemma ended_result: "ended (clients n) (clients (process_command_client_result im t k n))"
  by (simp add: process_command_client_result_def Let_def split: sum.split)

lemma ended_message:
  assumes "patient app"
  shows "ended (clients n) (clients (fst (process_application_message handler app now n h)))"
proof -
  obtain im rt where take: "take_application_message (nc_runtime n) = (im, rt)" by fastforce
  have kind: "clients (fst (snd (offer_command handler i now (n\<lparr>nc_runtime := rt\<rparr>) h))) = clients n" for i by simp
  have res: "ended (clients n) (clients (process_command_client_result i t k (n\<lparr>nc_runtime := rt\<rparr>)))" for i t k
    using ended_result [of "n\<lparr>nc_runtime := rt\<rparr>" i t k] by simp
  obtain b m where u: "dispatch_unsolicited_result app (the im) (n\<lparr>nc_runtime := rt\<rparr>) = (b, m)" by fastforce
  then have m: "ended (clients n) (clients m)"
    using ended_unsolicited [OF assms, of "n\<lparr>nc_runtime := rt\<rparr>" "the im"] by simp
  show ?thesis
    using kind res m u unfolding process_application_message_def take Let_def
    by (cases im; cases "matching_command_client n"; cases b) auto
qed

lemma clients_expire:
  "clients (expire_command_client now k n) =
     (if cc_state (client_at k n) = CommandClientState.WAITING_FOR_RESULT \<and> \<not> cc_external_deadline (client_at k n) \<and>
         now - cc_started_ms (client_at k n) \<ge> cmd_timeout_ms (cc_command (client_at k n))
      then clear_in k (clients n) else clients n)"
  by (simp add: expire_command_client_def Let_def)

definition overdue :: "u32 \<Rightarrow> CommandClient \<Rightarrow> bool" where
  "overdue now c \<longleftrightarrow>
     cc_state c = CommandClientState.WAITING_FOR_RESULT \<and> \<not> cc_external_deadline c \<and>
     cmd_timeout_ms (cc_command c) \<le> now - cc_started_ms c"

lemma overdue_expires:
  assumes "overdue now (client_at slot n) \<or> cc_state (client_at slot n) = CommandClientState.IDLE"
    and "slot = 0 \<or> nc_dual n \<and> slot = 1"
  shows "cc_state (client_at slot (expire_all now n)) = CommandClientState.IDLE"
proof -
  obtain d c c2 where x: "clients n = (d, c, c2)" by (cases "clients n")
  have dual: "nc_dual n = d" using x by (simp add: clients_def)
  have n1: "clients (expire_command_client now 0 n) = (if overdue now c then clear_in 0 (d, c, c2) else (d, c, c2))"
    by (simp add: clients_expire overdue_def client_at_in x)
  then have d1: "nc_dual (expire_command_client now 0 n) = d" by (auto simp: clients_def split: if_splits)
  show ?thesis
    using assms dual n1 d1
    by (cases "d \<and> slot = 1") (auto simp: expire_all_def clients_expire client_at_in overdue_def x Let_def)
qed

subsection \<open>The whole pass\<close>

lemma owned_keeps_idle:
  assumes "component_inv n" and "cc_state (client_at slot n) = CommandClientState.IDLE"
  shows "cc_state (client_at slot (process_owned_sender_completion idf t1 t2 n)) = CommandClientState.IDLE"
proof (cases "nc_reliable_message_owner n = COMMAND_CLIENT")
  case True
  let ?k = "nc_command_sender_slot n"
  have wait: "cc_state (client_at ?k n) = CommandClientState.WAITING_FOR_DELIVERY_ACK"
    using assms(1) True by (simp add: component_inv_def owners_ok_def client_owns_def)
  have slots: "?k = 0 \<or> nc_dual n \<and> ?k = 1" using assms(1) by (simp add: component_inv_def owners_ok_def)
  have fail: "cc_state (client_at slot (fail_command_client e s t2 ?k (reset_sender m))) = CommandClientState.IDLE"
    if "clients m = clients n" for e s m
  proof -
    have "clients (reset_sender m) = clients n" using that by (simp add: reset_sender_def)
    then show ?thesis
      using client_in_cleared [of slot ?k "clients n"] assms(2) by (auto simp: client_at_in)
  qed
  have "clients (request_recovery idf t1 n) = clients n" by (simp add: request_recovery_def)
  then show ?thesis
    using True assms(2) wait fail slots
    by (auto simp: process_owned_sender_completion_def Let_def) (auto simp: client_at_def reset_sender_def split: if_splits)
next
  case False
  then have "clients (process_owned_sender_completion idf t1 t2 n) = clients n"
    by (cases "nc_reliable_message_owner n")
      (auto simp: process_owned_sender_completion_def reset_sender_def request_recovery_def Let_def)
  then show ?thesis using assms(2) by (simp add: client_at_in)
qed

lemma overdue_after_inbound:
  assumes "loop_inbound handler app li n h = Some (n', h')" and "overdue (li_now_ms li) (client_at slot n)"
    and "slot = 0 \<or> nc_dual n \<and> slot = 1" and "patient app"
  shows "cc_state (client_at slot n') = CommandClientState.IDLE"
proof -
  let ?m = "loop_receiving app li n"
  obtain m2 h1 where m2: "process_application_message handler app (li_now_ms li) ?m h = (m2, h1)" by fastforce
  have "ended (clients n) (clients ?m)" using ended_notification [OF assms(4)] by (simp add: loop_receiving_def)
  then have "ended (clients n) (clients m2)"
    using ended_message [OF assms(4), of ?m handler "li_now_ms li" h] m2 ended_trans by simp
  then have "(overdue (li_now_ms li) (client_at slot m2) \<or> cc_state (client_at slot m2) = CommandClientState.IDLE) \<and>
      nc_dual m2 = nc_dual n"
    using assms(2) by (metis ended_def client_at_in cleared_idle clients_def fst_conv)
  then have "cc_state (client_at slot (expire_all (li_now_ms li) m2)) = CommandClientState.IDLE"
    using overdue_expires assms(3) by metis
  moreover have "dispatchers_loop handler (li_now_ms li) (expire_all (li_now_ms li) m2) h1 = Some (n', h')"
    using assms(1) m2 by (simp add: loop_inbound_eq)
  ultimately show ?thesis using clients_dispatchers client_at_in by metis
qed

lemma outbound_keeps_idle:
  assumes "component_inv n" and "cc_state (client_at slot n) = CommandClientState.IDLE"
  shows "cc_state (client_at slot (loop_outbound li n)) = CommandClientState.IDLE"
proof -
  let ?n1 = "n\<lparr>nc_sender := sender_loop (li_now_ms li) (nc_sender n)\<rparr>"
  have "component_inv ?n1"
    using assms(1) by (intro component_inv_sender sender_loop_continues sender_loop_inv component_invD(5))
  moreover have "cc_state (client_at slot ?n1) = CommandClientState.IDLE" using assms(2) by (simp add: client_at_in)
  ultimately show ?thesis using owned_keeps_idle by (simp add: loop_outbound_def Let_def) (simp add: client_at_in)
qed

text \<open>C3 (termination): no command waits for ever. In every state that satisfies the component's
  invariant, so in every reachable one, a pass of the loop at or after the component's own
  deadline of a command that waits for its result ends with the command's client free,
  whatever arrives in that pass, whatever the other client and the dispatchers do, and
  whatever the platform answers - provided the runtime is enabled and has not failed, the
  deadline was not handed over with \<open>use_external_result_deadline\<close>, the radio is initialized
  once the supervision has run, which the loop demands before it tests any deadline, and
  the observers do not themselves start a command or hand a deadline over.\<close>

theorem overdue_command_ends:
  assumes inv: "component_inv n" and "bounded_handler handler" and "patient app" and "nc_local_boot_id n \<noteq> 0"
    and "nc_runtime_enabled n" and "\<not> nc_failed n" and "nr_initialized (nc_radio (loop_supervision li n))"
    and "overdue (li_now_ms li) (client_at slot n)" and "slot = 0 \<or> nc_dual n \<and> slot = 1"
  shows "\<exists>n' h'. component_loop handler app li n h = Some (n', h') \<and>
    cc_state (client_at slot n') = CommandClientState.IDLE"
proof -
  let ?n1 = "loop_supervision li n"
  have inv1: "component_inv ?n1" using supervision_inv [OF inv] .
  have same: "nc_runtime_enabled ?n1" "\<not> nc_failed ?n1" "nc_local_boot_id ?n1 \<noteq> 0" "nc_dual ?n1 = nc_dual n"
    using assms(4-6) by (simp_all add: loop_supervision_def component_heartbeat_tick_def Let_def)
  obtain n2 h2 where n2: "loop_inbound handler app li ?n1 h = Some (n2, h2)" "component_inv n2"
    using loop_inbound_inv [OF inv1 same(3) assms(2)] by blast
  have "overdue (li_now_ms li) (client_at slot ?n1)" using assms(8) by (simp add: client_at_in)
  then have "cc_state (client_at slot n2) = CommandClientState.IDLE"
    using overdue_after_inbound [OF n2(1)] assms(3,9) same(4) by metis
  then show ?thesis
    using outbound_keeps_idle [OF n2(2)] n2(1) same(1,2) assms(7) by (simp add: component_loop_def Let_def)
qed

text \<open>A working radio between two polls of the channel, and a client that has waited for 100 ms.\<close>

definition example_working_radio :: EspIdfEspNowEncryptedRadio where
  "example_working_radio =
     example_radio\<lparr>nr_initialized := True, nr_instance := ThisInstance, nr_radio_recovery_pending := False,
       nr_last_channel_poll_ms := 1050\<rparr>"

definition example_overdue :: NetComponent where
  "example_overdue = (example_component EspNowFrameKind.RESULT [0])\<lparr>nc_radio := example_working_radio, nc_local_boot_id := 1\<rparr>"

lemma example_working_radio_inv: "radio_inv example_working_radio"
  using example_radio_ok(1)
  by (simp add: example_working_radio_def radio_inv_def supervision_ok_def queues_ok_def)
    (simp add: example_radio_def radio_init_def)

lemma overdue_command_ends_witness:
  "\<exists>n' h'. component_loop silent_handler (\<lambda>_. [CCancelCommand 1, CResetSender]) (example_input\<lparr>li_now_ms := 1100\<rparr>) example_overdue () = Some (n', h') \<and>
     cc_state (client_at 0 n') = CommandClientState.IDLE"
proof (rule overdue_command_ends)
  show "component_inv example_overdue"
    unfolding example_overdue_def
    using component_inv_parts(1) [OF example_component_inv [of EspNowFrameKind.RESULT "[0]"] example_working_radio_inv] by simp
  show "bounded_handler silent_handler" by (rule silent_bounded)
  show "patient (\<lambda>_. [CCancelCommand 1, CResetSender])" by (simp add: patient_def)
  show "nc_local_boot_id example_overdue \<noteq> 0" "nc_runtime_enabled example_overdue" "\<not> nc_failed example_overdue"
    "(0::u8) = 0 \<or> nc_dual example_overdue \<and> (0::u8) = 1"
    by (simp_all add: example_overdue_def example_component_def component_init_def)
  show "overdue (li_now_ms (example_input\<lparr>li_now_ms := 1100\<rparr>)) (client_at 0 example_overdue)"
    by (simp add: overdue_def example_overdue_def client_at_def example_client_def)
  show "nr_initialized (nc_radio (loop_supervision (example_input\<lparr>li_now_ms := 1100\<rparr>) example_overdue))"
    by (simp add: loop_supervision_def component_heartbeat_tick_def example_overdue_def radio_loop_def
        set_recovery_permitted_def example_working_radio_def example_radio_def radio_init_def Let_def)
qed

end
