(* ===== verification/Declarative_Component.thy ===== *)
theory Declarative_Component
  imports Declarative_Handler Component_Properties
begin

text \<open>
  A component whose commands are served by its own declarative handler, configured with
  \<open>configure_declarative_inbound\<close> and \<open>add_declarative_binding\<close>: the contract of the handler,
  proved for one dispatcher, holds for the whole component. The handler is registered at the
  ordinary dispatcher only; the parallel and the interrupt dispatcher have none.
\<close>

definition configure_declarative_inbound ::
    "cstring option \<Rightarrow> NetComponent \<times> 'w DeclarativeCommandHandler \<Rightarrow> NetComponent \<times> 'w DeclarativeCommandHandler" where
  "configure_declarative_inbound device_id nh =
     (let (n, h) = nh; h1 = set_device_id device_id h
      in (n\<lparr>nc_command_dispatcher := set_handler True (nc_command_dispatcher n)\<rparr>, h1))"

definition add_declarative_binding ::
    "'w DeclarativeCommandBinding option \<Rightarrow> NetComponent \<times> 'w DeclarativeCommandHandler \<Rightarrow>
     bool \<times> NetComponent \<times> 'w DeclarativeCommandHandler" where
  "add_declarative_binding binding nh =
     (let (n, h) = nh; (ok, h1) = add_binding binding h in (ok, n, h1))"

text \<open>The configuration of a device: its identifier, then its bindings in order.\<close>

definition configure_device ::
    "cstring option \<Rightarrow> 'w DeclarativeCommandBinding list \<Rightarrow> NetComponent \<Rightarrow> NetComponent \<times> 'w DeclarativeCommandHandler" where
  "configure_device device_id bindings n =
     fold (\<lambda>b nh. snd (add_declarative_binding (Some b) nh)) bindings
       (configure_declarative_inbound device_id (n, declarative_init))"

text \<open>Every state of such a device: any calls of the application except the registration of another
  handler, passes of the loop, callbacks of the radio, and changes of the world that the
  bindings act on.\<close>

definition keeps_handler :: "(observer_call \<Rightarrow> component_call list) \<Rightarrow> bool" where
  "keeps_handler app \<longleftrightarrow> (\<forall>x. CRegisterHandler \<notin> set (app x))"

inductive device_reach :: "NetComponent \<Rightarrow> 'w DeclarativeCommandHandler \<times> 'w \<Rightarrow> bool" where
  device_configured: "(\<forall>b\<in>set bindings. binding_ok b) \<Longrightarrow>
    configure_device device_id bindings (component_init dual heartbeat diagnostics) = (n, h) \<Longrightarrow> device_reach n (h, w)"
| device_called: "device_reach n hw \<Longrightarrow> c \<noteq> CRegisterHandler \<Longrightarrow> device_reach (apply_call c n) hw"
| device_set_up: "device_reach n hw \<Longrightarrow> device_reach (component_setup high low n) hw"
| device_looped: "device_reach n hw \<Longrightarrow> nc_local_boot_id n \<noteq> 0 \<Longrightarrow> keeps_handler app \<Longrightarrow>
    component_loop declarative_handler app li n hw = Some (n', hw') \<Longrightarrow> device_reach n' hw'"
| device_received: "device_reach n hw \<Longrightarrow> device_reach (n\<lparr>nc_radio := receive_callback info data len (nc_radio n)\<rparr>) hw"
| device_sent: "device_reach n hw \<Longrightarrow> device_reach (n\<lparr>nc_radio := send_callback address ok (nc_radio n)\<rparr>) hw"
| device_world: "device_reach n (h, w) \<Longrightarrow> device_reach n (h, w')"

subsection \<open>The invariant\<close>

definition lanes :: "NetComponent \<Rightarrow> InboundCommandDispatcher \<times> InboundCommandDispatcher \<times> InboundCommandDispatcher" where
  "lanes n = (nc_command_dispatcher n, nc_parallel_dispatcher n, nc_interrupt_dispatcher n)"

definition device_lanes :: "NetComponent \<Rightarrow> 'w DeclarativeCommandHandler \<times> 'w \<Rightarrow> bool" where
  "device_lanes n hw \<longleftrightarrow>
     paired declarative_inv declarative_serving (nc_command_dispatcher n) hw \<and>
     \<not> cd_handler (nc_parallel_dispatcher n) \<and> \<not> cd_handler (nc_interrupt_dispatcher n)"

definition device_inv :: "NetComponent \<Rightarrow> 'w DeclarativeCommandHandler \<times> 'w \<Rightarrow> bool" where
  "device_inv n hw \<longleftrightarrow> component_inv n \<and> device_lanes n hw"

lemma device_lanes_cong: "lanes n = lanes m \<Longrightarrow> device_lanes n hw = device_lanes m hw"
  by (simp add: lanes_def device_lanes_def)

lemma device_lanes_keep: "device_lanes m hw \<Longrightarrow> lanes n = lanes m \<Longrightarrow> device_lanes n hw"
  using device_lanes_cong by blast

lemma device_lanes_update [simp]:
  "device_lanes (n\<lparr>nc_calls := cs\<rparr>) hw = device_lanes n hw"
  "device_lanes (n\<lparr>nc_notification := r\<rparr>) hw = device_lanes n hw"
  "device_lanes (n\<lparr>nc_notification_peer := i\<rparr>) hw = device_lanes n hw"
  "device_lanes (n\<lparr>nc_notification_ready := b\<rparr>) hw = device_lanes n hw"
  "device_lanes (n\<lparr>nc_runtime := rt\<rparr>) hw = device_lanes n hw"
  "device_lanes (n\<lparr>nc_result_message := im\<rparr>) hw = device_lanes n hw"
  "device_lanes (n\<lparr>nc_reliable_message_owner := w1\<rparr>) hw = device_lanes n hw"
  "device_lanes (n\<lparr>nc_sender := s\<rparr>) hw = device_lanes n hw"
  "device_lanes (n\<lparr>nc_radio := rd\<rparr>) hw = device_lanes n hw"
  "device_lanes (n\<lparr>nc_result_delivery_failure_count := k\<rparr>) hw = device_lanes n hw"
  by (simp_all add: device_lanes_def)

lemma lanes_update [simp]:
  "lanes (n\<lparr>nc_radio := r\<rparr>) = lanes n" "lanes (n\<lparr>nc_runtime := rt\<rparr>) = lanes n"
  "lanes (n\<lparr>nc_sender := s\<rparr>) = lanes n" "lanes (n\<lparr>nc_heartbeat := hb\<rparr>) = lanes n"
  "lanes (n\<lparr>nc_recovery := w\<rparr>) = lanes n" "lanes (n\<lparr>nc_calls := cs\<rparr>) = lanes n"
  "lanes (n\<lparr>nc_client := c\<rparr>) = lanes n" "lanes (n\<lparr>nc_client_2 := c\<rparr>) = lanes n"
  "lanes (n\<lparr>nc_next_declarative_transaction_id := t\<rparr>) = lanes n" "lanes (n\<lparr>nc_retry_policy := rp\<rparr>) = lanes n"
  "lanes (n\<lparr>nc_parallel_inbound := b\<rparr>) = lanes n" "lanes (n\<lparr>nc_interruptible_inbound := b\<rparr>) = lanes n"
  "lanes (n\<lparr>nc_verified_command_observer := b\<rparr>) = lanes n" "lanes (n\<lparr>nc_command_result_observers := xs\<rparr>) = lanes n"
  "lanes (n\<lparr>nc_unsolicited_result_observers := xs\<rparr>) = lanes n"
  by (simp_all add: lanes_def)

lemma lanes_sender [simp]:
  "lanes (reset_sender n) = lanes n" "lanes (snd (start_reliable_message p k t d n)) = lanes n"
  "lanes (snd (start_background_result p r n)) = lanes n" "lanes (snd (take_background_result_completion n)) = lanes n"
  "lanes (snd (component_take_application_message n)) = lanes n" "lanes (snd (set_expected_application_source d' s n)) = lanes n"
  by (auto simp: lanes_def reset_sender_def start_reliable_message_def start_background_result_def
      take_background_result_completion_def component_take_application_message_def
      set_expected_application_source_def Let_def split: prod.split option.split sum.split bool.split)

lemma lanes_clear [simp]: "lanes (clear_command_client slot n) = lanes n"
  by (simp add: lanes_def clear_command_client_def Let_def)

lemma lanes_client_calls [simp]:
  "lanes (snd (start_command p c now n)) = lanes n" "lanes (snd (cancel_command t n)) = lanes n"
  "lanes (snd (use_external_result_deadline t n)) = lanes n"
  by (auto simp: lanes_def start_command_def cancel_command_def use_external_result_deadline_def clear_command_client_def
      Let_def split: prod.split option.split sum.split bool.split)

lemma lanes_send_command [simp]: "lanes (snd (send_command p d r c v t now n)) = lanes n"
  by (auto simp: send_command_def Let_def split: prod.split option.split)

lemma lanes_off [simp]:
  "lanes (discard_radio_events n) = lanes n" "lanes (stop_heartbeat n) = lanes n" "lanes (cancel_active_clients n) = lanes n"
  by (simp_all add: discard_radio_events_def stop_heartbeat_def cancel_active_clients_def Let_def)

lemma lanes_enabled [simp]: "lanes (set_runtime_enabled b n) = lanes n"
proof -
  have "lanes (m\<lparr>nc_radio_transmission_owner := RadioTransmissionOwner.NONE,
      nc_radio_transmission_peer := INVALID_PEER_INDEX, nc_notification_ready := False,
      nc_result_message := None, nc_background_result_transaction_id := 0,
      nc_background_result_completion_ready := False, nc_background_result_succeeded := False\<rparr>) = lanes m" for m
    by (simp add: lanes_def)
  moreover have "lanes (n\<lparr>nc_runtime_enabled := c\<rparr>) = lanes n" for c by (simp add: lanes_def)
  ultimately show ?thesis by (simp add: set_runtime_enabled_def)
qed

lemma paired_registered:
  "paired hinv serving d h \<Longrightarrow> paired hinv serving (set_handler True d) h"
  "paired hinv serving d h \<Longrightarrow> paired hinv serving (set_identity_observer b d) h"
  by (simp_all add: paired_def dispatcher_inv_def serves_command_def set_handler_def set_identity_observer_def)

lemma lanes_call:
  assumes "c \<noteq> CRegisterHandler" and "c \<noteq> CRegisterDeclarative" and "\<And>b. c \<noteq> CObserveIdentity b"
  shows "lanes (apply_call c n) = lanes n"
proof (cases c)
  case (CObserveIdentity b)
  with assms(3) show ?thesis by blast
qed (use assms in simp_all)

lemma device_lanes_call:
  assumes "device_lanes n hw" and "c \<noteq> CRegisterHandler"
  shows "device_lanes (apply_call c n) hw"
proof (cases "c = CRegisterDeclarative \<or> (\<exists>b. c = CObserveIdentity b)")
  case True
  then show ?thesis
    using assms(1) by (auto simp: device_lanes_def set_observe_application_identity_def paired_registered)
      (simp_all add: set_identity_observer_def)
next
  case False
  then show ?thesis using device_lanes_keep [OF assms(1) lanes_call] assms(2) by blast
qed

subsection \<open>A pass of the loop\<close>

lemma device_lanes_calls:
  "device_lanes n hw \<Longrightarrow> CRegisterHandler \<notin> set cs \<Longrightarrow> device_lanes (fold apply_call cs n) hw"
proof (induction cs arbitrary: n)
  case (Cons c cs)
  then have "c \<noteq> CRegisterHandler" by auto
  then show ?case using Cons device_lanes_call [OF Cons(2)] by simp
qed simp

lemma device_lanes_notify:
  assumes "device_lanes n hw" and "keeps_handler app"
  shows "device_lanes (notify_observers app observers call is n) hw"
  using assms(1)
proof (induction "is" arbitrary: n)
  case (Cons i "is")
  have "device_lanes (call_observer app (call x n) n) hw" for x
    using assms(2) Cons(2)
    by (simp add: call_observer_def keeps_handler_def device_lanes_calls)
  then show ?case using Cons by (simp split: option.split)
qed simp

lemma device_lanes_notification:
  assumes "device_lanes n hw" and "keeps_handler app"
  shows "device_lanes (dispatch_command_result_notification app n) hw"
  using assms by (simp add: dispatch_command_result_notification_def device_lanes_notify del: notify_observers.simps)

lemma lanes_receiving [simp]:
  "lanes (process_send_completion now n) = lanes n" "lanes (accept_received_frame f n) = lanes n"
  "lanes (snd (component_receive_heartbeat t f n)) = lanes n"
  by (auto simp: lanes_def process_send_completion_def accept_received_frame_def component_receive_heartbeat_def Let_def
      split: prod.split option.split)

lemma lanes_received [simp]: "lanes (process_received_frame t n) = lanes n"
proof -
  have "lanes n1 = lanes (n\<lparr>nc_radio := r\<rparr>)" if "component_receive_heartbeat t f (n\<lparr>nc_radio := r\<rparr>) = (b, n1)" for f r b n1
    using lanes_receiving(3) [of t f "n\<lparr>nc_radio := r\<rparr>"] that by simp
  then show ?thesis by (auto simp: process_received_frame_def split: prod.split option.split bool.split)
qed

lemma device_lanes_receiving:
  "device_lanes n hw \<Longrightarrow> keeps_handler app \<Longrightarrow> device_lanes (loop_receiving app li n) hw"
  by (rule device_lanes_keep [OF device_lanes_notification]) (simp_all add: loop_receiving_def)

text \<open>A dispatcher without a handler refuses every command and never runs one.\<close>

lemma unregistered_accept:
  assumes "\<not> cd_handler d" and "dispatcher_accept handler inbound now d h = (ok, seen, d', h')"
  shows "h' = h" and "\<not> cd_handler d'"
  using assms
  by (auto simp: dispatcher_accept_def complete_failure_def Let_def split: if_splits sum.splits)

lemma unregistered_interrupt:
  assumes "\<not> cd_handler d" and "accept_interrupt handler inbound operation now d h = (ok, seen, d', h')"
  shows "h' = h" and "\<not> cd_handler d'"
  using assms unregistered_accept [OF assms(1), of handler inbound now h ok seen d' h'] by (auto simp: accept_interrupt_def split: if_splits)

lemma unregistered_loop: "lane_ok d \<Longrightarrow> \<not> cd_handler d \<Longrightarrow> dispatcher_loop handler now d h = Some (d, h)"
  by (auto simp: dispatcher_loop_def lane_ok_def serves_command_def)

lemma device_lanes_identity [simp]: "device_lanes (on_command_identity seen n) hw = device_lanes n hw"
  by (simp add: device_lanes_def)

lemma device_lanes_interrupt:
  assumes "device_lanes n hw" and "offer_interrupt declarative_handler inbound now n hw = (ok, n1, hw1)"
  shows "device_lanes n1 hw1"
proof -
  obtain ok1 seen d h1 where i: "accept_interrupt declarative_handler inbound (nc_command_dispatcher n) now
      (nc_interrupt_dispatcher n) hw = (ok1, seen, d, h1)" by (metis prod_cases4)
  have d: "h1 = hw" "\<not> cd_handler d" using unregistered_interrupt [OF _ i] assms(1) by (auto simp: device_lanes_def)
  obtain ok2 seen2 d2 h2 where i2: "accept_interrupt declarative_handler inbound (nc_parallel_dispatcher n) now d h1 =
      (ok2, seen2, d2, h2)" by (metis prod_cases4)
  have d2: "h2 = hw" "\<not> cd_handler d2" using unregistered_interrupt [OF d(2) i2] d(1) by auto
  have "device_lanes (n\<lparr>nc_interrupt_dispatcher := d\<rparr>) hw" "device_lanes (m\<lparr>nc_interrupt_dispatcher := d2\<rparr>) hw"
    if "device_lanes m hw" for m
    using assms(1) that d d2 by (simp_all add: device_lanes_def)
  then show ?thesis
    using assms d d2 i i2 by (auto simp: offer_interrupt_def Let_def split: if_splits prod.splits)
qed

lemma device_lanes_offer:
  assumes "device_lanes n hw"
  shows "device_lanes (fst (snd (offer_command declarative_handler inbound now n hw)))
    (snd (snd (offer_command declarative_handler inbound now n hw)))"
proof -
  obtain ok n1 h1 where o1: "offer_interrupt declarative_handler inbound now n hw = (ok, n1, h1)" by (metis prod_cases3)
  have n1: "device_lanes n1 h1" using device_lanes_interrupt [OF assms o1] .
  obtain ok2 seen d h2 where a: "dispatcher_accept declarative_handler inbound now (nc_command_dispatcher n1) h1 =
      (ok2, seen, d, h2)" by (metis prod_cases4)
  have n2: "device_lanes (n1\<lparr>nc_command_dispatcher := d\<rparr>) h2"
    using n1 declarative.paired_accept [OF _ a] by (simp add: device_lanes_def)
  obtain ok3 seen3 d3 h3 where b: "dispatcher_accept declarative_handler inbound now (nc_parallel_dispatcher n1) h2 =
      (ok3, seen3, d3, h3)" by (metis prod_cases4)
  have "h3 = h2" "\<not> cd_handler d3" using unregistered_accept [OF _ b] n1 by (auto simp: device_lanes_def)
  then have "device_lanes ((on_command_identity seen (n1\<lparr>nc_command_dispatcher := d\<rparr>))\<lparr>nc_parallel_dispatcher := d3\<rparr>) h3"
    using n2 by (simp add: device_lanes_def)
  with n1 n2 show ?thesis using o1 a b by (simp add: offer_command_def Let_def)
qed

lemma device_lanes_unsolicited:
  assumes "device_lanes n hw" and "keeps_handler app" and "dispatch_unsolicited_result app inbound n = (b, n')"
  shows "device_lanes n' hw"
  using assms(3) device_lanes_notify [OF assms(1,2)] assms(1)
  by (auto simp: dispatch_unsolicited_result_def split: if_splits sum.splits simp del: notify_observers.simps)

lemma lanes_client_result [simp]:
  "lanes (queue_command_result_notification p r n) = lanes n" "lanes (finish_command_client r slot n) = lanes n"
  "lanes (fail_command_client e m now slot n) = lanes n" "lanes (process_command_client_result im now slot n) = lanes n"
  "lanes (expire_command_client now slot n) = lanes n" "lanes (expire_all now n) = lanes n"
proof -
  have q: "lanes (queue_command_result_notification p r n) = lanes n" for p r n
    by (simp add: queue_command_result_notification_def lanes_def)
  have f: "lanes (finish_command_client r slot n) = lanes n" for r slot n
    by (simp add: finish_command_client_def q Let_def) (simp add: lanes_def)
  have e: "lanes (fail_command_client e m now slot n) = lanes n" for e m now slot n
    by (simp add: fail_command_client_def f) (simp add: lanes_def)?
  have p: "lanes (process_command_client_result im now slot n) = lanes n"
    by (simp add: process_command_client_result_def q f e Let_def split: sum.split) (simp add: lanes_def)?
  have x: "lanes (expire_command_client now slot n) = lanes n" for slot n
    by (simp add: expire_command_client_def e Let_def)
  show "lanes (queue_command_result_notification p r n) = lanes n" "lanes (finish_command_client r slot n) = lanes n"
    "lanes (fail_command_client e m now slot n) = lanes n" "lanes (process_command_client_result im now slot n) = lanes n"
    "lanes (expire_command_client now slot n) = lanes n" "lanes (expire_all now n) = lanes n"
    by (simp_all add: q f e p x expire_all_def Let_def)
qed

lemma device_lanes_message:
  assumes "device_lanes n hw" and "keeps_handler app"
    and "process_application_message declarative_handler app now n hw = (n', hw')"
  shows "device_lanes n' hw'"
proof -
  obtain im rt where take: "take_application_message (nc_runtime n) = (im, rt)" by fastforce
  have n1: "device_lanes (n\<lparr>nc_runtime := rt\<rparr>) hw" using assms(1) by simp
  have offer: "device_lanes m x" if "snd (offer_command declarative_handler i now (n\<lparr>nc_runtime := rt\<rparr>) hw) = (m, x)" for i m x
    using device_lanes_offer [OF n1, of i now] that by simp
  have res: "device_lanes (process_command_client_result i now k (n\<lparr>nc_runtime := rt\<rparr>)) hw" for i k
    by (rule device_lanes_keep [OF n1]) simp
  obtain b m where u: "dispatch_unsolicited_result app (the im) (n\<lparr>nc_runtime := rt\<rparr>) = (b, m)" by fastforce
  note uns = device_lanes_unsolicited [OF n1 assms(2) u]
  show ?thesis
    using assms(1,3) n1 res u uns offer unfolding process_application_message_def take Let_def
    by (cases im; cases "matching_command_client n"; cases b) (auto split: if_splits)
qed

lemma device_dispatchers:
  assumes "component_inv n" and "device_lanes n hw"
  shows "\<exists>n' hw'. dispatchers_loop declarative_handler now n hw = Some (n', hw') \<and> component_inv n' \<and> device_lanes n' hw'"
proof -
  obtain d hw' where d: "dispatcher_loop declarative_handler now (nc_command_dispatcher n) hw = Some (d, hw')"
      "paired declarative_inv declarative_serving d hw'"
    using declarative.paired_loop assms(2) by (metis device_lanes_def)
  have lane: "lane_ok d" using d(2) by (simp add: lane_ok_def paired_def)
  have "dispatcher_loop declarative_handler now (nc_parallel_dispatcher n) hw' = Some (nc_parallel_dispatcher n, hw')"
    "dispatcher_loop declarative_handler now (nc_interrupt_dispatcher n) hw' = Some (nc_interrupt_dispatcher n, hw')"
    using unregistered_loop component_invD(7,8) [OF assms(1)] assms(2) by (auto simp: device_lanes_def)
  then have "dispatchers_loop declarative_handler now n hw = Some (n\<lparr>nc_command_dispatcher := d\<rparr>, hw')"
    using d(1) by (simp add: dispatchers_loop_def Let_def)
  moreover have "device_lanes (n\<lparr>nc_command_dispatcher := d\<rparr>) hw'" using assms(2) d(2) by (simp add: device_lanes_def)
  ultimately show ?thesis using component_inv_parts(3) [OF assms(1) lane] by blast
qed

lemma lanes_owned [simp]: "lanes (process_owned_sender_completion idf t1 t2 n) = lanes n"
proof -
  have r: "lanes (request_recovery idf t m) = lanes m" for t m by (simp add: request_recovery_def)
  have u: "lanes (m\<lparr>nc_client := c\<rparr>) = lanes m" "lanes (m\<lparr>nc_result_delivery_success_count := k\<rparr>) = lanes m"
    "lanes (m\<lparr>nc_result_delivery_failure_count := k\<rparr>) = lanes m"
    "lanes (m\<lparr>nc_background_result_success_count := k, nc_background_result_succeeded := b,
       nc_background_result_completion_ready := b'\<rparr>) = lanes m"
    "lanes (m\<lparr>nc_background_result_failure_count := k, nc_background_result_succeeded := b,
       nc_background_result_completion_ready := b'\<rparr>) = lanes m" for m c k b b'
    by (simp_all add: lanes_def)
  show ?thesis by (cases "nc_reliable_message_owner n") (simp_all add: process_owned_sender_completion_def Let_def r u)
qed

lemma lanes_sending [simp]:
  "lanes (dispatch_application_ack idf n) = lanes n" "lanes (dispatch_sender_frame idf now n) = lanes n"
  "lanes (component_dispatch_heartbeat idf now n) = lanes n"
  by (auto simp: lanes_def dispatch_application_ack_def dispatch_sender_frame_def component_dispatch_heartbeat_def Let_def
      split: prod.split option.split sum.split bool.split)

lemma device_lanes_dispatcher:
  assumes "device_lanes n hw"
  shows "device_lanes (process_dispatcher n) hw"
proof -
  obtain p d where t: "dispatcher_take_result (lane_dispatcher (served_lane n) n) = (p, d)" by fastforce
  have keep: "cd_handler d = cd_handler (lane_dispatcher (served_lane n) n)"
    using t by (auto simp: dispatcher_take_result_def dispatcher_reset_def Let_def split: if_splits)
  have "device_lanes (set_lane_dispatcher (served_lane n) d n) hw"
    using assms keep declarative.paired_take [of _ hw p d] t by (cases "served_lane n") (auto simp: device_lanes_def)
  then show ?thesis using assms t
    by (auto simp: process_dispatcher_def Let_def split: option.split prod.split bool.split)
qed

lemma device_lanes_outbound: "device_lanes n hw \<Longrightarrow> device_lanes (loop_outbound li n) hw"
proof -
  assume n: "device_lanes n hw"
  let ?n1 = "process_owned_sender_completion (li_idf li) (li_request_ms li) (li_fail_ms li)
    (n\<lparr>nc_sender := sender_loop (li_now_ms li) (nc_sender n)\<rparr>)"
  have "device_lanes ?n1 hw" using device_lanes_keep [OF n] by simp
  from device_lanes_dispatcher [OF this] show ?thesis
    by (rule device_lanes_keep) (simp add: loop_outbound_def Let_def)
qed

lemma lanes_supervision [simp]: "lanes (loop_supervision li n) = lanes n"
  by (simp add: loop_supervision_def component_heartbeat_tick_def discard_radio_events_def Let_def)

lemma device_loop_inv:
  assumes "device_inv n hw" and "nc_local_boot_id n \<noteq> 0" and "keeps_handler app"
  shows "\<exists>n' hw'. component_loop declarative_handler app li n hw = Some (n', hw') \<and> device_inv n' hw'"
proof -
  let ?n1 = "loop_supervision li n"
  have n1: "component_inv ?n1" "device_lanes ?n1 hw"
    using assms(1) supervision_inv device_lanes_keep [of n hw ?n1] by (simp_all add: device_inv_def)
  have boot: "nc_local_boot_id ?n1 \<noteq> 0"
    using assms(2) by (simp add: loop_supervision_def component_heartbeat_tick_def Let_def)
  obtain n2 hw2 where m: "process_application_message declarative_handler app (li_now_ms li) (loop_receiving app li ?n1) hw =
      (n2, hw2)" by (metis prod.exhaust)
  note n3 = loop_before_dispatchers [OF n1(1) boot m]
  have "device_lanes n2 hw2" using device_lanes_message [OF device_lanes_receiving [OF n1(2) assms(3)] assms(3) m] .
  then have "device_lanes (expire_all (li_now_ms li) n2) hw2" by (rule device_lanes_keep) simp
  from device_dispatchers [OF n3(1) this] obtain n4 hw4 where
    n4: "dispatchers_loop declarative_handler (li_now_ms li) (expire_all (li_now_ms li) n2) hw2 = Some (n4, hw4)"
      "component_inv n4" "device_lanes n4 hw4" by blast
  then have "nc_local_boot_id n4 \<noteq> 0" using dispatchers_loop_boot n3(2) by metis
  then have "device_inv (loop_outbound li n4) hw4"
    using loop_outbound_inv n4(2,3) device_lanes_outbound by (simp add: device_inv_def)
  moreover have "device_inv ?n1 hw" "device_inv (discard_radio_events ?n1) hw"
    using n1 discard_inv device_lanes_keep [of ?n1 hw "discard_radio_events ?n1"] by (simp_all add: device_inv_def)
  ultimately show ?thesis using m n4(1) by (cases hw; cases hw4) (simp add: component_loop_def loop_inbound_eq Let_def)
qed

lemma configure_device_lanes:
  fixes bindings :: "'a DeclarativeCommandBinding list"
  assumes "\<forall>b\<in>set bindings. binding_ok b" and "configure_device device_id bindings n = (n', h)"
  shows "configured h" and "n' = n\<lparr>nc_command_dispatcher := set_handler True (nc_command_dispatcher n)\<rparr>"
proof -
  let ?step = "\<lambda>b nh. snd (add_declarative_binding (Some b) nh)"
  have step: "configured (snd (?step b nh)) \<and> fst (?step b nh) = fst nh"
    if "binding_ok b" "configured (snd nh)" for b :: "'a DeclarativeCommandBinding" and nh
    using that by (cases nh) (auto simp: add_declarative_binding_def add_binding_def configured_def)
  have "configured (snd (fold ?step bs nh)) \<and> fst (fold ?step bs nh) = fst nh"
    if "\<forall>b\<in>set bs. binding_ok b" "configured (snd nh)" for bs :: "'a DeclarativeCommandBinding list" and nh
    using that
  proof (induction bs arbitrary: nh)
    case (Cons b bs)
    then show ?case using step [of b nh] by simp
  qed simp
  from this [OF assms(1), of "configure_declarative_inbound device_id (n, declarative_init)"]
  have "configured (snd (configure_device device_id bindings n))"
    "fst (configure_device device_id bindings n) = fst (configure_declarative_inbound device_id (n, declarative_init))"
    by (simp_all add: configure_device_def configure_declarative_inbound_def set_device_id_def declarative_init_def configured_def)
  then show "configured h" "n' = n\<lparr>nc_command_dispatcher := set_handler True (nc_command_dispatcher n)\<rparr>"
    using assms(2) by (simp_all add: configure_declarative_inbound_def)
qed

lemma device_reach_inv: "device_reach n hw \<Longrightarrow> device_inv n hw"
proof (induction rule: device_reach.induct)
  case (device_configured bindings device_id dual heartbeat diagnostics n h w)
  note c = configure_device_lanes [OF device_configured]
  have "component_inv n" unfolding c(2)
    by (intro component_inv_parts(3) component_init_inv lane_ok_registered component_invD(6) [OF component_init_inv])
  moreover have "device_lanes n (h, w)"
    using declarative.paired_ready [of "(h, w)" False] configured_inv [OF c(1), of w]
    by (simp add: device_lanes_def c(2) component_init_def ready_dispatcher_def set_identity_observer_def set_handler_def
        dispatcher_init_def)
  ultimately show ?case by (simp add: device_inv_def)
next
  case (device_called n hw c)
  then show ?case using apply_call_inv device_lanes_call [of n hw c] by (simp add: device_inv_def)
next
  case (device_set_up n hw high low)
  have "lanes (component_setup high low n) = lanes n"
    by (simp add: component_setup_def configure_protocol_def lanes_def split: prod.split bool.split)
  then show ?case using device_set_up setup_inv device_lanes_keep [of n hw] by (simp add: device_inv_def)
next
  case (device_looped n hw app li n' hw')
  then show ?case using device_loop_inv [of n hw app li] by auto
next
  case (device_received n hw info data len)
  then show ?case
    using component_inv_parts(1) [OF _ receive_callback_inv [OF component_invD(1)]] by (simp add: device_inv_def)
next
  case (device_sent n hw address ok)
  then show ?case
    using component_inv_parts(1) [OF _ send_callback_inv [OF component_invD(1)]] by (simp add: device_inv_def)
next
  case (device_world n h w w')
  have "declarative_inv (h, w') = declarative_inv (h, w)" "declarative_serving (h, w') = declarative_serving (h, w)"
    by (simp_all add: declarative_inv_def declarative_serving_def)
  then show ?case using device_world by (simp add: device_inv_def device_lanes_def paired_def)
qed

subsection \<open>Properties\<close>

lemma device_free:
  assumes "device_inv n (h, w)" and "cd_state (nc_command_dispatcher n) = InboundCommandDispatcherState.IDLE"
  shows "dh_active_binding h = None \<and> \<not> dh_result_ready h"
  using assms
  by (auto simp: device_inv_def device_lanes_def paired_def serves_command_def declarative_inv_def declarative_serving_def
      Let_def split: option.splits)

lemma device_other_lanes:
  assumes "device_inv n hw"
  shows "cd_state (nc_parallel_dispatcher n) \<noteq> ACTIVE" and "cd_state (nc_interrupt_dispatcher n) \<noteq> ACTIVE"
  using component_invD(7,8) [of n] assms by (auto simp: device_inv_def device_lanes_def lane_ok_def serves_command_def)

text \<open>C26 (liveness): a component with declarative bindings keeps serving, if every binding with a
  completion probe has a completion timeout other than zero and no other handler is
  registered, neither by the application nor by an observer. In every state such a component
  can reach, whatever peers send, the application otherwise calls and the platform answers, a
  pass of the loop returns once \<open>setup\<close> has drawn the boot identifier; the handler works on
  exactly the transaction that the ordinary dispatcher serves, and nothing runs on the other
  dispatchers; and when the ordinary dispatcher is idle the handler starts the next command
  or refuses it on its merits, and never answers \<open>BUSY\<close>. The configuration does not refuse a
  timeout of zero, and with it the last part fails.\<close>

theorem device_stays_available:
  assumes "device_reach n (h, w)" and "keeps_handler app"
  shows "(nc_local_boot_id n \<noteq> 0 \<longrightarrow> component_loop declarative_handler app li n (h, w) \<noteq> None) \<and>
    dh_transaction_id h =
      (if serves_command (nc_command_dispatcher n) then cd_transaction_id (nc_command_dispatcher n) else 0) \<and>
    cd_state (nc_parallel_dispatcher n) \<noteq> ACTIVE \<and> cd_state (nc_interrupt_dispatcher n) \<noteq> ACTIVE \<and>
    (cd_state (nc_command_dispatcher n) = InboundCommandDispatcherState.IDLE \<longrightarrow>
       fst (declarative_start c t (h, w)) \<noteq> BUSY)"
proof -
  note inv = device_reach_inv [OF assms(1)]
  have "component_loop declarative_handler app li n (h, w) \<noteq> None" if "nc_local_boot_id n \<noteq> 0"
    using device_loop_inv [OF inv that assms(2), of li] by auto
  moreover have "dh_transaction_id h =
      (if serves_command (nc_command_dispatcher n) then cd_transaction_id (nc_command_dispatcher n) else 0)"
    using inv by (simp add: device_inv_def device_lanes_def paired_def declarative_serving_def)
  moreover have "fst (declarative_start c t (h, w)) \<noteq> BUSY"
    if "cd_state (nc_command_dispatcher n) = InboundCommandDispatcherState.IDLE"
    using device_free [OF inv that] by (auto simp: declarative_start_def Let_def split: option.split)
  ultimately show ?thesis using device_other_lanes [OF inv] by blast
qed

text \<open>C24 (functional): a bound command runs. In a state that satisfies the invariant of a component
  whose probed bindings have a completion timeout other than zero and whose only handler is
  the declarative one, with the ordinary dispatcher idle: when a command has been accepted
  from a peer that decodes, is for the component's device and matches a binding, the step of
  the loop that takes the message, whatever the other dispatchers and options, prepares the
  probe, runs the automation of the first binding that matches exactly once, and has the
  handler and the dispatcher serve the command for that peer.\<close>

theorem device_runs_bound_command:
  assumes "device_inv n (h, w)" and "cd_state (nc_command_dispatcher n) = InboundCommandDispatcherState.IDLE"
    and "peek_application_message (nc_runtime n) = Some im"
    and "env_kind (rm_envelope (im_message im)) = EspNowFrameKind.COMMAND"
    and "command_decode (env_transaction_id (rm_envelope (im_message im))) (Some (rm_data (im_message im))) = Inr c"
    and "dh_device_id h = Some (cmd_device_id c)" and "List.find (binding_matches c) (dh_bindings h) = Some b"
  shows "\<exists>n' h'. process_application_message declarative_handler app now n (h, w) =
      (n', h', db_trigger b (case db_probe b of None \<Rightarrow> w | Some p \<Rightarrow> cp_begin p w)) \<and>
    running c now (nc_command_dispatcher n') \<and> cd_peer_index (nc_command_dispatcher n') = im_peer_index im \<and>
    dh_active_binding h' = Some b \<and> dh_transaction_id h' = cmd_transaction_id c \<and> dh_result_ready h' \<and>
    \<not> rt_application_message_ready (nc_runtime n')"
proof -
  have inv: "component_inv n" using assms(1) by (simp add: device_inv_def)
  note im = peek_fields [OF assms(3)] and free = device_free [OF assms(1,2)]
  obtain rt where take: "take_application_message (nc_runtime n) = (Some im, rt)" using im(6) by (metis prod.collapse)
  let ?n1 = "n\<lparr>nc_runtime := rt\<rparr>" and ?t = "env_transaction_id (rm_envelope (im_message im))"
  let ?w = "db_trigger b (case db_probe b of None \<Rightarrow> w | Some p \<Rightarrow> cp_begin p w)"
  have tx: "?t \<noteq> 0" using held_message_valid [OF component_invD(2) [OF inv] assms(3)] .
  have "im_peer_index im < 16" using im(5) component_invD(4) [OF inv] by simp
  then have peer: "im_peer_index im \<noteq> INVALID_PEER_INDEX" by (auto simp: INVALID_PEER_INDEX_def)
  have kept: "\<not> message_must_wait n" "\<not> only_an_interrupt_fits n"
    using im(2) assms(2,4) by (auto simp: message_must_wait_def only_an_interrupt_fits_def Let_def)
  have run: "process_application_message declarative_handler app now n (h, w) =
      snd (offer_command declarative_handler im now ?n1 (h, w))"
    unfolding process_application_message_def take using kept assms(4) im(1) by simp
  have noint: "accept_interrupt declarative_handler im op now d hw = (False, None, d, hw)" if "cd_state op \<noteq> ACTIVE"
    for op d and hw :: "'a DeclarativeCommandHandler \<times> 'a"
    using that by (simp add: accept_interrupt_def can_accept_interrupt_def)
  have "offer_interrupt declarative_handler im now ?n1 (h, w) = (False, ?n1, h, w)"
    using noint [of _ _ "(h, w)"] assms(2) device_other_lanes(1) [OF assms(1)]
    by (simp add: offer_interrupt_def on_command_identity_def Let_def)
  moreover obtain h' where st: "declarative_start c now (h, w) = (STARTED, h', ?w)" "dh_active_binding h' = Some b"
      "dh_transaction_id h' = cmd_transaction_id c" "dh_result_ready h'"
    using free assms(6,7) by (cases "db_probe b") (auto simp: declarative_start_def complete_success_def Let_def)
  moreover obtain seen d where "dispatcher_accept declarative_handler im now (nc_command_dispatcher n) (h, w) =
      (True, seen, d, h', ?w)" "running c now d" "cd_peer_index d = im_peer_index im"
    using assms(1,2,4,5) st(1) tx peer command_decode_Inr(3) [OF assms(5)]
    by (auto simp: dispatcher_accept_def declarative_handler_def running_def device_inv_def device_lanes_def paired_def Let_def)
  ultimately show ?thesis using run im(7) take by (simp add: offer_command_def Let_def)
qed

subsection \<open>Witnesses\<close>

text \<open>A lamp whose component holds the command \<open>B\<close> for device \<open>A\<close>.\<close>

abbreviation (input) lamp_message :: bytes where
  "lamp_message \<equiv> [1, 1, 0, 1, 0, 0, 0, 0, 0, 1, 65, 66]"

definition example_device_component :: NetComponent where
  "example_device_component =
     (example_component EspNowFrameKind.COMMAND lamp_message)\<lparr>nc_command_dispatcher := ready_dispatcher False\<rparr>"

lemma example_lamp_inv: "device_inv example_device_component (example_lamp 2000, example_world)"
proof -
  note c = configured_inv [OF example_lamp_configured, of 2000 example_world]
  note paired = declarative.paired_ready [of "(example_lamp 2000, example_world)" False]
  have "component_inv (example_component EspNowFrameKind.COMMAND lamp_message)" by (rule example_component_inv) simp_all
  moreover have "lane_ok (ready_dispatcher False)" using paired c by (simp add: lane_ok_def paired_def)
  ultimately have "component_inv example_device_component"
    unfolding example_device_component_def by (rule component_inv_parts(3))
  then show ?thesis
    using paired c
    by (simp add: device_inv_def device_lanes_def example_device_component_def)
      (simp add: example_component_def component_init_def dispatcher_init_def)
qed

lemma device_runs_bound_command_witness:
  "\<exists>n' h' w'. process_application_message declarative_handler (\<lambda>_. []) 50 example_device_component
      (example_lamp 2000, example_world) = (n', h', w') \<and> snd w' \<and> dh_active_binding h' = Some (example_binding 2000)"
proof -
  let ?c = "\<lparr>cmd_transaction_id = 9, cmd_device_id = [65], cmd_resource = [], cmd_name = [66],
      cmd_payload = [], cmd_source_device_id = [], cmd_source_boot_id = 0, cmd_timeout_ms = 1\<rparr>"
  let ?im = "\<lparr>im_peer_index = 5, im_message = \<lparr>rm_envelope = example_envelope EspNowFrameKind.COMMAND, rm_data = lamp_message\<rparr>\<rparr>"
  have "peek_application_message (nc_runtime example_device_component) = Some ?im"
    using example_runtime_holds(3) [of EspNowFrameKind.COMMAND lamp_message] by (simp add: example_device_component_def)
  moreover have "command_decode 9 (Some lamp_message) = Inr ?c"
    by (simp add: command_decode_def command_sizes_invalid_def command_identity_def command_fields_def
        copy_text_def text_assign_def text_accepts_def bytes_assign_def bytes_accepts_def c_str_of_def
        get_u16_def get_u32_def upt_4 segment_def NetCommand_valid_def)
  moreover have "List.find (binding_matches ?c) (dh_bindings (example_lamp 2000)) = Some (example_binding 2000)"
    by (simp add: example_lamp_def add_binding_def set_device_id_def declarative_init_def
        MAX_BINDINGS_def example_binding_def binding_matches_def)
  moreover have "cd_state (nc_command_dispatcher example_device_component) = InboundCommandDispatcherState.IDLE"
    by (simp add: example_device_component_def ready_dispatcher_def set_identity_observer_def set_handler_def dispatcher_init_def)
  ultimately have "\<exists>n' h'. process_application_message declarative_handler (\<lambda>_. []) 50 example_device_component
      (example_lamp 2000, example_world) = (n', h', db_trigger (example_binding 2000)
        (case db_probe (example_binding 2000) of None \<Rightarrow> example_world | Some p \<Rightarrow> cp_begin p example_world)) \<and>
      dh_active_binding h' = Some (example_binding 2000)"
    using device_runs_bound_command [OF example_lamp_inv, of ?im ?c "example_binding 2000" "\<lambda>_. []" 50]
    by (auto simp: example_envelope_def example_lamp_find(2))
  then show ?thesis by (auto simp: example_binding_def light_probe_def example_world_def split: prod.split)
qed

lemma device_stays_available_witness:
  "fst (declarative_start NetCommand_init 7 (snd (configure_device (Some [65]) [example_binding 2000]
     (component_init False False False)), example_world)) \<noteq> BUSY"
proof -
  let ?d = "configure_device (Some [65]) [example_binding 2000] (component_init False False False)"
  have "binding_ok (example_binding 2000)"
    using light_probe.completion_probe_axioms by (simp add: binding_ok_def example_binding_def)
  then have "device_reach (fst ?d) (snd ?d, example_world)"
    using device_configured [of "[example_binding 2000]" "Some [65]" False False False "fst ?d" "snd ?d" example_world] by simp
  then show ?thesis
    using device_stays_available [of "fst ?d" "snd ?d" example_world "\<lambda>_. []"] configure_device_lanes(2)
      [of "[example_binding 2000]" "Some [65]" "component_init False False False" "fst ?d" "snd ?d"] \<open>binding_ok _\<close>
    by (simp add: keeps_handler_def component_init_def set_handler_def dispatcher_init_def)
qed

end
