(* ===== verification/Diagnosed_Component.thy ===== *)
theory Diagnosed_Component
  imports Radio_Diagnostics Component_Loop
begin

text \<open>
  The component in a build with \<open>USE_ESPNOW_NET_PROTOCOL_DIAGNOSTICS\<close>: the diagnostics object of
  \<open>Radio_Diagnostics\<close> beside the component of \<open>Net_Component\<close>, called from \<open>setup\<close>, from every pass
  of \<open>loop\<close>, from \<open>dump_config\<close> and from the two shutdown hooks. The lines of \<open>dump_config\<close> and
  of a sample are the values given to the log, in the order of the format.
\<close>

record ('r, 'e) DiagnosedComponent =
  dc_component :: NetComponent
  dc_diagnostics :: "('r, 'e) RadioDiagnostics"

datatype log_value = Text string | Count nat | Flag bool | Error esp_err

definition log_sample :: "string \<Rightarrow> RadioDiagnosticSample \<Rightarrow> log_value list" where
  "log_sample source s =
     (let flag = (\<lambda>f. Flag (has_flag f (ds_flags s)))
      in [Text source, Count (unat (ds_uptime_ms s)), flag DRIVER_STARTED, flag STA_STARTED, flag ASSOCIATED,
          flag WIFI_CONNECTED, flag API_CONNECTED, flag MQTT_CONNECTED, Count (unat (ds_mode s)),
          Count (unat (ds_channel s)), Error (ds_channel_error s), Count (unat (ds_wifi_state s)),
          Count (unat (ds_arbitration s)), flag SUPPRESSION_REQUESTED, flag SUPPRESSION_ACTIVE,
          flag ESPNOW_INITIALIZED, flag RECOVERY_PENDING, flag RECOVERY_RUNNING, flag RECOVERY_PERMITTED,
          Count (unat (ds_disconnect_reason s)), Count (unat (ds_rx s)), Count (unat (ds_tx s)),
          Count (unat (ds_failed s)), Count (unat (ds_stops s)), Count (unat (ds_max_loop_gap_ms s)),
          Error (ds_init_error s), Error (ds_association_error s)])"

primrec client_state_code :: "CommandClientState \<Rightarrow> nat" where
  "client_state_code CommandClientState.IDLE = 0"
| "client_state_code CommandClientState.WAITING_FOR_DELIVERY_ACK = 1"
| "client_state_code CommandClientState.WAITING_FOR_RESULT = 2"

text \<open>\<open>bindings\<close> is the number of declarative bindings in a build with them.\<close>

definition config_lines :: "nat option \<Rightarrow> NetComponent \<Rightarrow> log_value list list" where
  "config_lines bindings n =
     (let r = nc_radio n in
      [Text (if nr_initialized r then ''READY'' else ''WAITING''),
       Text (if nc_runtime_enabled n then ''ENABLED'' else ''DISABLED''),
       Count (unat (nr_expected_channel r)), Count (unat (nr_current_channel r)), Count (pr_size (nr_peers r)),
       Flag (nr_channel_matches r), Count (unat (nr_received_frame_count r)), Count (unat (nr_dropped_frame_count r)),
       Count (unat (nr_sent_frame_count r)), Count (unat (nr_failed_send_count r)),
       Count (unat (nr_peer_refresh_success_count r)), Count (unat (nr_peer_refresh_failure_count r)),
       Count (unat (nr_radio_recovery_success_count r)), Count (unat (nr_radio_recovery_failure_count r)),
       Count (unat (nc_result_delivery_success_count n)), Count (unat (nc_result_delivery_failure_count n)),
       Count (client_state_code (cc_state (nc_client n))), Count (unat (nc_command_client_progress_count n)),
       Count (unat (nc_command_client_success_count n)), Count (unat (nc_command_client_failure_count n)),
       Count (unat (nc_command_client_cancel_count n))] #
      (case bindings of None \<Rightarrow> [] | Some k \<Rightarrow> [[Count k]]))"

definition diagnosed_dump_config ::
    "u32 \<Rightarrow> nat option \<Rightarrow> ('r, 'e) DiagnosedComponent \<Rightarrow> log_value list list \<times> ('r, 'e) DiagnosedComponent" where
  "diagnosed_dump_config millis bindings x =
     (config_lines bindings (dc_component x), x\<lparr>dc_diagnostics := request_dump millis (dc_diagnostics x)\<rparr>)"

definition diagnosed_setup ::
    "u32 \<Rightarrow> u32 \<Rightarrow> u32 \<Rightarrow> u32 \<Rightarrow> ('r, 'e) DiagnosedComponent \<Rightarrow> ('r, 'e) DiagnosedComponent" where
  "diagnosed_setup random reset_reason high low x =
     (let x1 = x\<lparr>dc_diagnostics := diagnostics_setup random reset_reason (dc_diagnostics x)\<rparr>
      in x1\<lparr>dc_component := component_setup high low (dc_component x1)\<rparr>)"

text \<open>\<open>on_safe_shutdown\<close> and \<open>on_shutdown\<close> have the same body; the second component is what is saved.\<close>

definition diagnosed_shutdown ::
    "('r, 'e, 'v) DiagnosticRings \<Rightarrow> bool \<Rightarrow> 'e DiagnosticPlatform \<Rightarrow> u32 \<Rightarrow> ('r, 'e) DiagnosedComponent \<Rightarrow>
     ('r, 'e) DiagnosedComponent \<times> ('r, 'e) RadioDiagnosticHistory option" where
  "diagnosed_shutdown rings preferences p millis x =
     (let (d, saved) = save_before_shutdown rings preferences p millis (nc_radio (dc_component x)) (dc_diagnostics x)
      in (x\<lparr>dc_diagnostics := d\<rparr>, saved))"

text \<open>A pass of the loop with the diagnostics between the radio and the heartbeat. The first result
  is the event given to the Wi-Fi component and the lines of the replay; the state is
  \<open>None\<close> when the pass would dereference a null handler.\<close>

definition diagnosed_loop ::
    "('r, 'e, 'v) DiagnosticRings \<Rightarrow> 'e DiagnosticPlatform \<Rightarrow> ('r, 'e) RadioDiagnosticHistory option \<Rightarrow> u32 \<Rightarrow>
     'h NetCommandHandler \<Rightarrow> (observer_call \<Rightarrow> component_call list) \<Rightarrow> LoopInput \<Rightarrow>
     ('r, 'e) DiagnosedComponent \<Rightarrow> 'h \<Rightarrow>
     ((u16 \<times> u8) option \<times> ('r, 'e, 'v) replay_line list) \<times> (('r, 'e) DiagnosedComponent \<times> 'h) option" where
  "diagnosed_loop rings p stored millis handler app li x h =
     (let n = dc_component x; permitted = recovery_permitted n;
          n1 = n\<lparr>nc_recovery := reconnect_peer_recovery_tick (li_idf li) (li_log_connected li) (li_wifi_disabled li)
                   (nc_runtime_enabled n \<and> \<not> nc_failed n) (li_tick_ms li) permitted (nc_radio n) (nc_recovery n)\<rparr>;
          n2 = n1\<lparr>nc_radio := radio_loop (li_idf li) (li_now_ms li) (set_recovery_permitted permitted (nc_radio n1))\<rparr>;
          (event, lines, d) = diagnostics_loop rings p stored (li_now_ms li) millis (nc_radio n2) (dc_diagnostics x);
          n3 = component_heartbeat_tick (li_now_ms li) n2;
          after = (\<lambda>m. x\<lparr>dc_component := m, dc_diagnostics := d\<rparr>)
      in ((event, lines),
          if \<not> nr_initialized (nc_radio n3) \<or> nc_failed n3 then Some (after n3, h)
          else if \<not> nc_runtime_enabled n3 then Some (after (discard_radio_events n3), h)
          else case loop_inbound handler app li n3 h of None \<Rightarrow> None
            | Some (n4, h1) \<Rightarrow> Some (after (loop_outbound li n4), h1)))"

subsection \<open>The diagnostics only observe\<close>

lemma heartbeat_tick_radio [simp]: "nc_radio (component_heartbeat_tick now n) = nc_radio n"
  by (simp add: component_heartbeat_tick_def Let_def)

text \<open>The component goes through the same states as in a build without diagnostics, and the
  diagnostics sample the radio as the pass of its driver left it, in every pass: also when
  the radio is not initialized, the component has failed or the runtime is switched off.\<close>

lemma diagnosed_loop_component:
  "diagnosed_loop rings p stored millis handler app li x h =
     (let (event, lines, d) = diagnostics_loop rings p stored (li_now_ms li) millis
            (nc_radio (loop_supervision li (dc_component x))) (dc_diagnostics x)
      in ((event, lines), map_option (\<lambda>(n, h'). (x\<lparr>dc_component := n, dc_diagnostics := d\<rparr>, h'))
            (component_loop handler app li (dc_component x) h)))"
  by (simp add: diagnosed_loop_def component_loop_def loop_supervision_def Let_def split: prod.split option.split)

subsection \<open>What a sample shows\<close>

lemma flag_bit_disjoint: "flag_bit g AND flag_bit f = (if f = g then flag_bit f else 0)"
  by (cases f; cases g) simp_all

lemma flag_bit_nonzero: "flag_bit f \<noteq> 0"
  by (cases f) simp_all

lemma has_flag_set [simp]: "has_flag f (ds_flags (set_flag b g s)) = (b \<and> f = g \<or> has_flag f (ds_flags s))"
proof -
  have "(ds_flags s OR flag_bit g) AND flag_bit f = (ds_flags s AND flag_bit f) OR (if f = g then flag_bit f else 0)"
    by (simp add: flag_bit_disjoint [symmetric] bit.conj_disj_distrib2)
  then show ?thesis using flag_bit_nonzero [of f] by (auto simp: has_flag_def set_flag_def or_eq_0_iff)
qed

lemma set_flag_fields [simp]:
  "ds_uptime_ms (set_flag b g s) = ds_uptime_ms s" "ds_max_loop_gap_ms (set_flag b g s) = ds_max_loop_gap_ms s"
  "ds_channel_error (set_flag b g s) = ds_channel_error s" "ds_channel (set_flag b g s) = ds_channel s"
  "ds_association_error (set_flag b g s) = ds_association_error s"
  by (simp_all add: set_flag_def)

text \<open>What each flag of a sample stands for; without a Wi-Fi component its states are false.\<close>

definition wifi_state :: "('e WifiView \<Rightarrow> bool) \<Rightarrow> 'e DiagnosticPlatform \<Rightarrow> bool" where
  "wifi_state f p = (case dp_wifi p of None \<Rightarrow> False | Some w \<Rightarrow> f w)"

primrec flag_state :: "'e DiagnosticPlatform \<Rightarrow> EspIdfEspNowEncryptedRadio \<Rightarrow> RadioDiagnosticFlag \<Rightarrow> bool" where
  "flag_state p radio DRIVER_STARTED = wifi_state wv_driver_started p"
| "flag_state p radio STA_STARTED = wifi_state wv_sta_started p"
| "flag_state p radio ASSOCIATED = (dp_association_error p = ESP_OK)"
| "flag_state p radio WIFI_CONNECTED = wifi_state wv_connected p"
| "flag_state p radio SUPPRESSION_REQUESTED = wifi_state wv_suppression_requested p"
| "flag_state p radio SUPPRESSION_ACTIVE = wifi_state wv_suppression_active p"
| "flag_state p radio ESPNOW_INITIALIZED = nr_initialized radio"
| "flag_state p radio API_CONNECTED = (dp_api p = Some True)"
| "flag_state p radio MQTT_CONNECTED = dp_mqtt_connected p"
| "flag_state p radio CONNECTING = wifi_state wv_connecting p"
| "flag_state p radio RECOVERY_PENDING = nr_radio_recovery_pending radio"
| "flag_state p radio RECOVERY_RUNNING = nr_radio_recovery_in_progress radio"
| "flag_state p radio RECOVERY_PERMITTED = nr_recovery_permitted radio"
| "flag_state p radio MODE_VALID = (dp_mode p \<noteq> None)"

lemma captured_flags [simp]:
  "has_flag f (ds_flags (diagnostics_capture p now radio d)) = flag_state p radio f"
proof -
  have init: "\<not> has_flag g (ds_flags RadioDiagnosticSample_init)" for g
    by (simp add: has_flag_def RadioDiagnosticSample_init_def)
  show ?thesis
    by (cases f)
      (simp_all add: diagnostics_capture_def capture_radio_def capture_driver_def capture_wifi_def wifi_state_def init
        Let_def split: option.split)
qed

text \<open>The line printed for a captured sample shows every state as it was at the capture.\<close>

lemma captured_sample_line:
  "log_sample source (diagnostics_capture p now radio d) =
     (let s = diagnostics_capture p now radio d; flag = (\<lambda>f. Flag (flag_state p radio f))
      in [Text source, Count (unat now), flag DRIVER_STARTED, flag STA_STARTED, flag ASSOCIATED,
          flag WIFI_CONNECTED, flag API_CONNECTED, flag MQTT_CONNECTED, Count (unat (ds_mode s)),
          Count (if dp_channel_error p = ESP_OK then unat (dp_channel p) else 0), Error (dp_channel_error p),
          Count (unat (ds_wifi_state s)), Count (unat (arbitration_code (nr_wifi_arbitration_state radio))),
          flag SUPPRESSION_REQUESTED, flag SUPPRESSION_ACTIVE,
          flag ESPNOW_INITIALIZED, flag RECOVERY_PENDING, flag RECOVERY_RUNNING, flag RECOVERY_PERMITTED,
          Count (unat (ds_disconnect_reason s)), Count (unat (nr_received_frame_count radio)),
          Count (unat (nr_sent_frame_count radio)), Count (unat (nr_failed_send_count radio)),
          Count (unat (ds_stops s)), Count (unat (dg_max_loop_gap d)),
          Error (nr_last_initialization_error radio), Error (dp_association_error p)])"
proof -
  have "ds_uptime_ms (diagnostics_capture p now radio d) = now"
    "ds_max_loop_gap_ms (diagnostics_capture p now radio d) = dg_max_loop_gap d"
    "ds_channel_error (diagnostics_capture p now radio d) = dp_channel_error p"
    "ds_association_error (diagnostics_capture p now radio d) = dp_association_error p"
    "ds_init_error (diagnostics_capture p now radio d) = nr_last_initialization_error radio"
    "ds_channel (diagnostics_capture p now radio d) = (if dp_channel_error p = ESP_OK then dp_channel p else 0)"
    "ds_arbitration (diagnostics_capture p now radio d) = arbitration_code (nr_wifi_arbitration_state radio)"
    "ds_rx (diagnostics_capture p now radio d) = nr_received_frame_count radio"
    "ds_tx (diagnostics_capture p now radio d) = nr_sent_frame_count radio"
    "ds_failed (diagnostics_capture p now radio d) = nr_failed_send_count radio"
    by (simp_all add: diagnostics_capture_def capture_radio_def capture_driver_def capture_wifi_def
        RadioDiagnosticSample_init_def Let_def split: option.split)
  then show ?thesis by (simp add: log_sample_def Let_def)
qed

end
