(* ===== verification/Radio_Sources.thy ===== *)
theory Radio_Sources
  imports Encrypted_Radio
begin

text \<open>
  Where the frames come from that the driver hands to the protocol: every one of them was
  given to the receive callback with the address of the registered peer it is attributed to.
  The receive ring is followed slot by slot, so that this also holds when its counters wrap.
\<close>

subsection \<open>The slots of a ring\<close>

text \<open>A slot holds a value that was pushed, unless the counters never reached it.\<close>

definition slots_written :: "('a \<Rightarrow> bool) \<Rightarrow> 'a EspNowSpscQueue \<Rightarrow> bool" where
  "slots_written P q \<longleftrightarrow>
     (\<forall>i < length (q_entries q). P (q_entries q ! i) \<or> unat (q_head q) \<le> i \<and> unat (q_tail q) \<le> unat (q_head q))"

lemma slots_written_init: "slots_written P (queue_init cap d)"
  by (simp add: slots_written_def queue_init_def)

lemma slots_written_mono: "slots_written P q \<Longrightarrow> (\<And>x. P x \<Longrightarrow> Q x) \<Longrightarrow> slots_written Q q"
  by (auto simp: slots_written_def)

lemma slots_written_drain: "slots_written P q \<Longrightarrow> slots_written P (queue_drain cap q)"
  by (auto simp: slots_written_def queue_drain_eq)

lemma slots_written_push:
  assumes "slots_written P q" and "P v" and "length (q_entries q) = cap" and "cap < 2 ^ 32 - 1"
    and "queue_push cap v q = (ok, q')"
  shows "slots_written P q'"
proof (cases ok)
  case True
  then have q': "q' = q\<lparr>q_entries := (q_entries q)[unat (q_head q) mod cap := v], q_head := q_head q + 1\<rparr>"
    using assms(5) by (auto simp: queue_push_def split: if_splits)
  have "P (q_entries q' ! i) \<or> unat (q_head q') \<le> i \<and> unat (q_tail q') \<le> unat (q_head q')" if "i < cap" for i
  proof (cases "i = unat (q_head q) mod cap \<or> P (q_entries q ! i)")
    case True
    then show ?thesis using assms(2,3) that by (auto simp: q' nth_list_update)
  next
    case False
    then have h: "unat (q_head q) \<le> i" "unat (q_tail q) \<le> unat (q_head q)"
      using assms(1,3) that by (auto simp: slots_written_def)
    then have "unat (q_head q) \<noteq> i" using False that by auto
    moreover have "unat (q_head q + 1) = unat (q_head q) + 1"
      using h(1) that assms(4) by (simp add: unat_word_ariths)
    ultimately show ?thesis using h by (simp add: q')
  qed
  then show ?thesis using assms(3) by (simp add: slots_written_def q')
qed (use assms in \<open>simp add: queue_push_def split: if_splits\<close>)

lemma slots_written_pop:
  assumes "slots_written P q" and "length (q_entries q) = cap" and "0 < cap" and "queue_pop cap q = (v, q')"
  shows "slots_written P q'" and "\<And>x. v = Some x \<Longrightarrow> P x"
proof -
  have "P (q_entries q ! (unat (q_tail q) mod cap))" if "q_tail q \<noteq> q_head q"
  proof (rule ccontr)
    let ?i = "unat (q_tail q) mod cap"
    assume "\<not> P (q_entries q ! ?i)"
    moreover have "?i < cap" using assms(3) by simp
    ultimately have "unat (q_head q) \<le> ?i" "unat (q_tail q) \<le> unat (q_head q)"
      using assms(1,2) by (auto simp: slots_written_def)
    moreover have "?i \<le> unat (q_tail q)" by simp
    ultimately have "unat (q_tail q) = unat (q_head q)" by linarith
    with that show False by (simp add: word_unat_eq_iff)
  qed
  then show "\<And>x. v = Some x \<Longrightarrow> P x" using assms(4) by (auto simp: queue_pop_def split: if_splits)
  have "unat (q_tail q + 1) \<le> unat (q_head q)" if "q_tail q \<noteq> q_head q" "unat (q_tail q) \<le> unat (q_head q)"
    using that word_unat_eq_iff [of "q_tail q" "q_head q"] unat_plus_one [of "q_tail q"]
    by (cases "q_tail q = - 1") auto
  then show "slots_written P q'"
    using assms(1,4) by (auto simp: slots_written_def queue_pop_def split: if_splits)
qed

subsection \<open>What the driver does with its queues\<close>

text \<open>The peers stay, and the queues either stay or are drained together.\<close>

definition keeps_queues :: "EspIdfEspNowEncryptedRadio \<Rightarrow> EspIdfEspNowEncryptedRadio \<Rightarrow> bool" where
  "keeps_queues r r' \<longleftrightarrow>
     nr_peers r' = nr_peers r \<and>
     (nr_received_frames r' = nr_received_frames r \<and> nr_send_completions r' = nr_send_completions r \<or>
      nr_received_frames r' = queue_drain RX_QUEUE_CAPACITY (nr_received_frames r) \<and>
      nr_send_completions r' = queue_drain SEND_COMPLETION_QUEUE_CAPACITY (nr_send_completions r))"

lemma keeps_queues_refl [simp]: "keeps_queues r r"
  by (simp add: keeps_queues_def)

lemma wifi_keeps:
  "nr_peers (observe_wifi_association idf now r) = nr_peers r"
  "nr_received_frames (observe_wifi_association idf now r) = nr_received_frames r"
  "nr_send_completions (observe_wifi_association idf now r) = nr_send_completions r"
  "nr_peers (process_wifi_arbitration idf now r) = nr_peers r"
  "nr_received_frames (process_wifi_arbitration idf now r) = nr_received_frames r"
  "nr_send_completions (process_wifi_arbitration idf now r) = nr_send_completions r"
  by (auto simp: observe_wifi_association_def process_wifi_arbitration_def schedule_wifi_arbitration_grace_def
      release_wifi_reconnect_suppression_def Let_def split: WiFiArbitrationState.split)

lemma initialize_keeps:
  "nr_peers (snd (radio_initialize idf r)) = nr_peers r \<and>
   nr_received_frames (snd (radio_initialize idf r)) = nr_received_frames r \<and>
   nr_send_completions (snd (radio_initialize idf r)) = nr_send_completions r"
proof -
  obtain ok r2 where r2: "add_all_peers idf 0 (r\<lparr>nr_instance := ThisInstance, nr_last_initialization_error := ESP_OK\<rparr>) = (ok, r2)"
    by fastforce
  then obtain e where e: "r2 = r\<lparr>nr_instance := ThisInstance, nr_last_initialization_error := e\<rparr>"
    using add_all_peers_same [OF r2] by auto
  show ?thesis using r2 unfolding e
    by (cases ok) (auto simp: radio_initialize_def rollback_initialization_def Let_def)
qed

lemma refresh_keeps:
  "nr_peers (process_peer_refresh idf now r) = nr_peers r \<and>
   nr_received_frames (process_peer_refresh idf now r) = nr_received_frames r \<and>
   nr_send_completions (process_peer_refresh idf now r) = nr_send_completions r"
  by (auto simp: process_peer_refresh_def Let_def split: option.split prod.split bool.split dest!: refresh_peer_same)

lemma recovery_keeps: "process_radio_recovery idf now r = (ok, r1) \<Longrightarrow> keeps_queues r r1 \<and> (\<not> ok \<longrightarrow> r1 = r)"
  by (auto simp: process_radio_recovery_def shutdown_radio_def keeps_queues_def Let_def split: if_splits)

lemma supervise_keeps: "keeps_queues r (radio_supervise idf now r)"
proof -
  obtain ok r1 where r1: "process_radio_recovery idf now r = (ok, r1)" by fastforce
  show ?thesis
    using recovery_keeps [OF r1] r1 refresh_keeps [of idf now r]
      initialize_keeps [of idf "r\<lparr>nr_last_initialization_attempt_ms := now\<rparr>"]
    by (cases ok) (auto simp: radio_supervise_def keeps_queues_def)
qed

lemma radio_loop_keeps: "keeps_queues r (radio_loop idf now r)"
proof -
  define r1 where "r1 = process_wifi_arbitration idf now
    (observe_wifi_association idf now (r\<lparr>nr_last_channel_poll_ms := now\<rparr>))"
  have r1: "nr_peers r1 = nr_peers r" "nr_received_frames r1 = nr_received_frames r"
    "nr_send_completions r1 = nr_send_completions r"
    by (simp_all add: r1_def wifi_keeps)
  show ?thesis
  proof (cases "idf_channel idf")
    case None
    then show ?thesis using r1 by (simp add: radio_loop_def keeps_queues_def Let_def flip: r1_def)
  next
    case (Some c)
    let ?r3 = "r1\<lparr>nr_current_channel := c, nr_channel_matches := (c = nr_expected_channel r1), nr_channel_mismatch_reported := False\<rparr>"
    have "keeps_queues r (radio_supervise idf now ?r3)"
      using supervise_keeps [of ?r3 idf now] r1 by (simp add: keeps_queues_def)
    then show ?thesis using r1 Some
      by (auto simp: radio_loop_def Let_def simp flip: r1_def) (simp_all add: keeps_queues_def)
  qed
qed

lemma small_requests_keep:
  "keeps_queues r (snd (radio_send_frame idf p d r))" "keeps_queues r (snd (request_peer_refresh p r))"
  "keeps_queues r (snd (request_radio_recovery idf now r))" "keeps_queues r (set_recovery_permitted b r)"
  "keeps_queues r (snd (radio_configure c k r))"
  by (auto simp: radio_send_frame_def request_peer_refresh_def request_radio_recovery_def set_recovery_permitted_def
      radio_configure_def keeps_queues_def split: option.split prod.split bool.split)

subsection \<open>Genuine frames\<close>

text \<open>The frame \<open>f\<close> was received in one of the callbacks among the events, from the address of
  the peer registered at the index it carries.\<close>

definition genuine :: "radio_event list \<Rightarrow> PeerRegistry \<Rightarrow> EspNowReceivedFrame \<Rightarrow> bool" where
  "genuine es peers f \<longleftrightarrow>
     (\<exists>p src rx d len. registry_peer (rf_peer_index f) peers = Some p \<and>
        NReceived (Some (src, rx)) (Some d) len \<in> set es \<and>
        peer_address p = take MAC_SIZE src \<and> rf_frame f = take (nat len) d)"

lemma genuine_more: "genuine es peers f \<Longrightarrow> set es \<subseteq> set es' \<Longrightarrow> genuine es' peers f"
  unfolding genuine_def by blast

lemma scan_peers_sound:
  "pr_size r \<le> 16 \<Longrightarrow> scan_peers hit r i = k \<Longrightarrow> k \<noteq> INVALID_PEER_INDEX \<Longrightarrow>
     unat k < pr_size r \<and> hit (pr_peers r ! unat k)"
proof (induction hit r i rule: scan_peers.induct)
  case (1 hit r i)
  then show ?case
    by (cases "i < pr_size r")
      (auto simp: scan_peers.simps [of hit r i] unat_of_nat split: if_splits)
qed

lemma find_address_sound:
  assumes "registry_wf (nr_peers r)" and "find_peer_index_by_address src r = Some k"
  shows "\<exists>p. registry_peer k (nr_peers r) = Some p \<and> peer_address p = take MAC_SIZE src"
  using assms scan_peers_sound [of "nr_peers r" "\<lambda>p. peer_address p = take MAC_SIZE src" 0 k]
  by (auto simp: find_peer_index_by_address_def index_for_address_def registry_peer_def registry_wf_def Let_def
      split: if_splits)

lemma registry_add_keeps:
  "registry_wf r \<Longrightarrow> registry_peer i r = Some p \<Longrightarrow> registry_peer i (snd (registry_add q r)) = Some p"
  by (auto simp: registry_add_def registry_peer_def split: if_splits)

definition sources :: "radio_event list \<Rightarrow> EspIdfEspNowEncryptedRadio \<Rightarrow> bool" where
  "sources es r \<longleftrightarrow> slots_written (genuine es (nr_peers r)) (nr_received_frames r)"

lemma sources_keep: "sources es r \<Longrightarrow> keeps_queues r r' \<Longrightarrow> sources es r'"
  by (auto simp: sources_def keeps_queues_def slots_written_drain)

lemma sources_more: "sources es r \<Longrightarrow> sources (es @ [e]) r"
  using genuine_more [of es _ _ "es @ [e]"] by (auto simp: sources_def elim!: slots_written_mono)

lemma radio_inv_rx: "radio_inv r \<Longrightarrow> registry_wf (nr_peers r) \<and> length (q_entries (nr_received_frames r)) = 3"
  by (simp add: radio_inv_def queues_ok_def)

lemma sources_add_peer:
  assumes "sources es r" and "registry_wf (nr_peers r)"
  shows "sources es (snd (radio_add_peer d a k r))"
proof -
  have "slots_written (genuine es (snd (registry_add p (nr_peers r)))) (nr_received_frames r)" for p
    using assms registry_add_keeps [OF assms(2)]
    by (auto simp: sources_def genuine_def elim!: slots_written_mono) blast
  then have "slots_written (genuine es ps) (nr_received_frames r)" if "registry_add p (nr_peers r) = (b, ps)" for p b ps
    using that by (metis snd_conv)
  then show ?thesis
    using assms(1) by (auto simp: radio_add_peer_def sources_def Let_def split: prod.split)
qed

lemma sources_receive:
  assumes "sources es r" and "radio_inv r"
  shows "sources (es @ [NReceived info data len]) (receive_callback info data len r)"
proof -
  have push: "slots_written (genuine (es @ [NReceived (Some (src, rx)) (Some d) len]) (nr_peers r)) q"
    if "find_peer_index_by_address src r = Some k" "bytes_assign 250 (Some d) (nat len) = (True, frame)" "\<not> 250 < len"
      "queue_push 3 \<lparr>rf_peer_index = k, rf_frame = frame, rf_rssi = x, rf_channel = c\<rparr> (nr_received_frames r) = (True, q)"
    for src rx d k frame x c q
  proof -
    let ?es = "es @ [NReceived (Some (src, rx)) (Some d) len]"
    let ?f = "\<lparr>rf_peer_index = k, rf_frame = frame, rf_rssi = x, rf_channel = c\<rparr>"
    have len: "length (q_entries (nr_received_frames r)) = 3" using radio_inv_rx [OF assms(2)] by blast
    have frame: "frame = take (nat len) d" using that(2,3) bytes_assign_take [of "nat len" 250 d] by simp
    note found = find_address_sound [OF _ that(1)]
    obtain p where p: "registry_peer k (nr_peers r) = Some p" "peer_address p = take MAC_SIZE src"
      using found radio_inv_rx [OF assms(2)] by blast
    have "genuine ?es (nr_peers r) ?f"
      unfolding genuine_def by (intro exI conjI) (use p frame in \<open>simp_all, blast?\<close>)
    moreover have "slots_written (genuine ?es (nr_peers r)) (nr_received_frames r)"
      using sources_more [OF assms(1)] by (simp add: sources_def)
    ultimately show ?thesis using slots_written_push [OF _ _ len _ that(4)] by simp
  qed
  have same: "sources (es @ [NReceived info data len]) r" by (rule sources_more [OF assms(1)])
  have "nr_peers (receive_callback info data len r) = nr_peers r"
    by (auto simp: receive_callback_def Let_def split: option.split prod.split bool.split)
  with same show ?thesis
    by (auto simp: receive_callback_def sources_def Let_def intro: push
        split: option.splits prod.splits bool.splits if_splits)
qed

lemma sources_step:
  assumes "sources es r" and "radio_inv r"
  shows "sources (es @ [e]) (radio_step e r)"
proof (cases e)
  case (NAddPeer d a k)
  then show ?thesis using sources_add_peer [OF sources_more [OF assms(1)]] radio_inv_rx [OF assms(2)] by simp
next
  case (NReceived info data len)
  then show ?thesis using sources_receive [OF assms] by simp
next
  case NTakeFrame
  obtain v q where q: "queue_pop 3 (nr_received_frames r) = (v, q)" by fastforce
  have "slots_written (genuine (es @ [e]) (nr_peers r)) q"
    using sources_more [OF assms(1)] radio_inv_rx [OF assms(2)]
    by (auto simp: sources_def intro: slots_written_pop(1) [OF _ _ _ q])
  then show ?thesis
    using NTakeFrame q by (simp add: sources_def take_received_frame_def)
next
  case NTakeCompletion
  then show ?thesis using sources_more [OF assms(1)] by (simp add: sources_def take_send_completion_def split: prod.split)
next
  case (NSent a ok)
  have "nr_peers (send_callback a ok r) = nr_peers r \<and> nr_received_frames (send_callback a ok r) = nr_received_frames r"
    by (auto simp: send_callback_def Let_def split: option.split prod.split bool.split)
  then show ?thesis using NSent sources_more [OF assms(1)] by (simp add: sources_def)
qed (simp_all add: radio_send_frame_to_def sources_keep [OF sources_more [OF assms(1)]] radio_loop_keeps
    small_requests_keep)

lemma sources_run: "sources es (run_events radio_step es radio_init)"
proof (induction es rule: rev_induct)
  case Nil
  show ?case by (simp add: sources_def radio_init_def slots_written_init)
next
  case (snoc e es)
  then show ?case using sources_step [OF snoc radio_machine.inv_run] by (simp add: run_events_append)
qed

text \<open>A device that is configured with one peer, whose radio comes up at the second poll of the
  channel, and that receives a frame from the peer.\<close>

definition example_reception :: "radio_event list" where
  "example_reception =
     [NConfigure 6 (Some (replicate 32 48)),
      NAddPeer (Some [65]) (Some [48, 49, 58, 48, 50, 58, 48, 51, 58, 48, 52, 58, 48, 53, 58, 48, 54])
        (Some (replicate 32 49)),
      NLoop example_idf 1000, NLoop example_idf 7000,
      NReceived (Some ([1, 2, 3, 4, 5, 6], None)) (Some [9, 8]) 2]"

subsection \<open>Property\<close>

text \<open>C23 (invariant): whatever calls, callbacks and platform answers follow each other from
  power-on, an initialized radio is configured, owns the driver's callbacks and is not in
  recovery; a recovery is never both pending and in progress; Wi-Fi reconnects are held back
  only while the station is known to be disassociated and a request for it is open; and
  every frame handed to the protocol has at most 250 bytes, names a registered peer, and was
  given, with these bytes, to the receive callback with that peer's address as its source.\<close>

theorem radio_always_consistent:
  "let r = run_events radio_step es radio_init in
   (nr_initialized r \<longrightarrow> nr_configured r \<and> nr_instance r = ThisInstance \<and> \<not> nr_radio_recovery_in_progress r) \<and>
   \<not> (nr_radio_recovery_pending r \<and> nr_radio_recovery_in_progress r) \<and>
   (nr_wifi_reconnect_suppression_held r \<longrightarrow>
      nr_wifi_arbitration_state r \<in> {REQUESTING, SUPPRESSED} \<and>
      nr_wifi_association_known r \<and> \<not> nr_wifi_associated r) \<and>
   (\<forall>f. fst (take_received_frame r) = Some f \<longrightarrow> length (rf_frame f) \<le> 250 \<and>
      (\<exists>p src rx d len. registry_peer (rf_peer_index f) (nr_peers r) = Some p \<and>
         NReceived (Some (src, rx)) (Some d) len \<in> set es \<and>
         peer_address p = take MAC_SIZE src \<and> rf_frame f = take (nat len) d))"
proof -
  let ?r = "run_events radio_step es radio_init"
  have inv: "radio_inv ?r" by (rule radio_machine.inv_run)
  have "length (rf_frame f) \<le> 250 \<and> genuine es (nr_peers ?r) f" if "fst (take_received_frame ?r) = Some f" for f
    using that take_received_frame_inv [OF inv prod.collapse [symmetric]] sources_run [of es]
      slots_written_pop(2) [of "genuine es (nr_peers ?r)" "nr_received_frames ?r" 3] radio_inv_rx [OF inv]
    by (auto simp: sources_def take_received_frame_def split: prod.splits)
  with inv show ?thesis by (simp add: Let_def radio_inv_def supervision_ok_def genuine_def)
qed

lemma example_received:
  "fst (take_received_frame (run_events radio_step example_reception radio_init)) =
     Some \<lparr>rf_peer_index = 0, rf_frame = [9, 8], rf_rssi = 127, rf_channel = 0\<rparr>"
  by code_simp

lemma radio_always_consistent_witness:
  "let r = run_events radio_step example_reception radio_init in
   \<exists>p. registry_peer 0 (nr_peers r) = Some p \<and> peer_address p = [1, 2, 3, 4, 5, 6] \<and>
     fst (take_received_frame r) = Some \<lparr>rf_peer_index = 0, rf_frame = [9, 8], rf_rssi = 127, rf_channel = 0\<rparr>"
proof -
  let ?r = "run_events radio_step example_reception radio_init"
  have "\<forall>f. fst (take_received_frame ?r) = Some f \<longrightarrow>
      (\<exists>p src rx d len. registry_peer (rf_peer_index f) (nr_peers ?r) = Some p \<and>
         NReceived (Some (src, rx)) (Some d) len \<in> set example_reception \<and> peer_address p = take MAC_SIZE src)"
    using radio_always_consistent [of example_reception] by (simp add: Let_def) blast
  from this [rule_format, OF example_received]
  have "\<exists>p. registry_peer 0 (nr_peers ?r) = Some p \<and> peer_address p = [1, 2, 3, 4, 5, 6]"
    by (auto simp: example_reception_def MAC_SIZE_def)
  then show ?thesis using example_received by (simp add: Let_def)
qed

end
