(* ===== verification/Multi_Fragment.thy ===== *)
theory Multi_Fragment
  imports Component_Invariant
begin

text \<open>
  What the component's loop makes of a message of several fragments: whatever the application
  calls, the platform answers and the radio reports, only its first fragment is ever sent.
\<close>

subsection \<open>The sender under the component\<close>

lemma identity_sender [simp]: "nc_sender (on_command_identity seen n) = nc_sender n"
  by (auto simp: on_command_identity_def split: option.split)

lemma ended_sender [simp]:
  "nc_sender (queue_command_result_notification p r n) = nc_sender n"
  "nc_sender (finish_command_client r k n) = nc_sender n" "nc_sender (fail_command_client e m t k n) = nc_sender n"
proof -
  show queue: "nc_sender (queue_command_result_notification p r n) = nc_sender n" for p r n
    by (simp add: queue_command_result_notification_def)
  show finish: "nc_sender (finish_command_client r k n) = nc_sender n" for r n
    by (simp add: finish_command_client_def clear_command_client_def queue Let_def)
  show "nc_sender (fail_command_client e m t k n) = nc_sender n"
    by (simp add: fail_command_client_def finish)
qed

lemma result_sender [simp]:
  "nc_sender (process_command_client_result im t k n) = nc_sender n"
  "nc_sender (expire_command_client now k n) = nc_sender n"
  by (simp_all add: process_command_client_result_def expire_command_client_def Let_def split: sum.split)

text \<open>A property of the sender that its owners and the acknowledgements keep is kept by everything
  the component does between the frames.\<close>

locale sender_contract =
  fixes P :: "ReliableMessageSender \<Rightarrow> bool"
  assumes reset: "P s \<Longrightarrow> P (sender_reset s)"
    and start: "P s \<Longrightarrow> P (snd (sender_start p k t v s))"
    and ack: "P s \<Longrightarrow> P (snd (sender_accept_ack a s))"
    and configure: "P s \<Longrightarrow> P (snd (sender_configure b q s))"
begin

lemma started: "P s \<Longrightarrow> sender_start p k t v s = (ok, s') \<Longrightarrow> P s'"
  using start by (metis snd_conv)

lemma reset_sender: "P (nc_sender n) \<Longrightarrow> P (nc_sender (reset_sender n))"
  by (simp add: reset_sender_def reset)

lemma start_command: "P (nc_sender n) \<Longrightarrow> P (nc_sender (snd (start_command p c now n)))"
  by (auto simp: start_command_def Let_def split: sum.split prod.split bool.split dest: started)

lemma start_calls:
  assumes "P (nc_sender n)"
  shows "P (nc_sender (snd (start_reliable_message p k t d n)))"
    "P (nc_sender (snd (start_background_result p r n)))"
    "P (nc_sender (snd (send_command dst dev rsc nam pay timeout now n)))"
proof -
  show "P (nc_sender (snd (start_reliable_message p k t d n)))"
    using assms by (auto simp: start_reliable_message_def split: prod.split bool.split dest: started)
  show "P (nc_sender (snd (start_background_result p r n)))"
    using assms by (auto simp: start_background_result_def split: sum.split prod.split bool.split dest: started)
  show "P (nc_sender (snd (send_command dst dev rsc nam pay timeout now n)))"
    using assms by (auto simp: send_command_def start_command Let_def split: prod.split)
qed

lemma cancelled: "P (nc_sender n) \<Longrightarrow> P (nc_sender (snd (cancel_command t n)))"
  by (auto simp: cancel_command_def clear_command_client_def Let_def reset split: option.split)

lemma cancel_active: "P (nc_sender n) \<Longrightarrow> P (nc_sender (cancel_active_clients n))"
  by (auto simp: cancel_active_clients_def Let_def cancelled)

lemma runtime_enabled: "P (nc_sender n) \<Longrightarrow> P (nc_sender (set_runtime_enabled b n))"
  by (simp add: set_runtime_enabled_def discard_radio_events_def cancel_active reset_sender stop_heartbeat_def)

lemma call: "P (nc_sender n) \<Longrightarrow> P (nc_sender (apply_call c n))"
  by (cases c) (simp_all add: start_calls start_command cancelled runtime_enabled reset_sender take_background_result_completion_def
      component_take_application_message_def set_command_handler_def set_observe_application_identity_def
      set_expected_application_source_def use_external_result_deadline_def case_prod_beta split: option.split)

lemma calls: "P (nc_sender n) \<Longrightarrow> P (nc_sender (fold apply_call cs n))"
  by (induction cs arbitrary: n) (simp_all add: call)

lemma notify: "P (nc_sender n) \<Longrightarrow> P (nc_sender (notify_observers app obs f is n))"
  by (induction "is" arbitrary: n) (simp_all add: call_observer_def calls split: option.split)

lemma notification: "P (nc_sender n) \<Longrightarrow> P (nc_sender (dispatch_command_result_notification app n))"
  by (simp add: dispatch_command_result_notification_def notify del: notify_observers.simps)

lemma unsolicited: "P (nc_sender n) \<Longrightarrow> P (nc_sender (snd (dispatch_unsolicited_result app im n)))"
  by (simp add: dispatch_unsolicited_result_def notify split: sum.split del: notify_observers.simps)

lemma set_up: "P (nc_sender n) \<Longrightarrow> P (nc_sender (component_setup high low n))"
  using configure [of "nc_sender n"]
  by (auto simp: component_setup_def configure_protocol_def split: prod.split bool.split) (metis snd_conv)+

lemma received: "P (nc_sender n) \<Longrightarrow> P (nc_sender (process_received_frame t n))"
  by (auto simp: process_received_frame_def accept_received_frame_def component_receive_heartbeat_def Let_def ack
      split: option.split prod.split bool.split)

lemma offered [simp]: "nc_sender (fst (snd (offer_command handler im now n h))) = nc_sender n"
  by (simp add: offer_command_def offer_interrupt_def Let_def case_prod_beta)

lemma message: "P (nc_sender n) \<Longrightarrow> P (nc_sender (fst (process_application_message handler app now n h)))"
proof -
  assume P: "P (nc_sender n)"
  obtain im rt where take: "take_application_message (nc_runtime n) = (im, rt)" by fastforce
  obtain b m where u: "dispatch_unsolicited_result app (the im) (n\<lparr>nc_runtime := rt\<rparr>) = (b, m)" by fastforce
  then have m: "P (nc_sender m)" using unsolicited [of "n\<lparr>nc_runtime := rt\<rparr>" app "the im"] P by simp
  show ?thesis
    using P m u unfolding process_application_message_def take Let_def
    by (cases im; cases "matching_command_client n"; cases b) auto
qed

lemma dispatchers: "dispatchers_loop handler now n h = Some (n', h') \<Longrightarrow> nc_sender n' = nc_sender n"
  by (auto simp: dispatchers_loop_def Let_def split: option.splits)

lemma inbound:
  assumes "loop_inbound handler app li n h = Some (n', h')"
    and "P (nc_sender (process_send_completion (li_now_ms li) (dispatch_command_result_notification app n)))"
  shows "P (nc_sender n')"
proof -
  obtain m h1 where m: "process_application_message handler app (li_now_ms li) (loop_receiving app li n) h = (m, h1)"
    by fastforce
  have "P (nc_sender m)"
    using message [of "loop_receiving app li n" handler app "li_now_ms li" h] received [OF assms(2)] m
    by (simp add: loop_receiving_def)
  moreover have "nc_sender n' = nc_sender (expire_all (li_now_ms li) m)"
    using assms(1) m dispatchers by (simp add: loop_inbound_eq)
  ultimately show ?thesis by (simp add: expire_all_def Let_def)
qed

lemma owned: "P (nc_sender n) \<Longrightarrow> P (nc_sender (process_owned_sender_completion idf t1 t2 n))"
  by (cases "nc_reliable_message_owner n")
    (simp_all add: process_owned_sender_completion_def request_recovery_def reset_sender Let_def)

lemma dispatcher: "P (nc_sender n) \<Longrightarrow> P (nc_sender (process_dispatcher n))"
  by (auto simp: process_dispatcher_def Let_def split: option.split prod.split bool.split dest: started)

end

subsection \<open>Only the first frame\<close>

text \<open>A frame in flight is the first one, and so is the frame whose failed transmission an attempt
  of a longer message was counted for. Between the completion of a frame and \<open>sender_.loop\<close> the
  next frame to send may be another one; at the end of a pass it is the first again.\<close>

definition sends_first :: "ReliableMessageSender \<Rightarrow> bool" where
  "sends_first s \<longleftrightarrow>
     sender_inv s \<and> (rs_state s = FRAME_IN_FLIGHT \<longrightarrow> rs_fragment_index s = 0) \<and>
     (rs_state s = ReliableSenderState.WAITING_FOR_ACK \<and> 1 < rs_fragment_count s \<longrightarrow> rs_fragment_index s = 0)"

definition at_first :: "ReliableMessageSender \<Rightarrow> bool" where
  "at_first s \<longleftrightarrow> sends_first s \<and> (rs_state s = READY \<longrightarrow> rs_fragment_index s = 0)"

lemma kept_by_owners:
  assumes "sends_first s"
  shows "sends_first (sender_reset s)" "sends_first (snd (sender_start p k t v s))"
    "sends_first (snd (sender_accept_ack a s))" "sends_first (snd (sender_configure b q s))"
proof -
  have inv: "sender_inv s" using assms by (simp add: sends_first_def)
  show "sends_first (sender_reset s)"
    using sender_reset_inv [OF inv] by (simp add: sends_first_def)
  show "sends_first (snd (sender_start p k t v s))"
    using sender_start_inv [OF inv] assms unfolding sends_first_def sender_start_eq [OF inv]
    by (auto simp: start_refused_def)
  show "sends_first (snd (sender_accept_ack a s))"
    using sender_accept_ack_inv [OF inv] assms by (auto simp: sends_first_def sender_accept_ack_def split: prod.split bool.split)
  show "sends_first (snd (sender_configure b q s))"
    using sender_configure_inv [OF inv] assms by (auto simp: sends_first_def sender_configure_def split: prod.split bool.split)
qed

interpretation sends_first: sender_contract sends_first
  by unfold_locales (simp_all add: kept_by_owners)

interpretation at_first: sender_contract at_first
proof
  show "at_first (sender_reset s)" if "at_first s" for s
    using that kept_by_owners by (simp add: at_first_def)
  show "at_first (snd (sender_start p k t v s))" if "at_first s" for s p k t v
    using that kept_by_owners [of s] sender_start_eq [of s] by (auto simp: at_first_def sends_first_def start_refused_def)
  show "at_first (snd (sender_accept_ack a s))" if "at_first s" for s a
    using that kept_by_owners [of s] by (auto simp: at_first_def sender_accept_ack_def split: prod.splits bool.splits)
  show "at_first (snd (sender_configure b q s))" if "at_first s" for s b q
    using that kept_by_owners [of s] by (auto simp: at_first_def sender_configure_def split: prod.splits bool.splits)
qed

lemma completed_first: "at_first s \<Longrightarrow> sends_first (snd (sender_complete_frame ok now s))"
proof (cases "rs_frame_in_flight s")
  case True
  assume s: "at_first s"
  then have inv: "sender_inv s" "rs_fragment_index s = 0" using True by (auto simp: at_first_def sends_first_def sender_inv_def)
  show ?thesis
    using sender_complete_frame_inv [OF inv(1), of ok now] inv
    by (auto simp: sends_first_def sender_complete_frame_eq [OF inv(1) True])
qed (simp add: sender_complete_frame_def at_first_def)

lemma refused_first:
  assumes "at_first s" and "sender_take_frame s = (f, s1)"
  shows "at_first s1" "at_first (snd (sender_complete_frame False now s1))"
proof -
  have inv: "sender_inv s" using assms(1) by (simp add: at_first_def sends_first_def)
  show s1: "at_first s1"
    using sender_take_frame_inv [OF inv] assms by (auto simp: at_first_def sends_first_def sender_take_frame_eq [OF inv] split: if_splits)
  then show "at_first (snd (sender_complete_frame False now s1))"
    using completed_first [OF s1, of False now]
    by (auto simp: at_first_def sender_complete_frame_def sender_mark_sent_def Let_def split: prod.splits bool.splits)
qed

lemma looped_first: "sends_first s \<Longrightarrow> at_first (sender_loop now s)"
proof -
  assume s: "sends_first s"
  then have inv: "sender_inv s" "sender_inv (sender_loop now s)" by (auto simp: sends_first_def sender_loop_inv)
  then show ?thesis
    using s by (cases "rs_state s"; cases "rd_state (delivery_loop now (rs_delivery s))")
      (auto simp: at_first_def sends_first_def sender_loop_def sender_inv_def delivery_loop_def Let_def split: if_splits)
qed

lemma completion_first: "at_first (nc_sender n) \<Longrightarrow> sends_first (nc_sender (process_send_completion now n))"
  using completed_first by (auto simp: process_send_completion_def at_first_def Let_def split: prod.split option.split)

lemma sending_first:
  "at_first (nc_sender n) \<Longrightarrow> at_first (nc_sender (dispatch_sender_frame idf now n))"
  "nc_sender (dispatch_application_ack idf n) = nc_sender n"
  "nc_sender (component_dispatch_heartbeat idf now n) = nc_sender n"
  using refused_first
  by (auto simp: dispatch_sender_frame_def dispatch_application_ack_def component_dispatch_heartbeat_def Let_def
      split: prod.split option.split sum.split bool.split)

lemma pass_first:
  assumes "at_first (nc_sender n)" and "component_loop handler app li n h = Some (n', h')"
  shows "at_first (nc_sender n')"
proof -
  let ?n1 = "loop_supervision li n"
  have n1: "at_first (nc_sender ?n1)"
    using assms(1) by (simp add: loop_supervision_def component_heartbeat_tick_def Let_def)
  have "at_first (nc_sender (loop_outbound li n2))"
    if "loop_inbound handler app li ?n1 h = Some (n2, h2)" for n2 h2
  proof -
    have "sends_first (nc_sender n2)"
      using sends_first.inbound [OF that] completion_first at_first.notification [OF n1] by blast
    then show ?thesis
      by (simp add: loop_outbound_def sending_first looped_first at_first.dispatcher at_first.owned Let_def)
  qed
  then show ?thesis
    using assms(2) n1 by (auto simp: component_loop_def discard_radio_events_def Let_def split: if_splits option.splits)
qed

lemma reach_first: "component_reach handler n h \<Longrightarrow> at_first (nc_sender n)"
proof (induction rule: component_reach.induct)
  case (component_start dual heartbeat diagnostics h)
  show ?case
    using sender_init_inv by (simp add: component_init_def at_first_def sends_first_def) (simp add: sender_init_def)
next
  case (component_looped n h app li n' h')
  show ?case by (rule pass_first [OF component_looped.IH component_looped.hyps(3)])
qed (simp_all add: at_first.call at_first.set_up)

text \<open>A device with one peer that has been asked to send 215 bytes, which are two fragments.\<close>

definition example_long :: NetComponent where
  "example_long =
     apply_call (CStartReliable 0 EspNowFrameKind.RESULT 9 (Some (replicate 215 165)))
       (component_setup 0 7
         (apply_call
           (CAddPeer (Some [65]) (Some [48, 49, 58, 48, 50, 58, 48, 51, 58, 48, 52, 58, 48, 53, 58, 48, 54])
             (Some (replicate 32 49)))
           (apply_call (CConfigure 6 (Some (replicate 32 48))) (component_init False False False))))"

subsection \<open>Property\<close>

text \<open>C13 (error): a message of two or three fragments never gets past its first one. In every
  state the component can reach, with any calls of the application, any behaviour of the
  platform and any reports of the radio, a frame in flight is fragment 0, a frame still to be
  handed out is fragment 0, and a message of several fragments waits for its acknowledgement
  only after a failed transmission of fragment 0: the completion of fragment 0 makes
  fragment 1 the next, but \<open>sender_.loop\<close> in the same pass makes it fragment 0 again.\<close>

theorem multi_fragment_message_never_advances:
  assumes "component_reach handler n h"
  shows "let s = nc_sender n in
    (rs_frame_in_flight s \<longrightarrow> rs_fragment_index s = 0) \<and>
    (rs_state s = READY \<longrightarrow>
       fst (sender_take_frame s) = Some (rs_peer_index s, frame_of (rs_envelope s) (rs_message s) 0)) \<and>
    (rs_state s = ReliableSenderState.WAITING_FOR_ACK \<and> 1 < rs_fragment_count s \<longrightarrow> rs_fragment_index s = 0)"
proof -
  have s: "at_first (nc_sender n)" by (rule reach_first [OF assms])
  then have "sender_inv (nc_sender n)" by (simp add: at_first_def sends_first_def)
  with s show ?thesis
    by (auto simp: at_first_def sends_first_def sender_inv_def sender_take_frame_eq Let_def)
qed

lemma example_long_started:
  "rs_state (nc_sender example_long) = READY \<and> rs_fragment_count (nc_sender example_long) = 2 \<and>
   rs_peer_index (nc_sender example_long) = 0 \<and> rs_message (nc_sender example_long) = replicate 215 165"
  by code_simp

lemma multi_fragment_message_never_advances_witness:
  "component_reach silent_handler example_long () \<and> rs_fragment_count (nc_sender example_long) = 2 \<and>
   fst (sender_take_frame (nc_sender example_long)) =
     Some (0, frame_of (rs_envelope (nc_sender example_long)) (replicate 215 165) 0)"
proof -
  have reach: "component_reach silent_handler example_long ()"
    unfolding example_long_def by (intro component_called component_set_up component_start)
  then show ?thesis
    using multi_fragment_message_never_advances [OF reach] example_long_started by (simp add: Let_def)
qed

end
