(* ===== verification/Spec2Isabelle.thy ===== *)
theory Spec2Isabelle
  imports Interrupt_Pair Queue_Interleaving Declarative_Handler Radio_Diagnostics Switch_And_Action
    Checksum Result_Exchange Component_Deadline Declarative_Component Diagnosed_Component Radio_Sources
    Multi_Fragment
begin

text \<open>
  Verification library of the ESPHome component \<open>espnow_net_protocol\<close>
  (\<open>src/components/espnow_net_protocol\<close>), which carries commands and their results between
  microcontrollers over encrypted ESP-NOW radio.

  \<^bold>\<open>The program.\<close> An application starts a command at a peer. The command is encoded, cut into
  frames of at most 250 bytes and handed frame by frame to the radio driver; the message is
  repeated until the peer acknowledges it or the attempts are used up. The peer's driver puts
  frames into a lock-free queue; its main loop reassembles them, suppresses repetitions,
  acknowledges, and gives the command to a dispatcher, which runs a handler and sends the
  result back the same way. Everything but the two driver callbacks runs in one loop.

  \<^bold>\<open>Theories\<close>, in the order of the calls, with the files they model and the prefix of their record
  fields. Definitions keep the names of the source; a clash with a name of HOL or of another
  class is avoided with the class as a prefix (\<open>sender_start\<close>, \<open>runtime_accept\<close>,
  \<open>dispatcher_loop\<close>). An object is a record, a method a function from the old to the new state
  with the result first; \<open>X_init\<close> is what the constructor and the initializers of \<open>X\<close> give.

    \<^item> \<open>Prelude\<close>: types, lists with fixed sizes, the collections \<open>state_defs\<close> and others, the locale
      \<open>invariant_machine\<close> for a deterministic machine whose operations keep an invariant.
    \<^item> \<open>Bounded_Value\<close> (\<open>bounded_value.h\<close>), \<open>Byte_Order\<close> (the \<open>put\<close>/\<open>get\<close> helpers of the codecs),
      \<open>Protocol_Identity\<close>, \<open>Message_Model\<close> (\<open>protocol_identity.h\<close>, \<open>message_model.h\<close>): values.
    \<^item> \<open>Peer_Registry\<close> (\<open>peer_registry.h\<close>, \<open>peer_application_identity.h\<close>), \<open>Interrupt_Pair\<close>
      (\<open>interruptible_transaction_pair.h\<close>), \<open>Key_Parser\<close> (the parsers of the driver): tables
      and configuration.
    \<^item> \<open>Frame\<close> (\<open>frame.h\<close>; \<open>env_\<close>, \<open>ra_\<close>): header, CRC-32, fragmentation, reassembler.
      \<open>Checksum\<close> compares the CRC with division of polynomials.
      \<open>Message_Codec\<close> is the contract \<open>message_codec\<close> of the codecs \<open>Command_Codec\<close>,
      \<open>Result_Codec\<close> (\<open>command_codec.h\<close>, \<open>result_codec.h\<close>) and of the acknowledgements.
    \<^item> \<open>Reliability\<close> (\<open>reliability.h\<close>; \<open>rd_\<close>): the delivery machine, acknowledgements and the cache of
      recent messages. \<open>Reliable_Sender\<close> (\<open>reliable_sender.h\<close>; \<open>rs_\<close>), \<open>Protocol_Runtime\<close>
      (\<open>protocol_runtime.h\<close>; \<open>rt_\<close>): the sending and the receiving side.
    \<^item> \<open>Radio_Queue\<close>, \<open>Queue_Interleaving\<close> (\<open>radio_queue.h\<close>): the ring as a sequential object with the
      locale \<open>fifo_queue\<close>, and as interleaved loads and stores with a step relation.
    \<^item> \<open>Encrypted_Radio\<close> (\<open>espidf_espnow_encrypted_radio.h\<close>, \<open>.cpp\<close>; \<open>nr_\<close>), \<open>Peer_Recovery\<close>
      (\<open>wifi_peer_recovery.cpp\<close>, \<open>recovery_history.cpp\<close>; \<open>pw_\<close>), \<open>Radio_Diagnostics\<close>
      (\<open>radio_diagnostics.h\<close>, \<open>.cpp\<close>, \<open>radio_diagnostic_history.h\<close>; \<open>dg_\<close>, \<open>dh_\<close>, \<open>ds_\<close>),
      \<open>Heartbeat\<close> (\<open>application_heartbeat.h\<close>, \<open>.cpp\<close>; \<open>hb_\<close>): the driver and its supervision.
      \<open>Radio_Sources\<close> follows the frames from the receive callback to the protocol.
    \<^item> \<open>Command_Dispatcher\<close> (\<open>command_dispatcher.h\<close>; \<open>cd_\<close>, the handler interface \<open>nh_\<close>, its contract
      the locale \<open>net_command_handler\<close>), \<open>Completion_Probe\<close> (\<open>command_completion_probe.h\<close>,
      \<open>light_command_completion_probe.h\<close>, locale \<open>completion_probe\<close>), \<open>Declarative_Handler\<close>
      (\<open>declarative_command_handler.h\<close>), which is proved to keep the handler's contract.
    \<^item> \<open>Net_Component\<close>, \<open>Component_Loop\<close> (\<open>espnow_net_protocol.h\<close>, \<open>.cpp\<close>; \<open>nc_\<close>, \<open>cc_\<close>): the component's
      public operations and its loop. \<open>Component_Invariant\<close> and \<open>Component_Properties\<close> hold what
      is proved of them, \<open>Component_Deadline\<close> the deadline of a command over a whole pass,
      \<open>Multi_Fragment\<close> (with the locale \<open>sender_contract\<close>, what the owners of the sender keep of
      it) what the loop makes of a message of several frames,
      \<open>Declarative_Component\<close> the component with its own declarative handler,
      \<open>Diagnosed_Component\<close> the component in a build with diagnostics,
      \<open>Switch_And_Action\<close> (\<open>espnow_net_protocol_switch.h\<close>, \<open>.cpp\<close>,
      \<open>send_command_action.h\<close>; \<open>sw_\<close>, \<open>sa_\<close>) the two ways the framework calls it, and
      \<open>Command_Exchange\<close> and \<open>Result_Exchange\<close> two components joined by a link.

  \<^bold>\<open>What is shown.\<close> Values: the containers refine byte lists; the checksum is the remainder
  of a division of polynomials; every codec round trips and what a
  decoder lets through is valid; the fragments of a message reassemble in any order to the
  message, and a damaged one never does. Machines: the delivery, the sender, the runtime, the
  reassembler, the radio driver and the dispatcher keep their invariants under every sequence
  of operations; a delivery ends after its attempts; the cache is a sliding window; the ring
  is a FIFO for every interleaving while its counters do not wrap; the driver recovers once
  the platform answers; every accepted command is answered and every overdue one times out.
  Every frame the driver delivers came from the registered peer it names. Composition: the
  parts of the component agree in every reachable state and its loop returns; accepted
  commands reach a dispatcher, results reach the client that waits; a command that fits one
  frame travels from one component's client to the other's handler and back as an
  acknowledgement, and a result that fits one frame travels the other way; a command whose
  own deadline has passed ends in the next pass of a running component with an initialized
  radio, unless an observer starts another; a component with declarative bindings, none of
  whose probes has a completion timeout of zero and with no other handler, runs the
  automation of each matching command it accepts and does not block; the diagnostics only
  observe; switching the runtime off cancels the component's own commands and deliveries and
  freezes what it does for its peers. Flaws: of a message of more than one frame the loop
  sends only the first frame, the receive queue loses a frame when its counter wraps, a
  binding without completion time blocks its handler, and a terminal result can be lost to
  the single notification slot. The first and the third are the limits of the statements on
  whole exchanges and on declarative components, which name them as conditions.

  \<^bold>\<open>Conventions and bounds.\<close> \<open>uintN_t\<close> is \<open>N word\<close>, so arithmetic and the clock comparisons wrap as
  they do in the source; sizes are \<open>nat\<close>. Errors are \<open>None\<close>, the left of a sum, or the flag the code
  returns. No definition uses fuel: the one loop that waits for another task, the drain of a
  queue, is a function with a termination proof, and the loops over a fixed number of peers,
  slots or bytes recurse on that number. The pass of the component's loop is an option only
  because the code dereferences a handler pointer; it is proved never to be null.

  \<^bold>\<open>Parameters.\<close> The answers of ESP-IDF and of the Wi-Fi component in one call are the record
  \<open>EspIdf\<close>, the clock readings and the log client \<open>LoopInput\<close>, the rings of the Wi-Fi component
  \<open>DiagnosticRings\<close>; nothing is assumed of the first two. The application's command handler is
  the argument \<open>handler\<close> with a state of its own, the same for the three dispatchers, and its
  observers are numbers whose reactions \<open>app\<close> may be any calls of the public operations.
  Handlers are registered and never removed, as the code generator and the applications do.

  \<^bold>\<open>Not modelled\<close>: log output, apart from \<open>dump_config\<close> and the two replays, whose
  purpose is to print; the measurements of callback stacks and cores; the pacing of
  diagnostic traces; the Python files, which run at build time and emit configuration calls;
  the tests and the documents.
\<close>

end
